theory Spec2Isabelle
  imports Complex_Main
begin

section \<open>Python values and the shared state\<close>

text \<open>
  The orchestrator passes one dictionary (\<open>OrchestratorState\<close>, a \<open>TypedDict\<close>, at run time a
  plain \<open>dict\<close>) through every node. Its values are dynamically typed, so they are modelled
  by one datatype of Python values. A nested dictionary keeps its insertion order (an
  association list); the state itself is a map from field names to values, where a missing
  key is \<open>None\<close> of the option type and Python's \<open>None\<close> is \<open>Some VNone\<close>.
  Python floats are modelled by reals (no rounding, no NaN or infinity).
\<close>

datatype pyval =
    VNone
  | VBool bool
  | VInt int
  | VFloat real
  | VStr string
  | VList "pyval list"
  | VDict "(string \<times> pyval) list"

type_synonym state = "string \<rightharpoonup> pyval"

text \<open>\<open>state.get(k)\<close> and \<open>state.get(k, default)\<close>.\<close>

definition get_default :: "state \<Rightarrow> string \<Rightarrow> pyval \<Rightarrow> pyval" where
  "get_default d k v = (case d k of None \<Rightarrow> v | Some x \<Rightarrow> x)"

definition get :: "state \<Rightarrow> string \<Rightarrow> pyval" where
  "get d k = get_default d k VNone"

text \<open>Python truthiness (\<open>bool(x)\<close>, \<open>if x\<close>, \<open>x or y\<close>).\<close>

fun truthy :: "pyval \<Rightarrow> bool" where
  "truthy VNone = False"
| "truthy (VBool b) = b"
| "truthy (VInt i) = (i \<noteq> 0)"
| "truthy (VFloat r) = (r \<noteq> 0)"
| "truthy (VStr s) = (s \<noteq> [])"
| "truthy (VList xs) = (xs \<noteq> [])"
| "truthy (VDict kvs) = (kvs \<noteq> [])"

fun is_list :: "pyval \<Rightarrow> bool" where
  "is_list (VList _) = True"
| "is_list _ = False"

fun is_dict :: "pyval \<Rightarrow> bool" where
  "is_dict (VDict _) = True"
| "is_dict _ = False"

text \<open>Nested dictionaries: \<open>d.get(k)\<close> and \<open>d[k] = v\<close> (an existing key keeps its position).\<close>

fun dict_get :: "(string \<times> pyval) list \<Rightarrow> string \<Rightarrow> pyval option" where
  "dict_get [] k = None"
| "dict_get ((a, b) # kvs) k = (if a = k then Some b else dict_get kvs k)"

fun dict_set :: "(string \<times> pyval) list \<Rightarrow> string \<Rightarrow> pyval \<Rightarrow> (string \<times> pyval) list" where
  "dict_set [] k v = [(k, v)]"
| "dict_set ((a, b) # kvs) k v = (if a = k then (a, v) # kvs else (a, b) # dict_set kvs k v)"

section \<open>state/state.py\<close>

datatype Intent = RAG | SQL | CODE | RESEARCH | CHAT | UNKNOWN

fun Intent_value :: "Intent \<Rightarrow> string" where
  "Intent_value RAG = ''rag''"
| "Intent_value SQL = ''sql''"
| "Intent_value CODE = ''code''"
| "Intent_value RESEARCH = ''research''"
| "Intent_value CHAT = ''chat''"
| "Intent_value UNKNOWN = ''unknown''"

definition all_intents :: "Intent list" where
  "all_intents = [RAG, SQL, CODE, RESEARCH, CHAT, UNKNOWN]"

text \<open>\<open>{i.value for i in Intent}\<close>\<close>

definition valid_intents :: "string list" where
  "valid_intents = map Intent_value all_intents"

text \<open>
  The keys of \<open>OrchestratorState\<close>, in the order of the class body, and those annotated
  \<open>List[...]\<close> or \<open>Dict[...]\<close> without \<open>Optional\<close>.
\<close>

definition state_keys :: "string list" where
  "state_keys =
    [''tenant_id'', ''user_id'', ''is_guest'', ''session_id'',
     ''user_query'', ''intent'', ''intent_confidence'',
     ''messages'', ''conversation_turn'', ''chat_history'', ''memory_loaded_count'',
     ''uploaded_docs'', ''db_connection'', ''db_schema'',
     ''workspace_id'', ''uploaded_doc_ids'', ''workspace_documents'', ''vector_index_path'',
     ''retrieved_context'', ''generated_sql'', ''sql_validation_result'', ''code_to_execute'',
     ''execution_result'', ''tool_outputs'', ''research_results'',
     ''errors'', ''retry_count'', ''max_retries'', ''approved'', ''approval_required'',
     ''approval_reason'', ''execution_status'', ''confidence_score'', ''risk_level'',
     ''next_node'', ''should_continue'', ''requires_human_input'',
     ''final_answer'', ''metadata'',
     ''model_used'', ''fallback_reason'']"

definition list_keys :: "string list" where
  "list_keys =
    [''messages'', ''chat_history'', ''uploaded_docs'', ''uploaded_doc_ids'',
     ''workspace_documents'', ''errors'']"

definition dict_keys :: "string list" where
  "dict_keys = [''tool_outputs'', ''metadata'']"

section \<open>state/normalize.py\<close>

text \<open>\<open>d.setdefault(k, v)\<close>: a present key is kept, also when its value is \<open>None\<close>.\<close>

definition setdefault :: "state \<Rightarrow> string \<Rightarrow> pyval \<Rightarrow> state" where
  "setdefault d k v = (if d k = None then d(k \<mapsto> v) else d)"

text \<open>
  \<open>isinstance(d[k], list)\<close> and \<open>isinstance(d[k], dict)\<close>. In \<open>normalize_state\<close> each
  subscript follows a \<open>setdefault\<close> on the same key, so it cannot raise \<open>KeyError\<close>
  (lemma \<open>absent_setdefault\<close>).
\<close>

definition subscript_is_list :: "state \<Rightarrow> string \<Rightarrow> bool" where
  "subscript_is_list d k = (case d k of None \<Rightarrow> False | Some v \<Rightarrow> is_list v)"

definition subscript_is_dict :: "state \<Rightarrow> string \<Rightarrow> bool" where
  "subscript_is_dict d k = (case d k of None \<Rightarrow> False | Some v \<Rightarrow> is_dict v)"

text \<open>\<open>if not isinstance(d[k], list): d[k] = []\<close>\<close>

definition reset_unless_list :: "state \<Rightarrow> string \<Rightarrow> state" where
  "reset_unless_list d k = (if \<not> subscript_is_list d k then d(k \<mapsto> VList []) else d)"

text \<open>\<open>if not isinstance(d[k], dict): d[k] = {}\<close>\<close>

definition reset_unless_dict :: "state \<Rightarrow> string \<Rightarrow> state" where
  "reset_unless_dict d k = (if \<not> subscript_is_dict d k then d(k \<mapsto> VDict []) else d)"

text \<open>\<open>d["is_guest"] = d.get("is_guest", d["user_id"] == "guest")\<close>\<close>

definition set_is_guest :: "state \<Rightarrow> state" where
  "set_is_guest d =
     d(''is_guest'' \<mapsto> get_default d ''is_guest'' (VBool (d ''user_id'' = Some (VStr ''guest''))))"

definition normalize_state :: "state \<Rightarrow> state" where
  "normalize_state state =
    (let normalized = state;
         normalized = setdefault normalized ''tenant_id'' (VStr ''default'');
         normalized = setdefault normalized ''user_id'' (VStr ''guest'');
         normalized = set_is_guest normalized;
         normalized = setdefault normalized ''session_id'' (VStr '''');
         normalized = setdefault normalized ''user_query'' (VStr '''');
         normalized = setdefault normalized ''intent'' (VStr (Intent_value UNKNOWN));
         normalized = setdefault normalized ''intent_confidence'' (VFloat 0);
         normalized = setdefault normalized ''messages'' (VList []);
         normalized = reset_unless_list normalized ''messages'';
         normalized = setdefault normalized ''conversation_turn'' (VInt 0);
         normalized = setdefault normalized ''chat_history'' (VList []);
         normalized = reset_unless_list normalized ''chat_history'';
         normalized = setdefault normalized ''memory_loaded_count'' (VInt 0);
         normalized = setdefault normalized ''uploaded_docs'' (VList []);
         normalized = reset_unless_list normalized ''uploaded_docs'';
         normalized = setdefault normalized ''db_connection'' VNone;
         normalized = setdefault normalized ''db_schema'' VNone;
         normalized = setdefault normalized ''workspace_id'' (VStr ''default'');
         normalized = setdefault normalized ''uploaded_doc_ids'' (VList []);
         normalized = setdefault normalized ''workspace_documents'' (VList []);
         normalized = reset_unless_list normalized ''workspace_documents'';
         normalized = setdefault normalized ''vector_index_path'' VNone;
         normalized = setdefault normalized ''retrieved_context'' VNone;
         normalized = setdefault normalized ''generated_sql'' VNone;
         normalized = setdefault normalized ''sql_validation_result'' VNone;
         normalized = setdefault normalized ''code_to_execute'' VNone;
         normalized = setdefault normalized ''execution_result'' VNone;
         normalized = setdefault normalized ''tool_outputs'' (VDict []);
         normalized = reset_unless_dict normalized ''tool_outputs'';
         normalized = setdefault normalized ''research_results'' VNone;
         normalized = setdefault normalized ''errors'' (VList []);
         normalized = reset_unless_list normalized ''errors'';
         normalized = setdefault normalized ''retry_count'' (VInt 0);
         normalized = setdefault normalized ''max_retries'' (VInt 3);
         normalized = setdefault normalized ''approved'' (VBool False);
         normalized = setdefault normalized ''approval_required'' (VBool False);
         normalized = setdefault normalized ''approval_reason'' VNone;
         normalized = setdefault normalized ''execution_status'' (VStr ''pending'');
         normalized = setdefault normalized ''confidence_score'' (VFloat 0);
         normalized = setdefault normalized ''risk_level'' VNone;
         normalized = setdefault normalized ''next_node'' VNone;
         normalized = setdefault normalized ''should_continue'' (VBool False);
         normalized = setdefault normalized ''requires_human_input'' (VBool False);
         normalized = setdefault normalized ''final_answer'' VNone;
         normalized = setdefault normalized ''metadata'' (VDict []);
         normalized = reset_unless_dict normalized ''metadata'';
         normalized = setdefault normalized ''model_used'' VNone;
         normalized = setdefault normalized ''fallback_reason'' VNone
     in normalized)"

text \<open>\<open>ensure_intent\<close>, \<open>ensure_metadata\<close>, \<open>ensure_errors\<close> mutate the state in place.\<close>

definition ensure_intent :: "state \<Rightarrow> state" where
  "ensure_intent state =
    (if state ''intent'' = None \<or> get state ''intent'' = VNone
     then state(''intent'' \<mapsto> VStr (Intent_value UNKNOWN), ''intent_confidence'' \<mapsto> VFloat 0)
     else state)"

definition ensure_metadata :: "state \<Rightarrow> state" where
  "ensure_metadata state =
    (if state ''metadata'' = None \<or> \<not> is_dict (get state ''metadata'')
     then state(''metadata'' \<mapsto> VDict [])
     else state)"

definition ensure_errors :: "state \<Rightarrow> state" where
  "ensure_errors state =
    (if state ''errors'' = None \<or> \<not> is_list (get state ''errors'')
     then state(''errors'' \<mapsto> VList [])
     else state)"

text \<open>
  What the specification asks of a normalized state: every documented field present, every
  list-typed field a list, every map-typed field a dictionary.
\<close>

definition complete_state :: "state \<Rightarrow> bool" where
  "complete_state s \<longleftrightarrow>
     list_all (\<lambda>k. s k \<noteq> None) state_keys \<and>
     list_all (subscript_is_list s) list_keys \<and>
     list_all (subscript_is_dict s) dict_keys"

text \<open>
  What \<open>normalize_state\<close> establishes: as above, but \<open>uploaded_doc_ids\<close> is only given a
  default, it has no \<open>isinstance\<close> check.
\<close>

definition checked_list_keys :: "string list" where
  "checked_list_keys =
    [''messages'', ''chat_history'', ''uploaded_docs'', ''workspace_documents'', ''errors'']"

definition normal_form :: "state \<Rightarrow> bool" where
  "normal_form s \<longleftrightarrow>
     list_all (\<lambda>k. s k \<noteq> None) state_keys \<and>
     list_all (subscript_is_list s) checked_list_keys \<and>
     list_all (subscript_is_dict s) dict_keys"

section \<open>Strings and exceptions\<close>

text \<open>
  \<open>str.lower()\<close> on ASCII letters (other characters are left alone), \<open>s.startswith(p)\<close> and
  the substring test \<open>p in s\<close>.
\<close>

definition lower_char :: "char \<Rightarrow> char" where
  "lower_char c =
     (case map_of (zip ''ABCDEFGHIJKLMNOPQRSTUVWXYZ'' ''abcdefghijklmnopqrstuvwxyz'') c of
        None \<Rightarrow> c | Some l \<Rightarrow> l)"

definition lower :: "string \<Rightarrow> string" where
  "lower s = map lower_char s"

fun startswith :: "string \<Rightarrow> string \<Rightarrow> bool" where
  "startswith s [] = True"
| "startswith [] (p # ps) = False"
| "startswith (c # cs) (p # ps) = (c = p \<and> startswith cs ps)"

fun contains :: "string \<Rightarrow> string \<Rightarrow> bool" where
  "contains [] p = (p = [])"
| "contains (c # cs) p = (startswith (c # cs) p \<or> contains cs p)"

text \<open>\<open>str(n)\<close> for an integer.\<close>

fun str_of_nat :: "nat \<Rightarrow> string" where
  "str_of_nat n =
     (if n < 10 then [''0123456789'' ! n]
      else str_of_nat (n div 10) @ [''0123456789'' ! (n mod 10)])"

declare str_of_nat.simps [simp del]

definition str_of_int :: "int \<Rightarrow> string" where
  "str_of_int i = (if i < 0 then ''-'' @ str_of_nat (nat (- i)) else str_of_nat (nat i))"

text \<open>\<open>sep.join(xs)\<close>\<close>

fun join :: "string \<Rightarrow> string list \<Rightarrow> string" where
  "join sep [] = []"
| "join sep [x] = x"
| "join sep (x # y # ys) = x @ sep @ join sep (y # ys)"

text \<open>
  An exception is its class, as far as the code tests it, and its message \<open>str(e)\<close>.
\<close>

datatype exc_class =
    ResourceExhausted | TypeError | AttributeError | KeyError | ValueError | OtherException

datatype py_exception = PyExc (exc_class: exc_class) (exc_str: string)

text \<open>A numeric operand of \<open><\<close> and \<open>max\<close> (\<open>bool\<close> is a subclass of \<open>int\<close>).\<close>

fun num_of :: "pyval \<Rightarrow> real option" where
  "num_of (VInt i) = Some (of_int i)"
| "num_of (VFloat r) = Some r"
| "num_of (VBool b) = Some (if b then 1 else 0)"
| "num_of _ = None"

section \<open>llm/router.py\<close>

text \<open>
  A model response: its \<open>content\<close> attribute when it has one, and \<open>str(response)\<close>.
\<close>

record response =
  content :: "pyval option"
  resp_str :: string

record LLMRouter =
  primary_model :: string
  fallback_repo_id :: string
  enable_fallback :: bool

text \<open>
  The two model backends are external: each maps the prompt messages to a response or
  raises. \<open>google_exceptions_loaded\<close> says whether the module-level import of
  \<open>google.api_core.exceptions\<close> succeeded.
\<close>

record 'm backends =
  google_exceptions_loaded :: bool
  primary_invoke :: "'m \<Rightarrow> py_exception + response"
  fallback_invoke :: "'m \<Rightarrow> py_exception + response"

datatype backend = Primary | Fallback

definition is_quota_exhausted_429 :: "bool \<Rightarrow> py_exception \<Rightarrow> bool" where
  "is_quota_exhausted_429 google_loaded err =
     (if google_loaded \<and> exc_class err = ResourceExhausted then True
      else let s = lower (exc_str err) in
        if contains s ''resourceexhausted'' \<and> contains s ''429'' then True
        else if contains s ''resource exhausted'' \<and> contains s ''429'' then True
        else if contains s ''429'' \<and> contains s ''quota'' then True
        else False)"

text \<open>\<open>md[k] = v\<close> for a string key: only a dictionary accepts it.\<close>

fun setitem :: "pyval \<Rightarrow> string \<Rightarrow> pyval \<Rightarrow> py_exception + pyval" where
  "setitem (VDict d) k v = Inr (VDict (dict_set d k v))"
| "setitem (VList xs) k v = Inl (PyExc TypeError ''list indices must be integers or slices, not str'')"
| "setitem _ k v = Inl (PyExc TypeError ''object does not support item assignment'')"

text \<open>
  \<open>LLMRouter.invoke\<close>. The result is the list of backends invoked, in order, the state (it
  is mutated in place, so it is returned also when the call raises) and the response or
  the exception that leaves \<open>invoke\<close>.
\<close>

definition LLMRouter_invoke ::
  "LLMRouter \<Rightarrow> 'm backends \<Rightarrow> 'm \<Rightarrow> state option
     \<Rightarrow> backend list \<times> state option \<times> (py_exception + response)" where
  "LLMRouter_invoke self env messages state =
     (case primary_invoke env messages of
        Inr resp \<Rightarrow>
          ([Primary],
           map_option (\<lambda>s. s(''model_used'' \<mapsto> VStr (primary_model self),
                             ''fallback_reason'' \<mapsto> VNone)) state,
           Inr resp)
      | Inl e \<Rightarrow>
          if \<not> (enable_fallback self \<and> is_quota_exhausted_429 (google_exceptions_loaded env) e)
          then ([Primary], state, Inl e)
          else
            (case fallback_invoke env messages of
               Inl e' \<Rightarrow> ([Primary, Fallback], state, Inl e')
             | Inr resp \<Rightarrow>
                 (case state of
                    None \<Rightarrow> ([Primary, Fallback], None, Inr resp)
                  | Some s \<Rightarrow>
                      let s = s(''model_used'' \<mapsto> VStr (''huggingface:'' @ fallback_repo_id self),
                                ''fallback_reason'' \<mapsto>
                                   VStr ''ResourceExhausted (429) - Gemini quota limit reached'');
                          md = (if truthy (get s ''metadata'') then get s ''metadata'' else VDict [])
                      in (case setitem md ''fallback_used'' (VBool True) of
                            Inl e' \<Rightarrow> ([Primary, Fallback], Some s, Inl e')
                          | Inr md \<Rightarrow>
                              ([Primary, Fallback], Some (s(''metadata'' \<mapsto> md)), Inr resp)))))"

section \<open>config/tenant\_config.py\<close>

datatype TenantTier = FREE | BASIC | PRO | ENTERPRISE

fun TenantTier_value :: "TenantTier \<Rightarrow> string" where
  "TenantTier_value FREE = ''free''"
| "TenantTier_value BASIC = ''basic''"
| "TenantTier_value PRO = ''pro''"
| "TenantTier_value ENTERPRISE = ''enterprise''"

record TenantConfig =
  tenant_id :: string
  tier :: TenantTier
  max_documents :: nat
  max_query_length :: nat
  allowed_agents :: "string list"
  enable_code_execution :: bool
  enable_sql_execution :: bool
  require_approval_for_risky_ops :: bool
  max_retries :: nat

text \<open>\<open>__post_init__\<close>: the agents a tier allows when none are given.\<close>

fun tier_agents :: "TenantTier \<Rightarrow> string list" where
  "tier_agents FREE = [''chat'', ''rag'']"
| "tier_agents BASIC = [''chat'', ''rag'', ''research'']"
| "tier_agents PRO = [''chat'', ''rag'', ''research'', ''sql'', ''code'']"
| "tier_agents ENTERPRISE = [''chat'', ''rag'', ''research'', ''sql'', ''code'']"

text \<open>\<open>TenantConfig(tenant_id=t)\<close>: every other field at its default.\<close>

definition TenantConfig_new :: "string \<Rightarrow> TenantConfig" where
  "TenantConfig_new t =
     \<lparr> tenant_id = t, tier = FREE, max_documents = 10, max_query_length = 1000,
       allowed_agents = tier_agents FREE, enable_code_execution = False,
       enable_sql_execution = False, require_approval_for_risky_ops = True,
       max_retries = 3 \<rparr>"

type_synonym TenantConfigManager = "string \<rightharpoonup> TenantConfig"

text \<open>\<open>TenantConfigManager()\<close>: only the default tenant is configured.\<close>

definition TenantConfigManager_new :: TenantConfigManager where
  "TenantConfigManager_new =
     [''default'' \<mapsto>
        \<lparr> tenant_id = ''default'', tier = PRO, max_documents = 10, max_query_length = 1000,
          allowed_agents = [''chat'', ''rag'', ''research'', ''sql'', ''code''],
          enable_code_execution = True, enable_sql_execution = True,
          require_approval_for_risky_ops = True, max_retries = 3 \<rparr>]"

text \<open>\<open>get_config\<close> registers a default configuration for an unknown tenant.\<close>

definition get_config :: "TenantConfigManager \<Rightarrow> string \<Rightarrow> TenantConfig \<times> TenantConfigManager" where
  "get_config configs t =
     (case configs t of
        None \<Rightarrow> (TenantConfig_new t, configs(t \<mapsto> TenantConfig_new t))
      | Some c \<Rightarrow> (c, configs))"

definition is_agent_allowed :: "TenantConfigManager \<Rightarrow> string \<Rightarrow> string \<Rightarrow> bool" where
  "is_agent_allowed configs t agent_name =
     (let config = fst (get_config configs t)
      in lower agent_name \<in> set (map lower (allowed_agents config)))"

definition validate_request ::
  "TenantConfigManager \<Rightarrow> string \<Rightarrow> string \<Rightarrow> string \<Rightarrow> bool \<times> string option" where
  "validate_request configs t query intent =
     (let (config, configs) = get_config configs t in
      if length query > max_query_length config then
        (False, Some (''Query exceeds maximum length of '' @
                      str_of_nat (max_query_length config) @ '' characters''))
      else if \<not> is_agent_allowed configs t intent then
        (False, Some (''Agent '' @ [CHR 0x27] @ intent @ [CHR 0x27] @
                      '' is not available for your tier ('' @
                      TenantTier_value (tier config) @ '')''))
      else if intent = ''code'' \<and> \<not> enable_code_execution config then
        (False, Some ''Code execution is not enabled for your tenant'')
      else if intent = ''sql'' \<and> \<not> enable_sql_execution config then
        (False, Some ''SQL execution is not enabled for your tenant'')
      else (True, None))"

section \<open>orchestrator/graph.py: routing after classification\<close>

definition research_keywords :: "string list" where
  "research_keywords =
     [''weather'', ''temperature'', ''current'', ''today'', ''now'', ''latest'', ''recent'',
      ''this week'', ''this month'']"

definition rag_triggers :: "string list" where
  "rag_triggers =
     [''explain'', ''summarize'', ''what'', ''where'', ''how'', ''list'', ''describe'',
      ''analysis'', ''insight'']"

text \<open>
  \<open>max(confidence, 0.75)\<close>: the first argument unless the second is greater; a
  non-numeric confidence raises \<open>TypeError\<close>.
\<close>

definition max_confidence :: "pyval \<Rightarrow> real \<Rightarrow> py_exception + pyval" where
  "max_confidence confidence t =
     (case num_of confidence of
        None \<Rightarrow> Inl (PyExc TypeError ''> not supported between these operands'')
      | Some c \<Rightarrow> Inr (if t > c then VFloat t else confidence))"

text \<open>\<open>confidence < 0.4\<close>\<close>

definition py_less :: "pyval \<Rightarrow> real \<Rightarrow> py_exception + bool" where
  "py_less confidence t =
     (case num_of confidence of
        None \<Rightarrow> Inl (PyExc TypeError ''< not supported between these operands'')
      | Some c \<Rightarrow> Inr (c < t))"

text \<open>
  The first block of \<open>_route_after_classification\<close>: the keyword override. It returns
  the state with the local variables \<open>intent\<close> and \<open>confidence\<close>.
\<close>

definition research_override ::
  "state \<Rightarrow> string \<Rightarrow> pyval \<Rightarrow> pyval \<Rightarrow> py_exception + (state \<times> pyval \<times> pyval)" where
  "research_override state query intent confidence =
     (let query_lower = lower query in
      if list_ex (\<lambda>keyword. contains query_lower keyword) research_keywords then
        (case max_confidence confidence 0.75 of
           Inl e \<Rightarrow> Inl e
         | Inr boosted \<Rightarrow>
             (case setitem (get_default state ''metadata'' (VDict [])) ''routing_override''
                     (VStr ''keyword_based_research'') of
                Inl e \<Rightarrow> Inl e
              | Inr metadata \<Rightarrow>
                  Inr (state(''intent'' \<mapsto> VStr (Intent_value RESEARCH),
                             ''intent_confidence'' \<mapsto> boosted,
                             ''metadata'' \<mapsto> metadata),
                       VStr (Intent_value RESEARCH), boosted)))
      else Inr (state, intent, confidence))"

text \<open>The second block: unknown intent or low confidence is routed by context.\<close>

definition route_low_confidence :: "state \<Rightarrow> string \<Rightarrow> py_exception + (state \<times> string)" where
  "route_low_confidence state query =
     (let uploaded_docs = get_default state ''uploaded_docs'' (VList []);
          workspace_docs = get_default state ''workspace_documents'' (VList []);
          has_docs = (truthy uploaded_docs \<or> truthy workspace_docs);
          query_lower = lower query;
          is_rag_request = list_ex (\<lambda>t. contains query_lower t) rag_triggers
      in
      if has_docs \<and> is_rag_request \<and> length query > 5 then
        (case setitem (get_default state ''metadata'' (VDict [])) ''routing_override''
                (VStr ''auto_rag_due_to_docs'') of
           Inl e \<Rightarrow> Inl e
         | Inr metadata \<Rightarrow>
             Inr (state(''intent'' \<mapsto> VStr (Intent_value RAG),
                        ''intent_confidence'' \<mapsto> VFloat 0.8,
                        ''metadata'' \<mapsto> metadata),
                  ''rag_agent''))
      else if has_docs \<and> length query > 10 then
        Inr (state(''intent'' \<mapsto> VStr (Intent_value RAG), ''intent_confidence'' \<mapsto> VFloat 0.55),
             ''rag_agent'')
      else
        Inr (state(''intent'' \<mapsto> VStr (Intent_value CHAT), ''intent_confidence'' \<mapsto> VFloat 0.6),
             ''fallback_handler''))"

text \<open>The last block: dispatch on the intent label.\<close>

definition route_by_intent :: "pyval \<Rightarrow> string" where
  "route_by_intent intent =
     (if intent = VStr (Intent_value RAG) then ''rag_agent''
      else if intent = VStr (Intent_value SQL) then ''sql_agent''
      else if intent = VStr (Intent_value CODE) then ''code_agent''
      else if intent = VStr (Intent_value RESEARCH) then ''research_agent''
      else if intent = VStr (Intent_value CHAT) then ''chat_agent''
      else ''fallback_handler'')"

text \<open>
  \<open>_route_after_classification\<close>. The function mutates the state and returns the name of
  the next node; the model returns both, or the exception that escapes. It creates a
  \<open>TenantConfigManager\<close> and reads \<open>tenant_id\<close>, and then uses neither.
\<close>

definition route_after_classification :: "state \<Rightarrow> py_exception + (state \<times> string)" where
  "route_after_classification state0 =
     (let state = ensure_intent (ensure_errors (ensure_metadata state0));
          manager = TenantConfigManager_new;
          intent = get_default state ''intent'' (VStr (Intent_value UNKNOWN));
          confidence = get_default state ''intent_confidence'' (VFloat 0);
          tenant_id = get_default state ''tenant_id'' (VStr ''default'');
          query = get_default state ''user_query'' (VStr '''')
      in
      case query of
        VStr q \<Rightarrow>
          (case research_override state q intent confidence of
             Inl e \<Rightarrow> Inl e
           | Inr (state, intent, confidence) \<Rightarrow>
               (case (if \<not> truthy intent \<or> intent = VStr (Intent_value UNKNOWN) then Inr True
                      else py_less confidence 0.4) of
                  Inl e \<Rightarrow> Inl e
                | Inr low \<Rightarrow>
                    if low then route_low_confidence state q
                    else Inr (state, route_by_intent intent)))
      | _ \<Rightarrow> Inl (PyExc AttributeError ''object has no attribute lower''))"

text \<open>The denial reason the graceful-fallback node reads: \<open>metadata.get("blocked_reason")\<close>.\<close>

definition blocked_reason :: "state \<Rightarrow> pyval option" where
  "blocked_reason state =
     (case state ''metadata'' of Some (VDict md) \<Rightarrow> dict_get md ''blocked_reason'' | _ \<Rightarrow> None)"

text \<open>
  The typing of the confidence on which the routing decision relies: a number when present
  (the classifier always stores a float).
\<close>

definition numeric_confidence :: "state \<Rightarrow> bool" where
  "numeric_confidence s =
     (case s ''intent_confidence'' of None \<Rightarrow> True | Some v \<Rightarrow> num_of v \<noteq> None)"

section \<open>agents/sql\_agent.py: SQLValidator\<close>

text \<open>
  \<open>str.upper()\<close> and \<open>str.strip()\<close> on ASCII, and \<open>s.count(c)\<close> for one character. The
  model covers ASCII text only: Python also counts the separators \<open>0x1C\<close> to \<open>0x1F\<close>,
  \<open>U+0085\<close>, \<open>U+00A0\<close> and further Unicode spaces as white space, and maps letters outside
  ASCII to upper case; on a text with such characters \<open>is_space\<close>, \<open>strip\<close> and \<open>upper\<close> are
  not the code's.
\<close>

definition upper_char :: "char \<Rightarrow> char" where
  "upper_char c =
     (case map_of (zip ''abcdefghijklmnopqrstuvwxyz'' ''ABCDEFGHIJKLMNOPQRSTUVWXYZ'') c of
        None \<Rightarrow> c | Some u \<Rightarrow> u)"

definition upper :: "string \<Rightarrow> string" where
  "upper s = map upper_char s"

definition is_space :: "char \<Rightarrow> bool" where
  "is_space c \<longleftrightarrow> c \<in> set [CHR '' '', CHR 0x09, CHR 0x0A, CHR 0x0B, CHR 0x0C, CHR 0x0D]"

definition strip :: "string \<Rightarrow> string" where
  "strip s = rev (dropWhile is_space (rev (dropWhile is_space s)))"

definition count_char :: "string \<Rightarrow> char \<Rightarrow> nat" where
  "count_char s c = length (filter (\<lambda>x. x = c) s)"

text \<open>
  The regular expressions of the validator use literals, \<open>\b\<close>, \<open>\s+\<close>, \<open>\s*\<close> and \<open>.*\<close> only.
  \<open>re.search(pattern, s, re.IGNORECASE)\<close> for such a pattern: a literal matches up to
  letter case, \<open>.\<close> matches every character but a newline, \<open>\b\<close> holds where exactly one
  of the two neighbouring characters is a word character. Again for ASCII text only: for
  Python a letter or digit outside ASCII is a word character too, and \<open>\s\<close> matches the
  white space named above.
\<close>

datatype re_item = Lit char | WordBoundary | Space1 | Space0 | AnyStar

definition is_word_char :: "char \<Rightarrow> bool" where
  "is_word_char c \<longleftrightarrow>
     c \<in> set ''abcdefghijklmnopqrstuvwxyzABCDEFGHIJKLMNOPQRSTUVWXYZ0123456789_''"

definition word_before :: "char option \<Rightarrow> bool" where
  "word_before prev = (case prev of None \<Rightarrow> False | Some c \<Rightarrow> is_word_char c)"

definition word_after :: "string \<Rightarrow> bool" where
  "word_after s = (case s of [] \<Rightarrow> False | c # _ \<Rightarrow> is_word_char c)"

fun re_match_here :: "re_item list \<Rightarrow> char option \<Rightarrow> string \<Rightarrow> bool" where
  "re_match_here [] prev s = True"
| "re_match_here (Lit p # r) prev [] = False"
| "re_match_here (Lit p # r) prev (c # cs) =
     (if lower_char c = lower_char p then re_match_here r (Some c) cs else False)"
| "re_match_here (WordBoundary # r) prev s =
     (if word_before prev \<noteq> word_after s then re_match_here r prev s else False)"
| "re_match_here (Space1 # r) prev [] = False"
| "re_match_here (Space1 # r) prev (c # cs) =
     (if is_space c then re_match_here (Space0 # r) (Some c) cs else False)"
| "re_match_here (Space0 # r) prev [] = re_match_here r prev []"
| "re_match_here (Space0 # r) prev (c # cs) =
     (if re_match_here r prev (c # cs) then True
      else if is_space c then re_match_here (Space0 # r) (Some c) cs else False)"
| "re_match_here (AnyStar # r) prev [] = re_match_here r prev []"
| "re_match_here (AnyStar # r) prev (c # cs) =
     (if re_match_here r prev (c # cs) then True
      else if c \<noteq> CHR 0x0A then re_match_here (AnyStar # r) (Some c) cs else False)"

fun re_search_from :: "re_item list \<Rightarrow> char option \<Rightarrow> string \<Rightarrow> bool" where
  "re_search_from p prev [] = re_match_here p prev []"
| "re_search_from p prev (c # cs) =
     (if re_match_here p prev (c # cs) then True else re_search_from p (Some c) cs)"

definition re_search :: "re_item list \<Rightarrow> string \<Rightarrow> bool" where
  "re_search p s = re_search_from p None s"

definition lits :: "string \<Rightarrow> re_item list" where
  "lits s = map Lit s"

definition DANGEROUS_PATTERNS :: "(re_item list \<times> string) list" where
  "DANGEROUS_PATTERNS =
     [([WordBoundary] @ lits ''DROP'' @ [Space1] @ lits ''TABLE'' @ [WordBoundary],
       ''DROP TABLE operations''),
      ([WordBoundary] @ lits ''DELETE'' @ [Space1] @ lits ''FROM'' @ [WordBoundary],
       ''DELETE operations''),
      ([WordBoundary] @ lits ''TRUNCATE'' @ [WordBoundary], ''TRUNCATE operations''),
      ([WordBoundary] @ lits ''ALTER'' @ [Space1] @ lits ''TABLE'' @ [WordBoundary],
       ''ALTER TABLE operations''),
      ([WordBoundary] @ lits ''CREATE'' @ [Space1] @ lits ''TABLE'' @ [WordBoundary],
       ''CREATE TABLE operations''),
      ([WordBoundary] @ lits ''INSERT'' @ [Space1] @ lits ''INTO'' @ [WordBoundary],
       ''INSERT operations''),
      ([WordBoundary] @ lits ''UPDATE'' @ [Space1, AnyStar, Space1] @ lits ''SET'' @ [WordBoundary],
       ''UPDATE operations''),
      (lits '';'' @ [Space0] @ lits ''DROP'', ''Multiple statements with DROP''),
      (lits '';'' @ [Space0] @ lits ''DELETE'', ''Multiple statements with DELETE''),
      (lits ''--'', ''SQL comments (potential injection)''),
      (lits ''/*'' @ [AnyStar] @ lits ''*/'', ''SQL block comments'')]"

definition SAFE_PATTERNS :: "re_item list list" where
  "SAFE_PATTERNS =
     [[WordBoundary] @ lits ''SELECT'' @ [WordBoundary],
      [WordBoundary] @ lits ''WITH'' @ [WordBoundary],
      [WordBoundary] @ lits ''FROM'' @ [WordBoundary],
      [WordBoundary] @ lits ''WHERE'' @ [WordBoundary],
      [WordBoundary] @ lits ''GROUP'' @ [Space1] @ lits ''BY'' @ [WordBoundary],
      [WordBoundary] @ lits ''ORDER'' @ [Space1] @ lits ''BY'' @ [WordBoundary],
      [WordBoundary] @ lits ''HAVING'' @ [WordBoundary],
      [WordBoundary] @ lits ''JOIN'' @ [WordBoundary],
      [WordBoundary] @ lits ''LIMIT'' @ [WordBoundary]]"

text \<open>
  \<open>sqlparse\<close> is an external library: \<open>sqlparse.parse(sql)\<close> is a parameter of the validator.
  It yields statements, each a list of top-level tokens with a token type (\<open>None\<close> for a
  group) and a text. \<open>token.ttype is Keyword\<close> holds for the token type \<open>Keyword\<close> itself, not
  for its subtypes such as \<open>Keyword.DML\<close>.
\<close>

datatype ttype = Keyword | Keyword_DML | Keyword_DDL | OtherType

record token =
  ttype :: "ttype option"
  tvalue :: string

type_synonym sqlparser = "string \<Rightarrow> py_exception + token list list"

record validation =
  v_is_safe :: bool
  v_risk_level :: string
  v_issues :: "string list"
  v_requires_approval :: bool

text \<open>The loop over \<open>DANGEROUS_PATTERNS\<close>; the accumulator is \<open>(issues, risk_level)\<close>.\<close>

fun pattern_pass ::
  "(re_item list \<times> string) list \<Rightarrow> string \<Rightarrow> string list \<times> string \<Rightarrow> string list \<times> string" where
  "pattern_pass [] sql_upper acc = acc"
| "pattern_pass ((pattern, description) # ps) sql_upper (issues, risk_level) =
     (if re_search pattern sql_upper
      then pattern_pass ps sql_upper (issues @ [''Potentially dangerous: '' @ description], ''high'')
      else pattern_pass ps sql_upper (issues, risk_level))"

definition dangerous_keywords :: "string list" where
  "dangerous_keywords =
     [''DELETE'', ''DROP'', ''UPDATE'', ''INSERT'', ''ALTER'', ''TRUNCATE'', ''CREATE'']"

text \<open>The first syntax-aware loop, over the tokens of one statement and over the statements.\<close>

fun ast_tokens :: "token list \<Rightarrow> string list \<times> string \<Rightarrow> string list \<times> string" where
  "ast_tokens [] acc = acc"
| "ast_tokens (t # ts) (issues, risk_level) =
     (if ttype t = Some Keyword \<and> upper (tvalue t) \<in> set dangerous_keywords
         \<and> (''Dangerous operation: '' @ upper (tvalue t)) \<notin> set issues
      then ast_tokens ts
             (issues @ [''Dangerous operation detected via AST: '' @ upper (tvalue t)], ''high'')
      else ast_tokens ts (issues, risk_level))"

fun ast_statements :: "token list list \<Rightarrow> string list \<times> string \<Rightarrow> string list \<times> string" where
  "ast_statements [] acc = acc"
| "ast_statements (statement # rest) acc = ast_statements rest (ast_tokens statement acc)"

text \<open>The second loop: some token of some statement is the keyword \<open>SELECT\<close>.\<close>

definition ast_has_select :: "token list list \<Rightarrow> bool" where
  "ast_has_select parsed =
     list_ex (\<lambda>statement.
        list_ex (\<lambda>t. ttype t = Some Keyword \<and> upper (tvalue t) = ''SELECT'') statement) parsed"

definition SQLValidator_validate :: "sqlparser \<Rightarrow> string \<Rightarrow> validation" where
  "SQLValidator_validate sqlparse sql =
     (let sql_upper = strip (upper sql);
          (issues, risk_level) = pattern_pass DANGEROUS_PATTERNS sql_upper ([], ''low'');
          (issues, risk_level) =
             (case sqlparse sql of
                Inr parsed \<Rightarrow> ast_statements parsed (issues, risk_level)
              | Inl e \<Rightarrow> (issues @ [''SQL parsing warning: '' @ exc_str e], ''medium''));
          has_safe_pattern = list_ex (\<lambda>pattern. re_search pattern sql_upper) SAFE_PATTERNS;
          has_safe_pattern =
             (case sqlparse sql of
                Inr parsed \<Rightarrow> has_safe_pattern \<or> ast_has_select parsed
              | Inl e \<Rightarrow> has_safe_pattern);
          (issues, risk_level) =
             (if \<not> has_safe_pattern \<and> issues = []
              then (issues @ [''Query doesn'' @ [CHR 0x27] @ ''t appear to be a SELECT query''],
                    ''medium'')
              else (issues, risk_level));
          (issues, risk_level) =
             (if count_char sql CHR '';'' > 1
              then (issues @ [''Multiple statements detected''], ''high'')
              else (issues, risk_level))
      in \<lparr> v_is_safe = (length issues = 0 \<and> has_safe_pattern),
           v_risk_level = risk_level,
           v_issues = issues,
           v_requires_approval = (risk_level \<in> set [''medium'', ''high'']) \<rparr>)"

section \<open>agents/sql\_agent.py: SQLAgent\<close>

text \<open>
  What the agent needs from outside: the router and its two backends, the prompt template
  (\<open>_get_schema_context\<close> and \<open>ChatPromptTemplate.format_messages\<close>, which read the state and
  may raise), the SQL parser, Python's \<open>str()\<close> for values that are not strings, and
  \<open>self.max_retries\<close>.
\<close>

record 'm sql_env =
  llm_router :: LLMRouter
  llm :: "'m backends"
  sql_generation_prompt :: "state \<Rightarrow> py_exception + 'm"
  sqlparse :: sqlparser
  py_str :: "pyval \<Rightarrow> string"
  self_max_retries :: nat

text \<open>The calls that leave the process: a model invocation, an execution of a query.\<close>

datatype effect = LLMCall backend | ExecuteSQL pyval

text \<open>A value inside an f-string.\<close>

definition fmt :: "(pyval \<Rightarrow> string) \<Rightarrow> pyval \<Rightarrow> string" where
  "fmt str v = (case v of VStr s \<Rightarrow> s | _ \<Rightarrow> str v)"

text \<open>
  \<open>re.sub(fence + r'\s*', '', s)\<close> for a literal, non-empty \<open>fence\<close>: every occurrence of the
  fence is removed together with the white space after it.
\<close>

function remove_fence :: "string \<Rightarrow> string \<Rightarrow> string" where
  "remove_fence fence [] = []"
| "remove_fence fence (c # cs) =
     (if fence \<noteq> [] \<and> startswith (c # cs) fence
      then remove_fence fence (dropWhile is_space (drop (length fence) (c # cs)))
      else c # remove_fence fence cs)"
  by pat_completeness auto
termination
proof (relation "measure (\<lambda>(fence, s). length s)")
  show "wf (measure (\<lambda>(fence, s). length s))" by simp
next
  fix fence :: string and c cs
  assume "fence \<noteq> [] \<and> startswith (c # cs) fence"
  then have "length (drop (length fence) (c # cs)) < length (c # cs)"
    by (cases fence) auto
  moreover have "length (dropWhile is_space (drop (length fence) (c # cs)))
                   \<le> length (drop (length fence) (c # cs))"
    by (rule length_dropWhile_le)
  ultimately show "((fence, dropWhile is_space (drop (length fence) (c # cs))), fence, c # cs)
                     \<in> measure (\<lambda>(fence, s). length s)"
    by simp
next
  fix fence :: string and c cs
  show "((fence, cs), fence, c # cs) \<in> measure (\<lambda>(fence, s). length s)" by simp
qed

definition state_of :: "state option \<Rightarrow> state \<Rightarrow> state" where
  "state_of st state = (case st of None \<Rightarrow> state | Some s \<Rightarrow> s)"

text \<open>
  \<open>generate_sql\<close>: the model calls made, the state (the router writes to it) and the
  cleaned query text or the exception raised.
\<close>

definition generate_sql ::
  "'m sql_env \<Rightarrow> state \<Rightarrow> effect list \<times> state \<times> (py_exception + string)" where
  "generate_sql env state =
     (case sql_generation_prompt env state of
        Inl e \<Rightarrow> ([], state, Inl e)
      | Inr msgs \<Rightarrow>
          (case LLMRouter_invoke (llm_router env) (llm env) msgs (Some state) of
             (calls, st, Inl e) \<Rightarrow> (map LLMCall calls, state_of st state, Inl e)
           | (calls, st, Inr resp) \<Rightarrow>
               (case (case content resp of None \<Rightarrow> VStr (resp_str resp) | Some c \<Rightarrow> c) of
                  VStr sql \<Rightarrow>
                    (map LLMCall calls, state_of st state,
                     Inr (strip (remove_fence [CHR 0x60, CHR 0x60, CHR 0x60]
                            (remove_fence ([CHR 0x60, CHR 0x60, CHR 0x60] @ ''sql'') sql))))
                | _ \<Rightarrow>
                    (map LLMCall calls, state_of st state,
                     Inl (PyExc TypeError ''expected string or bytes-like object'')))))"

text \<open>\<open>execute_sql\<close> is a mock: it never raises.\<close>

definition execute_sql :: "'m sql_env \<Rightarrow> state \<Rightarrow> pyval \<Rightarrow> string" where
  "execute_sql env state sql =
     (if \<not> truthy (get state ''db_connection'')
      then ''Error: No database connection configured.''
      else ''[Mock] Executed query: '' @ fmt (py_str env) sql @ [CHR 0x0A] @
           ''[In production, this would execute against the database]'')"

text \<open>\<open>state[k].append(x)\<close>: the key is there and holds a list, or the statement raises.\<close>

definition list_append :: "state \<Rightarrow> string \<Rightarrow> pyval \<Rightarrow> py_exception + state" where
  "list_append state k x =
     (case state k of
        None \<Rightarrow> Inl (PyExc KeyError k)
      | Some (VList xs) \<Rightarrow> Inr (state(k \<mapsto> VList (xs @ [x])))
      | Some _ \<Rightarrow> Inl (PyExc AttributeError ''object has no attribute append''))"

definition sql_fence :: "pyval \<Rightarrow> (pyval \<Rightarrow> string) \<Rightarrow> string" where
  "sql_fence sql str =
     [CHR 0x60, CHR 0x60, CHR 0x60] @ ''sql'' @ [CHR 0x0A] @ fmt str sql @ [CHR 0x0A] @
     [CHR 0x60, CHR 0x60, CHR 0x60]"

text \<open>The validation result as the dictionary stored in the state.\<close>

definition validation_dict :: "validation \<Rightarrow> pyval" where
  "validation_dict v =
     VDict [(''is_safe'', VBool (v_is_safe v)),
            (''risk_level'', VStr (v_risk_level v)),
            (''issues'', VList (map VStr (v_issues v))),
            (''requires_approval'', VBool (v_requires_approval v))]"

text \<open>
  Both execution paths end the same way: run the query, store result, status, answer and
  confidence, append the assistant message. \<open>approved\<close> tells the resumed path from the
  first-pass path.
\<close>

definition run_query ::
  "'m sql_env \<Rightarrow> state \<Rightarrow> pyval \<Rightarrow> bool \<Rightarrow> real \<Rightarrow> state \<times> effect list \<times> py_exception option" where
  "run_query env state sql approved confidence =
     (let state = state(''execution_status'' \<mapsto> VStr ''executing'');
          result = execute_sql env state sql;
          final_answer =
            (if approved then ''Query executed successfully (Approved):''
             else ''Query executed successfully:'') @
            [CHR 0x0A, CHR 0x0A] @ sql_fence sql (py_str env) @ [CHR 0x0A, CHR 0x0A] @
            ''Results:'' @ [CHR 0x0A] @ result;
          state = state(''execution_result'' \<mapsto> VStr result,
                        ''execution_status'' \<mapsto> VStr ''completed'',
                        ''final_answer'' \<mapsto> VStr final_answer,
                        ''confidence_score'' \<mapsto> VFloat confidence);
          message = VDict [(''role'', VStr ''assistant''),
                           (''content'', VStr final_answer),
                           (''metadata'',
                            VDict ([(''agent'', VStr ''sql''), (''sql'', sql)] @
                                   (if approved then [(''approved'', VBool True)] else [])))]
      in case list_append state ''messages'' message of
           Inl e \<Rightarrow> (state, [ExecuteSQL sql], Some e)
         | Inr state \<Rightarrow> (state, [ExecuteSQL sql], None))"

text \<open>
  The body of the \<open>try\<close> block of \<open>execute\<close>: the state (mutated in place, so it is kept
  when the block raises), the effects and the exception raised, if any.
\<close>

definition SQLAgent_try ::
  "'m sql_env \<Rightarrow> state \<Rightarrow> state \<times> effect list \<times> py_exception option" where
  "SQLAgent_try env state =
     (if truthy (get state ''approved'') \<and> truthy (get state ''generated_sql'')
      then run_query env state (get state ''generated_sql'') True 0.95
      else
        (case generate_sql env state of
           (calls, state, Inl e) \<Rightarrow> (state, calls, Some e)
         | (calls, state, Inr sql) \<Rightarrow>
             (let state = state(''generated_sql'' \<mapsto> VStr sql);
                  validation = SQLValidator_validate (sqlparse env) sql;
                  state = state(''sql_validation_result'' \<mapsto> validation_dict validation)
              in
              if v_requires_approval validation then
                (state(''approval_required'' \<mapsto> VBool True,
                       ''approval_reason'' \<mapsto>
                          VStr (''SQL validation issues: '' @ join '', '' (v_issues validation)),
                       ''risk_level'' \<mapsto> VStr (v_risk_level validation),
                       ''execution_status'' \<mapsto> VStr ''requires_approval''),
                 calls, None)
              else if truthy (get state ''approval_required'')
                      \<and> \<not> truthy (get_default state ''approved'' (VBool False)) then
                (state(''execution_status'' \<mapsto> VStr ''pending''), calls, None)
              else
                (case run_query env state (VStr sql) False
                        (if v_is_safe validation then 0.9 else 0.7) of
                   (state, effects, raised) \<Rightarrow> (state, calls @ effects, raised)))))"

text \<open>\<open>retry_count < n\<close> and \<open>retry_count + 1\<close> for a counter read from the state.\<close>

definition py_less_nat :: "pyval \<Rightarrow> nat \<Rightarrow> py_exception + bool" where
  "py_less_nat v n =
     (case num_of v of
        None \<Rightarrow> Inl (PyExc TypeError ''< not supported between these operands'')
      | Some r \<Rightarrow> Inr (r < real n))"

fun py_succ :: "pyval \<Rightarrow> py_exception + pyval" where
  "py_succ (VInt i) = Inr (VInt (i + 1))"
| "py_succ (VFloat r) = Inr (VFloat (r + 1))"
| "py_succ (VBool b) = Inr (VInt ((if b then 1 else 0) + 1))"
| "py_succ _ = Inl (PyExc TypeError ''unsupported operand type(s) for +'')"

text \<open>\<open>', '.join(xs)\<close> for a list read from the state: every item must be a string.\<close>

fun str_items :: "pyval list \<Rightarrow> string list option" where
  "str_items [] = Some []"
| "str_items (VStr s # xs) = map_option (\<lambda>ys. s # ys) (str_items xs)"
| "str_items (_ # xs) = None"

definition join_errors :: "pyval \<Rightarrow> py_exception + string" where
  "join_errors v =
     (case v of
        VList xs \<Rightarrow>
          (case str_items xs of
             None \<Rightarrow> Inl (PyExc TypeError ''sequence item: expected str instance'')
           | Some ss \<Rightarrow> Inr (join '', '' ss))
      | _ \<Rightarrow> Inl (PyExc TypeError ''can only join an iterable''))"

text \<open>
  The \<open>except\<close> block of \<open>execute\<close>. An exception raised here leaves \<open>execute\<close>.
\<close>

definition SQLAgent_except ::
  "'m sql_env \<Rightarrow> pyval \<Rightarrow> state \<Rightarrow> py_exception \<Rightarrow> state \<times> py_exception option" where
  "SQLAgent_except env retry_count state e =
     (let error_msg = exc_str e;
          state = ensure_errors state
      in case list_append state ''errors'' (VStr error_msg) of
           Inl e' \<Rightarrow> (state, Some e')
         | Inr state \<Rightarrow>
             (case py_less_nat retry_count (self_max_retries env) of
                Inl e' \<Rightarrow> (state, Some e')
              | Inr below \<Rightarrow>
                  if below then
                    (case py_succ retry_count of
                       Inl e' \<Rightarrow> (state, Some e')
                     | Inr n \<Rightarrow>
                         (state(''retry_count'' \<mapsto> n,
                                ''execution_status'' \<mapsto> VStr ''failed'',
                                ''should_continue'' \<mapsto> VBool True), None))
                  else
                    (let state = state(''execution_status'' \<mapsto> VStr ''failed'') in
                     case join_errors (get_default state ''errors'' (VList [])) of
                       Inl e' \<Rightarrow> (state, Some e')
                     | Inr errors \<Rightarrow>
                         (state(''final_answer'' \<mapsto>
                            VStr (''Failed to generate or execute SQL after '' @
                                  str_of_nat (self_max_retries env) @
                                  '' attempts. Errors: '' @ errors)), None))))"

text \<open>
  \<open>SQLAgent.execute\<close>: the state returned, the effects, and the exception that escapes
  (only the \<open>except\<close> block can let one out).
\<close>

definition SQLAgent_execute ::
  "'m sql_env \<Rightarrow> state \<Rightarrow> state \<times> effect list \<times> py_exception option" where
  "SQLAgent_execute env state0 =
     (let state = ensure_intent (ensure_errors (ensure_metadata (normalize_state state0)));
          retry_count = get_default state ''retry_count'' (VInt 0)
      in case SQLAgent_try env state of
           (state, effects, None) \<Rightarrow> (state, effects, None)
         | (state, effects, Some e) \<Rightarrow>
             (case SQLAgent_except env retry_count state e of
                (state, escaped) \<Rightarrow> (state, effects, escaped)))"

section \<open>orchestrator/graph.py: handlers, approval gate and retry handler\<close>

text \<open>
  The graph runtime (LangGraph) is external. The nodes are composed as the specification
  describes the graph: each node receives the state that the previous node returned, and a
  conditional edge reads that state.
\<close>

type_synonym agent_node = "state \<Rightarrow> state \<times> effect list \<times> py_exception option"

definition sql_node :: "'m sql_env \<Rightarrow> agent_node" where
  "sql_node env state = SQLAgent_execute env (normalize_state state)"

definition approval_gate_node :: "state \<Rightarrow> state" where
  "approval_gate_node state0 =
     (let state = normalize_state state0 in
      if truthy (get_default state ''approved'' (VBool False))
      then state(''execution_status'' \<mapsto> VStr ''approved'', ''should_continue'' \<mapsto> VBool True)
      else state(''execution_status'' \<mapsto> VStr ''requires_approval'',
                 ''requires_human_input'' \<mapsto> VBool True,
                 ''should_continue'' \<mapsto> VBool False))"

definition route_after_approval :: "state \<Rightarrow> string" where
  "route_after_approval state =
     (if truthy (get_default state ''approved'' (VBool False)) then
        (if get state ''intent'' = VStr ''sql'' then ''sql_agent''
         else if get state ''intent'' = VStr ''code'' then ''code_agent''
         else ''end'')
      else ''end'')"

text \<open>
  \<open>a < b\<close> for two counters read from the state (\<open>int\<close> fields of the \<open>TypedDict\<close>). Only
  numbers are modelled: for a number and a value of another type Python raises the
  \<open>TypeError\<close> given here, but it orders two strings or two lists, for which the
  \<open>TypeError\<close> of the model is not the code's result.
\<close>

definition py_less2 :: "pyval \<Rightarrow> pyval \<Rightarrow> py_exception + bool" where
  "py_less2 a b =
     (case (num_of a, num_of b) of
        (Some x, Some y) \<Rightarrow> Inr (x < y)
      | _ \<Rightarrow> Inl (PyExc TypeError ''< not supported between these operands''))"

definition retry_handler_node :: "state \<Rightarrow> py_exception + state" where
  "retry_handler_node state0 =
     (let state = normalize_state state0;
          retry_count = get_default state ''retry_count'' (VInt 0);
          max_retries = get_default state ''max_retries'' (VInt 3)
      in case py_less2 retry_count max_retries of
           Inl e \<Rightarrow> Inl e
         | Inr below \<Rightarrow>
             if below then Inr (state(''should_continue'' \<mapsto> VBool True))
             else Inr (state(''should_continue'' \<mapsto> VBool False,
                             ''execution_status'' \<mapsto> VStr ''failed'')))"

definition route_after_retry :: "state \<Rightarrow> string" where
  "route_after_retry state =
     (if truthy (get_default state ''should_continue'' (VBool False)) then
        (if get state ''intent'' = VStr ''sql'' then ''sql_agent''
         else if get state ''intent'' = VStr ''code'' then ''code_agent''
         else ''end'')
      else ''end'')"

definition route_after_agent :: "state \<Rightarrow> py_exception + string" where
  "route_after_agent state =
     (if truthy (get_default state ''approval_required'' (VBool False))
         \<and> \<not> truthy (get_default state ''approved'' (VBool False))
      then Inr ''approval_gate''
      else if truthy (get_default state ''should_continue'' (VBool False)) then
        (case py_less2 (get_default state ''retry_count'' (VInt 0))
                (get_default state ''max_retries'' (VInt 3)) of
           Inl e \<Rightarrow> Inl e
         | Inr below \<Rightarrow> Inr (if below then ''retry_handler'' else ''end''))
      else Inr ''end'')"

text \<open>
  The part of a run from a handler node to the edge into \<open>save_persistent_context\<close>
  (\<open>"end"\<close>). \<open>agents\<close> maps the name of a handler node to the node. The loop need not
  terminate, so it takes fuel, one unit for each handler invocation; \<open>None\<close> means that the
  fuel did not suffice. The result is the state handed to the save node, or the exception
  that left a node, and the effects in order.
\<close>

datatype outcome = Finished state | Crashed py_exception

definition after_effects ::
  "effect list \<Rightarrow> (outcome \<times> effect list) option \<Rightarrow> (outcome \<times> effect list) option" where
  "after_effects effects r = map_option (\<lambda>(out, later). (out, effects @ later)) r"

fun run_from_agent ::
  "nat \<Rightarrow> (string \<Rightarrow> agent_node) \<Rightarrow> string \<Rightarrow> state \<Rightarrow> (outcome \<times> effect list) option" where
  "run_from_agent 0 agents node state = None"
| "run_from_agent (Suc fuel) agents node state =
     (case agents node state of
        (state, effects, Some e) \<Rightarrow> Some (Crashed e, effects)
      | (state, effects, None) \<Rightarrow>
          (case route_after_agent state of
             Inl e \<Rightarrow> Some (Crashed e, effects)
           | Inr next \<Rightarrow>
               if next = ''approval_gate'' then
                 (let state = approval_gate_node state;
                      next = route_after_approval state
                  in if next = ''end'' then Some (Finished state, effects)
                     else after_effects effects (run_from_agent fuel agents next state))
               else if next = ''retry_handler'' then
                 (case retry_handler_node state of
                    Inl e \<Rightarrow> Some (Crashed e, effects)
                  | Inr state \<Rightarrow>
                      (let next = route_after_retry state
                       in if next = ''end'' then Some (Finished state, effects)
                          else after_effects effects (run_from_agent fuel agents next state)))
               else Some (Finished state, effects)))"

section \<open>States of a failing run\<close>

text \<open>
  The state after a failed attempt that is still under the agent's own retry bound: the
  error list, the retry counter, the status and the continue signal are written.
\<close>

definition failed_state :: "state \<Rightarrow> string list \<Rightarrow> nat \<Rightarrow> state" where
  "failed_state s errors retry_count =
     s(''errors'' \<mapsto> VList (map VStr errors),
       ''retry_count'' \<mapsto> VInt (int retry_count),
       ''execution_status'' \<mapsto> VStr ''failed'',
       ''should_continue'' \<mapsto> VBool True)"

text \<open>No approved artifact to resume from, and no pending approval that would open the gate.\<close>

definition generates :: "state \<Rightarrow> bool" where
  "generates s \<longleftrightarrow> \<not> (truthy (get s ''approved'') \<and> truthy (get s ''generated_sql''))"

definition gate_closed :: "state \<Rightarrow> bool" where
  "gate_closed s \<longleftrightarrow>
     \<not> (truthy (get_default s ''approval_required'' (VBool False))
        \<and> \<not> truthy (get_default s ''approved'' (VBool False)))"

definition is_llm_call :: "effect \<Rightarrow> bool" where
  "is_llm_call x = (case x of LLMCall _ \<Rightarrow> True | ExecuteSQL _ \<Rightarrow> False)"

text \<open>The router writes to three keys of the state only and keeps it normalized.\<close>

definition router_keys :: "string set" where
  "router_keys = {''model_used'', ''fallback_reason'', ''metadata''}"

definition router_touched :: "state \<Rightarrow> state \<Rightarrow> bool" where
  "router_touched s s' \<longleftrightarrow>
     (\<forall>k. k \<notin> router_keys \<longrightarrow> s' k = s k) \<and> (normal_form s \<longrightarrow> normal_form s')"

text \<open>
  The state in which the handler returns a flagged artifact, and that state after the
  approval gate has refused it.
\<close>

definition flagged_state :: "state \<Rightarrow> string \<Rightarrow> validation \<Rightarrow> state" where
  "flagged_state s sql v =
     s(''generated_sql'' \<mapsto> VStr sql,
       ''sql_validation_result'' \<mapsto> validation_dict v,
       ''approval_required'' \<mapsto> VBool True,
       ''approval_reason'' \<mapsto> VStr (''SQL validation issues: '' @ join '', '' (v_issues v)),
       ''risk_level'' \<mapsto> VStr (v_risk_level v),
       ''execution_status'' \<mapsto> VStr ''requires_approval'')"

definition gated_state :: "state \<Rightarrow> state" where
  "gated_state s =
     s(''execution_status'' \<mapsto> VStr ''requires_approval'',
       ''requires_human_input'' \<mapsto> VBool True,
       ''should_continue'' \<mapsto> VBool False)"

text \<open>The assistant message of an approved execution.\<close>

definition approved_message :: "string \<Rightarrow> string \<Rightarrow> pyval" where
  "approved_message final_answer sql =
     VDict [(''role'', VStr ''assistant''),
            (''content'', VStr final_answer),
            (''metadata'',
             VDict [(''agent'', VStr ''sql''), (''sql'', VStr sql), (''approved'', VBool True)])]"

text \<open>The answer and the state of an approved execution, as \<open>run_query\<close> writes them.\<close>

definition approved_answer :: "'m sql_env \<Rightarrow> state \<Rightarrow> string \<Rightarrow> string" where
  "approved_answer env s sql =
     ''Query executed successfully (Approved):'' @ [CHR 0x0A, CHR 0x0A] @
     sql_fence (VStr sql) (py_str env) @ [CHR 0x0A, CHR 0x0A] @ ''Results:'' @ [CHR 0x0A] @
     execute_sql env (s(''execution_status'' \<mapsto> VStr ''executing'')) (VStr sql)"

definition executed_state :: "'m sql_env \<Rightarrow> state \<Rightarrow> string \<Rightarrow> pyval list \<Rightarrow> state" where
  "executed_state env s sql ms =
     s(''execution_status'' \<mapsto> VStr ''executing'',
       ''execution_result'' \<mapsto>
          VStr (execute_sql env (s(''execution_status'' \<mapsto> VStr ''executing'')) (VStr sql)),
       ''execution_status'' \<mapsto> VStr ''completed'',
       ''final_answer'' \<mapsto> VStr (approved_answer env s sql),
       ''confidence_score'' \<mapsto> VFloat 0.95,
       ''messages'' \<mapsto> VList (ms @ [approved_message (approved_answer env s sql) sql]))"

section \<open>agents/intent\_router.py: IntentRouter.classify\<close>

text \<open>
  What the classifier needs from outside: the router and its backends, the prompt template
  (\<open>format_messages\<close> with the query, the history and the context string), the JSON parser
  of the response (\<open>JsonOutputParser.parse\<close>, which yields any JSON value or raises),
  \<open>float(s)\<close> for a string (\<open>None\<close> for \<open>ValueError\<close>) and \<open>str()\<close> for values that are not
  strings.
\<close>

record 'm intent_env =
  ir_llm_router :: LLMRouter
  ir_llm :: "'m backends"
  format_messages :: "pyval \<Rightarrow> string \<Rightarrow> string \<Rightarrow> py_exception + 'm"
  json_parse :: "string \<Rightarrow> py_exception + pyval"
  float_of_str :: "string \<Rightarrow> real option"
  ir_py_str :: "pyval \<Rightarrow> string"

definition dict_get_default :: "(string \<times> pyval) list \<Rightarrow> string \<Rightarrow> pyval \<Rightarrow> pyval" where
  "dict_get_default d k v = (case dict_get d k of None \<Rightarrow> v | Some x \<Rightarrow> x)"

text \<open>\<open>x[:200]\<close>: strings and lists can be sliced, anything else raises (\<open>None\<close>).\<close>

fun slice200 :: "pyval \<Rightarrow> pyval option" where
  "slice200 (VStr s) = Some (VStr (take 200 s))"
| "slice200 (VList xs) = Some (VList (take 200 xs))"
| "slice200 _ = None"

text \<open>One line of the history; \<open>None\<close> when formatting the message raises.\<close>

definition history_line :: "(pyval \<Rightarrow> string) \<Rightarrow> pyval \<Rightarrow> string option" where
  "history_line str msg =
     (case msg of
        VDict d \<Rightarrow>
          (case slice200 (dict_get_default d ''content'' (VStr '''')) of
             None \<Rightarrow> None
           | Some c \<Rightarrow> Some (fmt str (dict_get_default d ''role'' (VStr ''user'')) @ '': '' @ fmt str c))
      | _ \<Rightarrow> None)"

fun history_lines :: "(pyval \<Rightarrow> string) \<Rightarrow> pyval list \<Rightarrow> string list option" where
  "history_lines str [] = Some []"
| "history_lines str (msg # msgs) =
     (case history_line str msg of
        None \<Rightarrow> None
      | Some l \<Rightarrow> map_option (\<lambda>ls. l # ls) (history_lines str msgs))"

text \<open>
  The history block of \<open>classify\<close>, a \<open>try\<close> whose handler swallows every exception.
\<close>

definition history_context_of :: "(pyval \<Rightarrow> string) \<Rightarrow> state \<Rightarrow> string" where
  "history_context_of str state =
     (let messages = get_default state ''messages'' (VList []) in
      if truthy messages then
        (case messages of
           VList ms \<Rightarrow>
             (case history_lines str (drop (length ms - 5) ms) of
                None \<Rightarrow> ''No previousconversation''
              | Some ls \<Rightarrow>
                  (if join [CHR 0x0A] ls = [] then ''No previous conversation''
                   else join [CHR 0x0A] ls))
         | _ \<Rightarrow> ''No previousconversation'')
      else ''No previous conversation'')"

text \<open>\<open>len(x)\<close>\<close>

fun py_len :: "pyval \<Rightarrow> py_exception + nat" where
  "py_len (VStr s) = Inr (length s)"
| "py_len (VList xs) = Inr (length xs)"
| "py_len (VDict d) = Inr (length d)"
| "py_len _ = Inl (PyExc TypeError ''object has no len()'')"

definition context_info_of :: "pyval \<Rightarrow> pyval \<Rightarrow> py_exception + string" where
  "context_info_of uploaded_docs workspace_docs =
     (if truthy uploaded_docs \<or> truthy workspace_docs then
        (case py_len uploaded_docs of
           Inl e \<Rightarrow> Inl e
         | Inr a \<Rightarrow>
             (case py_len workspace_docs of
                Inl e \<Rightarrow> Inl e
              | Inr b \<Rightarrow>
                  Inr (''Documents available: '' @ str_of_nat (a + b) @ '' files uploaded'' @
                       '' | '' @ ''Research tool: DuckDuckGo search available'')))
      else Inr (''No documents uploaded'' @ '' | '' @
                ''Research tool: DuckDuckGo search available''))"

text \<open>
  Every degraded path: intent \<open>unknown\<close>, confidence 0, the reason in the metadata. The
  result is the state and the exception raised, if any.
\<close>

definition set_unknown :: "state \<Rightarrow> string \<Rightarrow> state \<times> py_exception option" where
  "set_unknown state reasoning =
     (let state = state(''intent'' \<mapsto> VStr (Intent_value UNKNOWN),
                        ''intent_confidence'' \<mapsto> VFloat 0)
      in case setitem (get_default state ''metadata'' (VDict [])) ''intent_reasoning''
                (VStr reasoning) of
           Inl e \<Rightarrow> (state, Some e)
         | Inr metadata \<Rightarrow> (state(''metadata'' \<mapsto> metadata), None))"

text \<open>
  \<open>float(x)\<close> under \<open>except (ValueError, TypeError)\<close>: \<open>None\<close> when it raises one of the two.
  Floats are modelled by reals, so the value is exact here: the rounding of a large integer
  and the \<open>OverflowError\<close> of a huge one (which that \<open>except\<close> does not catch) are outside
  the model.
\<close>

definition py_float :: "(string \<Rightarrow> real option) \<Rightarrow> pyval \<Rightarrow> real option" where
  "py_float of_str v =
     (case v of
        VFloat r \<Rightarrow> Some r
      | VInt i \<Rightarrow> Some (of_int i)
      | VBool b \<Rightarrow> Some (if b then 1 else 0)
      | VStr s \<Rightarrow> of_str s
      | _ \<Rightarrow> None)"

text \<open>
  The end of \<open>classify\<close>, from the parsed response on. \<open>parsed.get\<close> needs a dictionary, and
  \<open>intent not in valid_intents\<close> hashes the label: neither is inside a \<open>try\<close>.
\<close>

definition classify_parsed ::
  "'m intent_env \<Rightarrow> state \<Rightarrow> pyval \<Rightarrow> state \<times> py_exception option" where
  "classify_parsed env state parsed =
     (case parsed of
        VDict d \<Rightarrow>
          (let label = dict_get_default d ''intent'' VNone;
               intent = (if truthy label then label else VStr (Intent_value UNKNOWN));
               confidence =
                 (case py_float (float_of_str env) (dict_get_default d ''confidence'' (VFloat 0.5)) of
                    None \<Rightarrow> 0.5 | Some r \<Rightarrow> r);
               reasoning = fmt (ir_py_str env) (dict_get_default d ''reasoning'' (VStr ''''))
           in
           case intent of
             VList _ \<Rightarrow>
               (state, Some (PyExc TypeError
                               (''unhashable type: '' @ [CHR 0x27] @ ''list'' @ [CHR 0x27])))
           | VDict _ \<Rightarrow>
               (state, Some (PyExc TypeError
                               (''unhashable type: '' @ [CHR 0x27] @ ''dict'' @ [CHR 0x27])))
           | _ \<Rightarrow>
               (let valid = (case intent of VStr i \<Rightarrow> i \<in> set valid_intents | _ \<Rightarrow> False);
                    intent = (if valid then intent else VStr (Intent_value UNKNOWN));
                    confidence = (if valid then confidence else 0);
                    state = state(''intent'' \<mapsto> intent, ''intent_confidence'' \<mapsto> VFloat confidence)
                in case setitem (get_default state ''metadata'' (VDict [])) ''intent_reasoning''
                          (VStr reasoning) of
                     Inl e \<Rightarrow> (state, Some e)
                   | Inr metadata \<Rightarrow> (state(''metadata'' \<mapsto> metadata), None)))
      | _ \<Rightarrow> (state, Some (PyExc AttributeError ''object has no attribute get'')))"

text \<open>A handler that appends to the error list and then degrades to \<open>unknown\<close>.\<close>

definition record_failure :: "state \<Rightarrow> string \<Rightarrow> string \<Rightarrow> state \<times> py_exception option" where
  "record_failure state error reasoning =
     (case list_append state ''errors'' (VStr error) of
        Inl e \<Rightarrow> (state, Some e)
      | Inr state \<Rightarrow> set_unknown state reasoning)"

text \<open>
  \<open>IntentRouter.classify\<close>: the state (mutated in place) and the exception that leaves the
  method, if any.
\<close>

definition classify :: "'m intent_env \<Rightarrow> state \<Rightarrow> state \<times> py_exception option" where
  "classify env state0 =
     (let state = ensure_intent (ensure_errors (ensure_metadata state0));
          history_context = history_context_of (ir_py_str env) state;
          uploaded_docs = get_default state ''uploaded_docs'' (VList []);
          workspace_docs = get_default state ''workspace_documents'' (VList [])
      in
      case context_info_of uploaded_docs workspace_docs of
        Inl e \<Rightarrow> (state, Some e)
      | Inr context_info \<Rightarrow>
          (let query = get_default state ''user_query'' (VStr '''') in
           if \<not> truthy query then set_unknown state ''Empty query''
           else
             (case format_messages env query history_context context_info of
                Inl e \<Rightarrow>
                  record_failure state (''Prompt formatting error: '' @ exc_str e)
                    (''Prompt formatting failed: '' @ exc_str e)
              | Inr messages \<Rightarrow>
                  (case LLMRouter_invoke (ir_llm_router env) (ir_llm env) messages (Some state) of
                     (calls, st, Inl e) \<Rightarrow>
                       record_failure (state_of st state) (''LLM invocation error: '' @ exc_str e)
                         (''LLM invocation failed: '' @ exc_str e)
                   | (calls, st, Inr response) \<Rightarrow>
                       (case content response of
                          Some (VStr text) \<Rightarrow>
                            (case json_parse env text of
                               Inl e \<Rightarrow>
                                 set_unknown (state_of st state)
                                   (''Invalid JSON from intent classifier: '' @ exc_str e)
                             | Inr parsed \<Rightarrow> classify_parsed env (state_of st state) parsed)
                        | _ \<Rightarrow>
                            set_unknown (state_of st state) ''Failed to parse intent response'')))))"

section \<open>orchestrator/graph.py: the classify-intent node\<close>

text \<open>
  \<open>a == b\<close> is structural equality here: exact when one side is a string, which is what
  \<open>user_query\<close>, a role and a message content are.
\<close>

definition should_append_of :: "pyval \<Rightarrow> pyval \<Rightarrow> py_exception + bool" where
  "should_append_of messages current_query =
     (if truthy messages then
        (case messages of
           VList ms \<Rightarrow>
             (case last ms of
                VDict last_msg \<Rightarrow>
                  Inr (\<not> (dict_get_default last_msg ''role'' VNone = VStr ''user''
                          \<and> dict_get_default last_msg ''content'' VNone = current_query))
              | _ \<Rightarrow> Inl (PyExc AttributeError ''object has no attribute get''))
         | _ \<Rightarrow> Inl (PyExc AttributeError ''object has no attribute get''))
      else Inr True)"

definition user_message :: "(pyval \<Rightarrow> string) \<Rightarrow> pyval \<Rightarrow> pyval \<Rightarrow> pyval \<Rightarrow> pyval" where
  "user_message str current_query session_id turn =
     VDict [(''role'', VStr ''user''),
            (''content'', current_query),
            (''metadata'',
             VDict [(''turn'', turn),
                    (''message_id'', VStr (fmt str session_id @ ''-'' @ fmt str turn))])]"

definition append_user_message ::
  "(pyval \<Rightarrow> string) \<Rightarrow> state \<Rightarrow> pyval \<Rightarrow> py_exception + state" where
  "append_user_message str state current_query =
     (case py_succ (get_default state ''conversation_turn'' (VInt 0)) of
        Inl e \<Rightarrow> Inl e
      | Inr turn \<Rightarrow>
          (let state = state(''conversation_turn'' \<mapsto> turn) in
           list_append state ''messages''
             (user_message str current_query (get state ''session_id'') turn)))"

text \<open>
  \<open>_classify_intent_node\<close>: the state returned, or the exception that leaves the node. The
  subscript \<open>state["user_query"]\<close> follows \<open>normalize_state\<close>, so the key is there.
\<close>

definition classify_intent_node :: "'m intent_env \<Rightarrow> state \<Rightarrow> py_exception + state" where
  "classify_intent_node env state0 =
     (let state = ensure_intent (ensure_errors (ensure_metadata (normalize_state state0)));
          current_query = get state ''user_query'';
          messages = get_default state ''messages'' (VList [])
      in
      case should_append_of messages current_query of
        Inl e \<Rightarrow> Inl e
      | Inr should_append \<Rightarrow>
          (case (if should_append then append_user_message (ir_py_str env) state current_query
                 else Inr state) of
             Inl e \<Rightarrow> Inl e
           | Inr state \<Rightarrow>
               (case classify env state of
                  (state, None) \<Rightarrow> Inr state
                | (state, Some e) \<Rightarrow>
                    (case list_append state ''errors''
                            (VStr (''Intent classification error: '' @ exc_str e)) of
                       Inl e' \<Rightarrow> Inl e'
                     | Inr state \<Rightarrow>
                         Inr (state(''intent'' \<mapsto> VStr (Intent_value UNKNOWN),
                                    ''intent_confidence'' \<mapsto> VFloat 0))))))"

text \<open>A label of the closed intent set, and the double quote of a JSON text.\<close>

definition valid_label :: "state \<Rightarrow> bool" where
  "valid_label s = (case s ''intent'' of Some (VStr i) \<Rightarrow> i \<in> set valid_intents | _ \<Rightarrow> False)"

abbreviation dq :: string where
  "dq \<equiv> [CHR 0x22]"

section \<open>What the classify-intent node may change\<close>

text \<open>
  The condition under which the node appends nothing, in the words of its comment: the last
  message is a user message whose content is the current query.
\<close>

definition ends_with_user_message :: "pyval list \<Rightarrow> string \<Rightarrow> bool" where
  "ends_with_user_message ms q =
     (if ms = [] then False
      else (case last ms of
              VDict d \<Rightarrow> dict_get d ''role'' = Some (VStr ''user'')
                         \<and> dict_get d ''content'' = Some (VStr q)
            | _ \<Rightarrow> False))"

text \<open>
  The keys written by \<open>IntentRouter.classify\<close>, by the router it calls and by the node's
  exception handler; a state related to another by \<open>classifier_touched\<close> differs from it on
  these keys only, and is normalized if the other is.
\<close>

definition classifier_keys :: "string set" where
  "classifier_keys =
     {''intent'', ''intent_confidence'', ''metadata'', ''errors'', ''model_used'',
      ''fallback_reason''}"

definition classifier_touched :: "state \<Rightarrow> state \<Rightarrow> bool" where
  "classifier_touched s s' \<longleftrightarrow>
     (\<forall>k. k \<notin> classifier_keys \<longrightarrow> s' k = s k) \<and> (normal_form s \<longrightarrow> normal_form s')"

section \<open>agents/intent\_router.py: the prompt of the classifier\<close>

text \<open>
  \<open>IntentRouter.__init__\<close> builds \<open>self.prompt\<close> from two message templates, written here as
  they are in the source. They are format strings: \<open>format_messages\<close> formats the system
  template and then the human template with \<open>str.format\<close> and the keyword arguments of the
  call.
\<close>

abbreviation nl :: string where
  "nl \<equiv> [CHR 0x0A]"

abbreviation sq :: string where
  "sq \<equiv> [CHR 0x27]"

definition system_template :: string where
  "system_template =
      ''You are an intent classification system for an Enterprise AI Orchestrator.'' @ nl @
      [] @ nl @
      ''Classify the user query into one of these intents:'' @ nl @
      ''- '' @ dq @ ''rag'' @ dq @ '': Questions about documents, knowledge base queries, document search'' @ nl @
      ''- '' @ dq @ ''sql'' @ dq @ '': Database queries, data analysis requests, SQL generation needs'' @ nl @
      ''- '' @ dq @ ''code'' @ dq @ '': Code execution requests, data processing scripts, computational tasks'' @ nl @
      ''- '' @ dq @ ''research'' @ dq @ '': Web research, current information lookup, external data gathering'' @ nl @
      ''- '' @ dq @ ''chat'' @ dq @ '': General conversation, clarifications, follow-up questions'' @ nl @
      [] @ nl @
      ''Context: {context_info}'' @ nl @
      [] @ nl @
      ''Respond ONLY with valid JSON:'' @ nl @
      ''{'' @ dq @ ''intent'' @ dq @ '': '' @ dq @ ''<intent>'' @ dq @ '', '' @ dq @ ''confidence'' @ dq @ '': <0-1>, '' @ dq @ ''reasoning'' @ dq @ '': '' @ dq @ ''<short explanation>'' @ dq @ ''}''"

definition human_template :: string where
  "human_template =
      ''Query: {query}'' @ nl @
      ''Conversation history:'' @ nl @
      ''{history}''"

text \<open>
  The replacement fields of a format string, as \<open>str.format\<close> finds them from left to
  right: \<open>{{\<close> and \<open>}}\<close> are literal braces, any other \<open>{\<close> opens a field, whose name ends at
  \<open>}\<close>, at \<open>:\<close> (a format specification follows, in which braces nest) or at \<open>!\<close> (a
  conversion follows); \<open>[\<close> in a name reaches to the next \<open>]\<close>. The result lists the field
  names in order and ends with the \<open>ValueError\<close> of a malformed string, if there is one.
\<close>

datatype fmt_mode =
    In_text
  | In_name string
  | In_index string
  | At_conversion string
  | After_conversion string
  | In_spec string nat

fun replacement_fields :: "fmt_mode \<Rightarrow> string \<Rightarrow> (py_exception + string) list" where
  "replacement_fields In_text [] = []"
| "replacement_fields In_text (c # cs) =
     (if c = CHR ''{'' then
        (case cs of
           [] \<Rightarrow>
             [Inl (PyExc ValueError (''Single '' @ sq @ ''{'' @ sq @ '' encountered in format string''))]
         | d # ds \<Rightarrow>
             if d = CHR ''{'' then replacement_fields In_text ds
             else replacement_fields (In_name []) cs)
      else if c = CHR ''}'' then
        (case cs of
           [] \<Rightarrow>
             [Inl (PyExc ValueError (''Single '' @ sq @ ''}'' @ sq @ '' encountered in format string''))]
         | d # ds \<Rightarrow>
             if d = CHR ''}'' then replacement_fields In_text ds
             else [Inl (PyExc ValueError
                          (''Single '' @ sq @ ''}'' @ sq @ '' encountered in format string''))])
      else replacement_fields In_text cs)"
| "replacement_fields (In_name name) [] =
     [Inl (PyExc ValueError (''expected '' @ sq @ ''}'' @ sq @ '' before end of string''))]"
| "replacement_fields (In_name name) (c # cs) =
     (if c = CHR ''{'' then
        [Inl (PyExc ValueError (''unexpected '' @ sq @ ''{'' @ sq @ '' in field name''))]
      else if c = CHR ''['' then replacement_fields (In_index (name @ [c])) cs
      else if c = CHR ''}'' then Inr name # replacement_fields In_text cs
      else if c = CHR '':'' then replacement_fields (In_spec name 1) cs
      else if c = CHR ''!'' then replacement_fields (At_conversion name) cs
      else replacement_fields (In_name (name @ [c])) cs)"
| "replacement_fields (In_index name) [] =
     [Inl (PyExc ValueError (''expected '' @ sq @ ''}'' @ sq @ '' before end of string''))]"
| "replacement_fields (In_index name) (c # cs) =
     (if c = CHR '']'' then replacement_fields (In_name (name @ [c])) cs
      else replacement_fields (In_index (name @ [c])) cs)"
| "replacement_fields (At_conversion name) [] =
     [Inl (PyExc ValueError ''end of string while looking for conversion specifier'')]"
| "replacement_fields (At_conversion name) (c # cs) =
     replacement_fields (After_conversion name) cs"
| "replacement_fields (After_conversion name) [] =
     [Inl (PyExc ValueError (''unmatched '' @ sq @ ''{'' @ sq @ '' in format spec''))]"
| "replacement_fields (After_conversion name) (c # cs) =
     (if c = CHR ''}'' then Inr name # replacement_fields In_text cs
      else if c = CHR '':'' then replacement_fields (In_spec name 1) cs
      else [Inl (PyExc ValueError
                   (''expected '' @ sq @ '':'' @ sq @ '' after conversion specifier''))])"
| "replacement_fields (In_spec name n) [] =
     [Inl (PyExc ValueError (''unmatched '' @ sq @ ''{'' @ sq @ '' in format spec''))]"
| "replacement_fields (In_spec name n) (c # cs) =
     (if c = CHR ''{'' then replacement_fields (In_spec name (Suc n)) cs
      else if c = CHR ''}'' then
        (if n = 1 then Inr name # replacement_fields In_text cs
         else replacement_fields (In_spec name (n - 1)) cs)
      else replacement_fields (In_spec name n) cs)"

text \<open>
  The first exception of \<open>str.format\<close> with the keyword arguments \<open>kwargs\<close> and no positional
  argument: a malformed string, a field whose name (up to the first \<open>.\<close> or \<open>[\<close>) is empty
  or a number (\<open>IndexError\<close>), or a name that is no keyword argument (\<open>KeyError\<close>, whose text
  is the \<open>repr\<close> of the name, written here for a name without apostrophe or backslash).
  What is done with the value of a supplied name is not part of this function.
\<close>

definition is_digit :: "char \<Rightarrow> bool" where
  "is_digit c \<longleftrightarrow> c \<in> set ''0123456789''"

fun first_error :: "string list \<Rightarrow> (py_exception + string) list \<Rightarrow> py_exception option" where
  "first_error kwargs [] = None"
| "first_error kwargs (Inl e # rest) = Some e"
| "first_error kwargs (Inr field # rest) =
     (let key = takeWhile (\<lambda>c. c \<noteq> CHR ''.'' \<and> c \<noteq> CHR ''['') field in
      if key = [] then
        Some (PyExc OtherException ''Replacement index 0 out of range for positional args tuple'')
      else if list_all is_digit key then
        Some (PyExc OtherException
                (''Replacement index '' @ key @ '' out of range for positional args tuple''))
      else if key \<in> set kwargs then first_error kwargs rest
      else Some (PyExc KeyError (sq @ key @ sq)))"

text \<open>
  \<open>self.prompt.format_messages(query=..., history=..., context_info=...)\<close>. When no field
  raises, the substitution of the three values and the construction of the messages are
  the library's (\<open>substitute\<close>, which may raise as well).
\<close>

definition IntentRouter_format_messages ::
  "(pyval \<Rightarrow> string \<Rightarrow> string \<Rightarrow> py_exception + 'm) \<Rightarrow> pyval \<Rightarrow> string \<Rightarrow> string
     \<Rightarrow> py_exception + 'm" where
  "IntentRouter_format_messages substitute query history context_info =
     (case first_error [''query'', ''history'', ''context_info'']
             (replacement_fields In_text system_template @
              replacement_fields In_text human_template) of
        Some e \<Rightarrow> Inl e
      | None \<Rightarrow> substitute query history context_info)"

section \<open>storage/sqlite\_store.py: chat messages and documents\<close>

text \<open>
  The SQLite file is modelled by the two tables the context nodes use. A table is the list of
  its rows in the order of the \<open>ts_utc\<close> column: a new row is stamped with the current time,
  so it goes to the end (rows with equal stamps are taken in insertion order). Identifiers,
  paths and stamps are strings, as the \<open>TEXT\<close> columns declare.
\<close>

record chat_row =
  c_user_id :: string
  c_workspace_id :: string
  c_session_id :: string
  c_role :: string
  c_content :: string
  c_ts_utc :: string

record doc_row =
  d_user_id :: string
  d_workspace_id :: string
  d_doc_id :: string
  d_file_path :: string
  d_vector_index_path :: string
  d_ts_utc :: string

record database =
  chat_messages :: "chat_row list"
  user_documents :: "doc_row list"

text \<open>
  \<open>load_chat_messages\<close>: the newest \<open>limit\<close> rows of the session (\<open>ORDER BY ts_utc DESC
  LIMIT ?\<close>), reversed into ascending order. The dictionary built from a row is \<open>chat_dict\<close>.
\<close>

definition load_chat_messages ::
  "database \<Rightarrow> string \<Rightarrow> string \<Rightarrow> string \<Rightarrow> nat \<Rightarrow> chat_row list" where
  "load_chat_messages db user_id workspace_id session_id limit =
     (let rows = filter (\<lambda>r. c_user_id r = user_id \<and> c_workspace_id r = workspace_id
                               \<and> c_session_id r = session_id) (chat_messages db);
          rows = take limit (rev rows)
      in rev rows)"

definition chat_dict :: "chat_row \<Rightarrow> pyval" where
  "chat_dict r =
     VDict [(''role'', VStr (c_role r)), (''content'', VStr (c_content r)),
            (''timestamp'', VStr (c_ts_utc r))]"

text \<open>
  \<open>upsert_document\<close>: \<open>INSERT ... ON CONFLICT(user_id, workspace_id, doc_id) DO UPDATE\<close>. A
  row with the same primary key keeps its place and its stamp and gets the new path and
  index path; otherwise a new row, stamped \<open>now\<close>, is added.
\<close>

definition same_key :: "string \<Rightarrow> string \<Rightarrow> string \<Rightarrow> doc_row \<Rightarrow> bool" where
  "same_key user_id workspace_id doc_id r \<longleftrightarrow>
     d_user_id r = user_id \<and> d_workspace_id r = workspace_id \<and> d_doc_id r = doc_id"

definition upsert_document ::
  "string \<Rightarrow> database \<Rightarrow> string \<Rightarrow> string \<Rightarrow> string \<Rightarrow> string \<Rightarrow> string \<Rightarrow> database" where
  "upsert_document now db user_id workspace_id doc_id file_path vector_index_path =
     (if list_ex (same_key user_id workspace_id doc_id) (user_documents db) then
        db\<lparr>user_documents :=
             map (\<lambda>r. if same_key user_id workspace_id doc_id r
                       then r\<lparr>d_file_path := file_path,
                              d_vector_index_path := vector_index_path\<rparr>
                       else r)
                 (user_documents db)\<rparr>
      else
        db\<lparr>user_documents :=
             user_documents db @
             [\<lparr>d_user_id = user_id, d_workspace_id = workspace_id, d_doc_id = doc_id,
               d_file_path = file_path, d_vector_index_path = vector_index_path,
               d_ts_utc = now\<rparr>]\<rparr>)"

text \<open>
  \<open>list_workspace_documents\<close>: the rows of the workspace and the index path of the last one
  (\<open>None\<close> without rows). The dictionary built from a row is \<open>doc_dict\<close>.
\<close>

definition list_workspace_documents ::
  "database \<Rightarrow> string \<Rightarrow> string \<Rightarrow> doc_row list \<times> pyval" where
  "list_workspace_documents db user_id workspace_id =
     (let docs = filter (\<lambda>r. d_user_id r = user_id \<and> d_workspace_id r = workspace_id)
                   (user_documents db);
          index_path = (if docs \<noteq> [] then VStr (d_vector_index_path (last docs)) else VNone)
      in (docs, index_path))"

definition doc_dict :: "doc_row \<Rightarrow> pyval" where
  "doc_dict r =
     VDict [(''doc_id'', VStr (d_doc_id r)), (''file_path'', VStr (d_file_path r)),
            (''vector_index_path'', VStr (d_vector_index_path r)),
            (''timestamp'', VStr (d_ts_utc r))]"

section \<open>orchestrator/graph.py: the context-load node\<close>

text \<open>
  What the node takes from the operating system and the standard library:
  \<open>os.path.abspath\<close> and \<open>os.path.normpath\<close> (for the current working directory),
  \<open>os.path.join\<close>, the first 32 hexadecimal digits of the SHA-256 of a string, a fresh
  \<open>str(uuid.uuid4())\<close> and the current time of the database.
\<close>

record os_env =
  abspath :: "string \<Rightarrow> string"
  normpath :: "string \<Rightarrow> string"
  path_join :: "string list \<Rightarrow> string"
  sha256_hex32 :: "string \<Rightarrow> string"
  uuid4 :: string
  utc_now :: string

text \<open>\<open>os.path.normpath(os.path.abspath(p))\<close>\<close>

definition normalized_path :: "os_env \<Rightarrow> string \<Rightarrow> string" where
  "normalized_path env p = normpath env (abspath env p)"

text \<open>The loop over the persisted history: one message per row, appended in place.\<close>

definition persisted_message :: "chat_row \<Rightarrow> pyval" where
  "persisted_message m =
     VDict [(''role'', VStr (c_role m)), (''content'', VStr (c_content m)),
            (''metadata'', VDict [(''persisted'', VBool True)])]"

fun append_all :: "state \<Rightarrow> string \<Rightarrow> pyval list \<Rightarrow> py_exception + state" where
  "append_all state k [] = Inr state"
| "append_all state k (x # xs) =
     (case list_append state k x of
        Inl e \<Rightarrow> Inl e
      | Inr state \<Rightarrow> append_all state k xs)"

text \<open>
  The set \<open>existing_paths\<close>: the normalized path of every listed document that has a
  non-empty path.
\<close>

definition existing_paths :: "os_env \<Rightarrow> doc_row list \<Rightarrow> string list" where
  "existing_paths env docs =
     map (\<lambda>d. normalized_path env (d_file_path d)) (filter (\<lambda>d. d_file_path d \<noteq> []) docs)"

text \<open>\<open>index_path or os.path.join("workspaces", user_id, ws_id, "faiss_index")\<close>\<close>

definition base_index_path_of :: "os_env \<Rightarrow> pyval \<Rightarrow> string \<Rightarrow> string \<Rightarrow> string" where
  "base_index_path_of env index_path user_id workspace_id =
     (case index_path of
        VStr i \<Rightarrow>
          if i \<noteq> [] then i
          else path_join env [''workspaces'', user_id, workspace_id, ''faiss_index'']
      | _ \<Rightarrow> path_join env [''workspaces'', user_id, workspace_id, ''faiss_index''])"

text \<open>
  The loop \<open>for p in incoming_paths\<close>: the database after the loop (every \<open>upsert_document\<close>
  is committed at once, also when a later item raises) and the list \<open>truly_new_paths\<close>, or
  the \<open>TypeError\<close> of \<open>os.path.abspath\<close> for an item that is not a path. The set
  \<open>existing_paths\<close> is not extended inside the loop.
\<close>

fun register_paths ::
  "os_env \<Rightarrow> string \<Rightarrow> string \<Rightarrow> string list \<Rightarrow> string \<Rightarrow> pyval list \<Rightarrow> database \<Rightarrow> pyval list
     \<Rightarrow> database \<times> (py_exception + pyval list)" where
  "register_paths env user_id ws_id existing base_index_path [] db truly_new_paths =
     (db, Inr truly_new_paths)"
| "register_paths env user_id ws_id existing base_index_path (p # ps) db truly_new_paths =
     (case p of
        VStr path \<Rightarrow>
          (let abs_p = normalized_path env path in
           if abs_p \<notin> set existing then
             (let truly_new_paths = truly_new_paths @ [p];
                  doc_id = sha256_hex32 env (user_id @ ''|'' @ ws_id @ ''|'' @ abs_p);
                  db = upsert_document (utc_now env) db user_id ws_id doc_id abs_p base_index_path
              in register_paths env user_id ws_id existing base_index_path ps db truly_new_paths)
           else register_paths env user_id ws_id existing base_index_path ps db truly_new_paths)
      | _ \<Rightarrow> (db, Inl (PyExc TypeError ''expected str, bytes or os.PathLike object'')))"

text \<open>The three assignments that publish the workspace's documents in the state.\<close>

definition set_workspace_view :: "state \<Rightarrow> doc_row list \<times> pyval \<Rightarrow> state" where
  "set_workspace_view state listing =
     (case listing of
        (docs, index_path) \<Rightarrow>
          state(''workspace_documents'' \<mapsto> VList (map doc_dict docs),
                ''uploaded_doc_ids'' \<mapsto> VList (map (\<lambda>d. VStr (d_doc_id d)) docs),
                ''vector_index_path'' \<mapsto> index_path))"

text \<open>
  The second half of \<open>_load_persistent_context_node\<close>, from the listing of the workspace's
  documents on. After \<open>normalize_state\<close> the value of \<open>uploaded_docs\<close> is a list (lemma
  \<open>normalize_state_uploaded_docs\<close>); a value that is not one is not modelled (\<open>None\<close>).
\<close>

definition register_uploads ::
  "os_env \<Rightarrow> database \<Rightarrow> string \<Rightarrow> string \<Rightarrow> state
     \<Rightarrow> (database \<times> (py_exception + state)) option" where
  "register_uploads env db user_id ws_id state =
     (let (docs, index_path) = list_workspace_documents db user_id ws_id;
          state = set_workspace_view state (docs, index_path)
      in case get_default state ''uploaded_docs'' (VList []) of
           VList incoming_paths \<Rightarrow>
             if incoming_paths \<noteq> [] then
               (let existing = existing_paths env docs;
                    base_index_path = base_index_path_of env index_path user_id ws_id
                in case register_paths env user_id ws_id existing base_index_path
                          incoming_paths db [] of
                     (db, Inl e) \<Rightarrow> Some (db, Inl e)
                   | (db, Inr truly_new_paths) \<Rightarrow>
                       (let state =
                              (if truly_new_paths \<noteq> []
                               then set_workspace_view state
                                      (list_workspace_documents db user_id ws_id)
                               else state)
                        in Some (db, Inr (state(''uploaded_docs'' \<mapsto> VList truly_new_paths)))))
             else Some (db, Inr (state(''uploaded_docs'' \<mapsto> VList [])))
         | _ \<Rightarrow> None)"

text \<open>
  \<open>_load_persistent_context_node\<close>: the database and the state returned, or the exception
  that leaves the node. The storage layer is modelled for string identifiers; for a user,
  workspace or session identifier that is not a string the model gives no result (\<open>None\<close>).
\<close>

definition load_persistent_context_node ::
  "os_env \<Rightarrow> database \<Rightarrow> state \<Rightarrow> (database \<times> (py_exception + state)) option" where
  "load_persistent_context_node env db state0 =
     (let state = normalize_state state0;
          ws_id = (if truthy (get state ''workspace_id'') then get state ''workspace_id''
                   else VStr ''default'');
          state = state(''workspace_id'' \<mapsto> ws_id);
          state = (if \<not> truthy (get state ''session_id'')
                   then state(''session_id'' \<mapsto> VStr (uuid4 env)) else state)
      in case (get state ''user_id'', ws_id, get state ''session_id'') of
           (VStr user_id, VStr workspace_id, VStr session_id) \<Rightarrow>
             (let history = load_chat_messages db user_id workspace_id session_id 50;
                  state = state(''chat_history'' \<mapsto> VList (map chat_dict history));
                  state = (if \<not> truthy (get state ''messages'')
                           then state(''messages'' \<mapsto> VList []) else state)
              in case append_all state ''messages'' (map persisted_message history) of
                   Inl e \<Rightarrow> Some (db, Inl e)
                 | Inr state \<Rightarrow>
                     (case py_len (get state ''messages'') of
                        Inl e \<Rightarrow> Some (db, Inl e)
                      | Inr n \<Rightarrow>
                          register_uploads env db user_id workspace_id
                            (state(''memory_loaded_count'' \<mapsto> VInt (int n)))))
         | _ \<Rightarrow> None)"

section \<open>Properties of normalize\_state\<close>

text \<open>Each step of \<open>normalize_state\<close>, read at one key.\<close>

lemma absent_setdefault [simp]:
  "(setdefault d k' v k = None) \<longleftrightarrow> (k \<noteq> k' \<and> d k = None)"
  by (auto simp: setdefault_def)

lemma absent_reset_unless_list [simp]:
  "(reset_unless_list d k' k = None) \<longleftrightarrow> (k \<noteq> k' \<and> d k = None)"
  by (auto simp: reset_unless_list_def subscript_is_list_def split: option.splits)

lemma absent_reset_unless_dict [simp]:
  "(reset_unless_dict d k' k = None) \<longleftrightarrow> (k \<noteq> k' \<and> d k = None)"
  by (auto simp: reset_unless_dict_def subscript_is_dict_def split: option.splits)

lemma absent_set_is_guest [simp]:
  "(set_is_guest d k = None) \<longleftrightarrow> (k \<noteq> ''is_guest'' \<and> d k = None)"
  by (auto simp: set_is_guest_def)

lemma is_list_setdefault [simp]:
  "subscript_is_list (setdefault d k' v) k \<longleftrightarrow>
     (if k = k' \<and> d k = None then is_list v else subscript_is_list d k)"
  by (auto simp: setdefault_def subscript_is_list_def)

lemma is_list_reset_unless_list [simp]:
  "subscript_is_list (reset_unless_list d k') k \<longleftrightarrow> (k = k' \<or> subscript_is_list d k)"
  by (auto simp: reset_unless_list_def subscript_is_list_def)

lemma is_list_reset_unless_dict [simp]:
  "subscript_is_list (reset_unless_dict d k') k \<longleftrightarrow> (k \<noteq> k' \<and> subscript_is_list d k)"
  by (cases "d k'"; cases "the (d k')")
     (auto simp: reset_unless_dict_def subscript_is_list_def subscript_is_dict_def)

lemma is_list_set_is_guest [simp]:
  "k \<noteq> ''is_guest'' \<Longrightarrow> subscript_is_list (set_is_guest d) k \<longleftrightarrow> subscript_is_list d k"
  by (auto simp: set_is_guest_def subscript_is_list_def)

lemma is_dict_setdefault [simp]:
  "subscript_is_dict (setdefault d k' v) k \<longleftrightarrow>
     (if k = k' \<and> d k = None then is_dict v else subscript_is_dict d k)"
  by (auto simp: setdefault_def subscript_is_dict_def)

lemma is_dict_reset_unless_dict [simp]:
  "subscript_is_dict (reset_unless_dict d k') k \<longleftrightarrow> (k = k' \<or> subscript_is_dict d k)"
  by (auto simp: reset_unless_dict_def subscript_is_dict_def)

lemma is_dict_reset_unless_list [simp]:
  "subscript_is_dict (reset_unless_list d k') k \<longleftrightarrow> (k \<noteq> k' \<and> subscript_is_dict d k)"
  by (cases "d k'"; cases "the (d k')")
     (auto simp: reset_unless_list_def subscript_is_list_def subscript_is_dict_def)

lemma is_dict_set_is_guest [simp]:
  "k \<noteq> ''is_guest'' \<Longrightarrow> subscript_is_dict (set_is_guest d) k \<longleftrightarrow> subscript_is_dict d k"
  by (auto simp: set_is_guest_def subscript_is_dict_def)

text \<open>Every step leaves a state alone that already has what the step installs.\<close>

lemma setdefault_present_id: "d k \<noteq> None \<Longrightarrow> setdefault d k v = d"
  by (auto simp: setdefault_def)

lemma reset_unless_list_id: "subscript_is_list d k \<Longrightarrow> reset_unless_list d k = d"
  by (simp add: reset_unless_list_def)

lemma reset_unless_dict_id: "subscript_is_dict d k \<Longrightarrow> reset_unless_dict d k = d"
  by (simp add: reset_unless_dict_def)

lemma set_is_guest_id: "d ''is_guest'' \<noteq> None \<Longrightarrow> set_is_guest d = d"
  by (auto simp: set_is_guest_def get_default_def fun_eq_iff)

lemma normalize_state_present: "list_all (\<lambda>k. normalize_state s k \<noteq> None) state_keys"
  unfolding normalize_state_def Let_def state_keys_def by simp

lemma normalize_state_lists:
  "list_all (subscript_is_list (normalize_state s)) checked_list_keys"
  unfolding normalize_state_def Let_def checked_list_keys_def by simp

lemma normalize_state_dicts: "list_all (subscript_is_dict (normalize_state s)) dict_keys"
  unfolding normalize_state_def Let_def dict_keys_def by simp

lemma normalize_state_normal_form: "normal_form (normalize_state s)"
  unfolding normal_form_def
  using normalize_state_present normalize_state_lists normalize_state_dicts by blast

lemma normalize_state_fixed: "normal_form s \<Longrightarrow> normalize_state s = s"
  unfolding normal_form_def state_keys_def checked_list_keys_def dict_keys_def
    normalize_state_def Let_def
  by (simp add: setdefault_present_id reset_unless_list_id reset_unless_dict_id set_is_guest_id
        del: not_None_eq)

text \<open>Idempotence holds for every input state.\<close>

lemma normalize_state_idempotent: "normalize_state (normalize_state s) = normalize_state s"
  by (rule normalize_state_fixed) (rule normalize_state_normal_form)

text \<open>An existing key is only replaced by the container checks; no key is removed.\<close>

lemma normalize_state_keeps_keys: "s k \<noteq> None \<Longrightarrow> normalize_state s k \<noteq> None"
  unfolding normalize_state_def Let_def by (simp del: not_None_eq)

text \<open>
  C1 (normalize\_state is idempotent and completing). The first half holds
  (\<open>normalize_state_idempotent\<close>). The second half fails: \<open>uploaded_doc_ids\<close> is declared
  \<open>List[str]\<close>, but unlike the other list-typed fields it gets no \<open>isinstance\<close> check, so a
  caller-supplied \<open>None\<close> survives normalization and the normalized state is not complete.
\<close>

theorem normalize_state_keeps_non_list_uploaded_doc_ids:
  "normalize_state [''uploaded_doc_ids'' \<mapsto> VNone] ''uploaded_doc_ids'' = Some VNone
   \<and> \<not> complete_state (normalize_state [''uploaded_doc_ids'' \<mapsto> VNone])"
proof -
  have v: "normalize_state [''uploaded_doc_ids'' \<mapsto> VNone] ''uploaded_doc_ids'' = Some VNone"
    unfolding normalize_state_def Let_def
    by (simp add: setdefault_def reset_unless_list_def reset_unless_dict_def set_is_guest_def
          subscript_is_list_def subscript_is_dict_def)
  then have "\<not> subscript_is_list (normalize_state [''uploaded_doc_ids'' \<mapsto> VNone])
                ''uploaded_doc_ids''"
    by (simp add: subscript_is_list_def)
  then have "\<not> complete_state (normalize_state [''uploaded_doc_ids'' \<mapsto> VNone])"
    by (simp add: complete_state_def list_keys_def)
  with v show ?thesis by simp
qed

section \<open>Properties of strings and dictionaries\<close>

lemma dict_get_dict_set: "dict_get (dict_set d k v) k' = (if k' = k then Some v else dict_get d k')"
  by (induction d) auto

lemma startswith_iff: "startswith s p \<longleftrightarrow> (\<exists>b. s = p @ b)"
  by (induction s p rule: startswith.induct) auto

lemma contains_iff: "contains s p \<longleftrightarrow> (\<exists>a b. s = a @ p @ b)"
proof (induction s)
  case Nil
  then show ?case by simp
next
  case (Cons c cs)
  show ?case
  proof
    assume "contains (c # cs) p"
    then consider "startswith (c # cs) p" | "contains cs p" by auto
    then show "\<exists>a b. c # cs = a @ p @ b"
    proof cases
      case 1
      then obtain b where "c # cs = p @ b" by (auto simp: startswith_iff)
      then have "c # cs = [] @ p @ b" by simp
      then show ?thesis by blast
    next
      case 2
      then obtain a b where "cs = a @ p @ b" using Cons.IH by auto
      then have "c # cs = (c # a) @ p @ b" by simp
      then show ?thesis by blast
    qed
  next
    assume "\<exists>a b. c # cs = a @ p @ b"
    then obtain a b where ab: "c # cs = a @ p @ b" by auto
    show "contains (c # cs) p"
    proof (cases a)
      case Nil
      with ab have "startswith (c # cs) p" by (auto simp: startswith_iff)
      then show ?thesis by simp
    next
      case (Cons x a')
      with ab have "cs = a' @ p @ b" by simp
      then have "contains cs p" using Cons.IH by auto
      then show ?thesis by simp
    qed
  qed
qed

lemma contains_lower: "contains s p \<Longrightarrow> contains (lower s) (lower p)"
  unfolding contains_iff lower_def by (metis map_append)

lemma lower_research_keywords: "map lower research_keywords = research_keywords"
  by (simp add: research_keywords_def lower_def lower_char_def)

section \<open>Properties of LLMRouter.invoke\<close>

lemma LLMRouter_invoke_primary_ok:
  "primary_invoke env m = Inr r \<Longrightarrow>
   fst (LLMRouter_invoke self env m st) = [Primary] \<and>
   snd (snd (LLMRouter_invoke self env m st)) = Inr r"
  by (simp add: LLMRouter_invoke_def)

text \<open>
  C6 (quota fallback of \<open>LLMRouter.invoke\<close>), as the code has it. When the primary backend
  raises and fallback is enabled and the exception matches the quota signal, the router
  invokes the secondary backend once and the outcome of \<open>invoke\<close> is the outcome of that
  call: its exception, with the state untouched, or its response, with \<open>model_used\<close>,
  \<open>fallback_reason\<close> and \<open>metadata["fallback_used"]\<close> written to a state whose metadata is
  a dictionary. In every other case the primary exception leaves \<open>invoke\<close> unchanged, the
  state is untouched and the secondary backend is not invoked.
\<close>

theorem LLMRouter_invoke_on_primary_exception:
  assumes "primary_invoke env m = Inl e"
  shows "if enable_fallback self \<and> is_quota_exhausted_429 (google_exceptions_loaded env) e
         then (case fallback_invoke env m of
                 Inl e' \<Rightarrow> LLMRouter_invoke self env m st = ([Primary, Fallback], st, Inl e')
               | Inr resp \<Rightarrow>
                   (case st of
                      None \<Rightarrow> LLMRouter_invoke self env m st = ([Primary, Fallback], None, Inr resp)
                    | Some s \<Rightarrow>
                        fst (LLMRouter_invoke self env m st) = [Primary, Fallback]
                        \<and> (\<forall>md. s ''metadata'' = Some (VDict md) \<longrightarrow>
                             LLMRouter_invoke self env m st =
                               ([Primary, Fallback],
                                Some (s(''model_used'' \<mapsto>
                                          VStr (''huggingface:'' @ fallback_repo_id self),
                                        ''fallback_reason'' \<mapsto>
                                          VStr ''ResourceExhausted (429) - Gemini quota limit reached'',
                                        ''metadata'' \<mapsto>
                                          VDict (dict_set md ''fallback_used'' (VBool True)))),
                                Inr resp))))
         else LLMRouter_invoke self env m st = ([Primary], st, Inl e)"
  using assms
  by (auto simp: LLMRouter_invoke_def Let_def get_def get_default_def
        split: sum.splits option.splits)

lemma quota_message_detected:
  "is_quota_exhausted_429 g (PyExc OtherException ''429 You exceeded your current quota'')"
  by (simp add: is_quota_exhausted_429_def lower_def lower_char_def)

lemma other_message_not_detected:
  "\<not> is_quota_exhausted_429 g (PyExc OtherException ''500 Internal error'')"
  by (simp add: is_quota_exhausted_429_def lower_def lower_char_def)

theorem LLMRouter_invoke_on_primary_exception_witness:
  "LLMRouter_invoke
       \<lparr>primary_model = ''gemini-2.5-flash'', fallback_repo_id = ''HuggingFaceH4/zephyr-7b-beta'',
        enable_fallback = True\<rparr>
       \<lparr>google_exceptions_loaded = True,
        primary_invoke = (\<lambda>m::unit. Inl (PyExc OtherException ''429 You exceeded your current quota'')),
        fallback_invoke = (\<lambda>m. Inr \<lparr>content = Some (VStr ''hello''), resp_str = ''hello''\<rparr>)\<rparr>
       () (Some [''metadata'' \<mapsto> VDict [(''tenant'', VStr ''acme'')]])
     = ([Primary, Fallback],
        Some [''model_used'' \<mapsto> VStr ''huggingface:HuggingFaceH4/zephyr-7b-beta'',
              ''fallback_reason'' \<mapsto>
                 VStr ''ResourceExhausted (429) - Gemini quota limit reached'',
              ''metadata'' \<mapsto> VDict [(''tenant'', VStr ''acme''), (''fallback_used'', VBool True)]],
        Inr \<lparr>content = Some (VStr ''hello''), resp_str = ''hello''\<rparr>)
   \<and> LLMRouter_invoke
       \<lparr>primary_model = ''gemini-2.5-flash'', fallback_repo_id = ''HuggingFaceH4/zephyr-7b-beta'',
        enable_fallback = True\<rparr>
       \<lparr>google_exceptions_loaded = True,
        primary_invoke = (\<lambda>m::unit. Inl (PyExc OtherException ''429 You exceeded your current quota'')),
        fallback_invoke = (\<lambda>m. Inl (PyExc OtherException ''503 Service unavailable''))\<rparr>
       () None
     = ([Primary, Fallback], None, Inl (PyExc OtherException ''503 Service unavailable''))
   \<and> LLMRouter_invoke
       \<lparr>primary_model = ''gemini-2.5-flash'', fallback_repo_id = ''HuggingFaceH4/zephyr-7b-beta'',
        enable_fallback = True\<rparr>
       \<lparr>google_exceptions_loaded = True,
        primary_invoke = (\<lambda>m::unit. Inl (PyExc OtherException ''500 Internal error'')),
        fallback_invoke = (\<lambda>m. Inr \<lparr>content = Some (VStr ''hello''), resp_str = ''hello''\<rparr>)\<rparr>
       () None = ([Primary], None, Inl (PyExc OtherException ''500 Internal error''))"
proof -
  show ?thesis
    using
      LLMRouter_invoke_on_primary_exception
        [of "\<lparr>google_exceptions_loaded = True,
              primary_invoke = (\<lambda>m::unit. Inl (PyExc OtherException ''429 You exceeded your current quota'')),
              fallback_invoke = (\<lambda>m. Inr \<lparr>content = Some (VStr ''hello''), resp_str = ''hello''\<rparr>)\<rparr>"
            "()" "PyExc OtherException ''429 You exceeded your current quota''"
            "\<lparr>primary_model = ''gemini-2.5-flash'', fallback_repo_id = ''HuggingFaceH4/zephyr-7b-beta'',
              enable_fallback = True\<rparr>"
            "Some [''metadata'' \<mapsto> VDict [(''tenant'', VStr ''acme'')]]"]
      LLMRouter_invoke_on_primary_exception
        [of "\<lparr>google_exceptions_loaded = True,
              primary_invoke = (\<lambda>m::unit. Inl (PyExc OtherException ''429 You exceeded your current quota'')),
              fallback_invoke = (\<lambda>m. Inl (PyExc OtherException ''503 Service unavailable''))\<rparr>"
            "()" "PyExc OtherException ''429 You exceeded your current quota''"
            "\<lparr>primary_model = ''gemini-2.5-flash'', fallback_repo_id = ''HuggingFaceH4/zephyr-7b-beta'',
              enable_fallback = True\<rparr>" None]
      LLMRouter_invoke_on_primary_exception
        [of "\<lparr>google_exceptions_loaded = True,
              primary_invoke = (\<lambda>m::unit. Inl (PyExc OtherException ''500 Internal error'')),
              fallback_invoke = (\<lambda>m. Inr \<lparr>content = Some (VStr ''hello''), resp_str = ''hello''\<rparr>)\<rparr>"
            "()" "PyExc OtherException ''500 Internal error''"
            "\<lparr>primary_model = ''gemini-2.5-flash'', fallback_repo_id = ''HuggingFaceH4/zephyr-7b-beta'',
              enable_fallback = True\<rparr>" None]
    by (simp add: quota_message_detected other_message_not_detected)
qed

text \<open>
  The claim as written has no exception for a router built with \<open>enable_fallback=False\<close>:
  there a typed \<open>ResourceExhausted\<close> leaves \<open>invoke\<close> and the secondary backend is not tried.
\<close>

theorem LLMRouter_invoke_fallback_disabled_counterexample:
  "is_quota_exhausted_429 True (PyExc ResourceExhausted ''429 Resource has been exhausted'')
   \<and> LLMRouter_invoke
       \<lparr>primary_model = ''gemini-2.5-flash'', fallback_repo_id = ''HuggingFaceH4/zephyr-7b-beta'',
        enable_fallback = False\<rparr>
       \<lparr>google_exceptions_loaded = True,
        primary_invoke = (\<lambda>m::unit. Inl (PyExc ResourceExhausted ''429 Resource has been exhausted'')),
        fallback_invoke = (\<lambda>m. Inr \<lparr>content = Some (VStr ''hello''), resp_str = ''hello''\<rparr>)\<rparr>
       () None
     = ([Primary], None, Inl (PyExc ResourceExhausted ''429 Resource has been exhausted''))"
  by (simp add: is_quota_exhausted_429_def LLMRouter_invoke_def)

section \<open>Properties of the routing decision\<close>

lemma ensure_metadata_at:
  "ensure_metadata s k =
     (if k = ''metadata'' \<and> \<not> subscript_is_dict s ''metadata'' then Some (VDict []) else s k)"
  by (auto simp: ensure_metadata_def subscript_is_dict_def get_def get_default_def
        split: option.splits)

lemma ensure_errors_at:
  "ensure_errors s k =
     (if k = ''errors'' \<and> \<not> subscript_is_list s ''errors'' then Some (VList []) else s k)"
  by (auto simp: ensure_errors_def subscript_is_list_def get_def get_default_def
        split: option.splits)

lemma ensure_intent_at:
  "ensure_intent s k =
     (if s ''intent'' = None \<or> s ''intent'' = Some VNone
      then (if k = ''intent'' then Some (VStr ''unknown'')
            else if k = ''intent_confidence'' then Some (VFloat 0) else s k)
      else s k)"
  by (auto simp: ensure_intent_def get_def get_default_def split: option.splits)

lemma route_after_classification_never_graceful:
  "route_after_classification s = Inr (s', n) \<Longrightarrow> n \<noteq> ''graceful_fallback''"
  by (auto simp: route_after_classification_def Let_def research_override_def
        route_low_confidence_def route_by_intent_def
        split: pyval.splits sum.splits if_splits prod.splits)

text \<open>
  C5 (tenant policy before dispatch). The router builds a \<open>TenantConfigManager\<close> but never
  calls \<open>is_agent_allowed\<close> or \<open>validate_request\<close>: a request that the policy denies (tenant
  \<open>acme\<close> is on the free tier, which does not allow the SQL agent) is dispatched to the SQL
  handler and no denial reason is recorded.
\<close>

theorem route_after_classification_ignores_tenant_policy:
  "validate_request TenantConfigManager_new ''acme'' ''show sales totals'' ''sql''
     = (False, Some (''Agent '' @ [CHR 0x27] @ ''sql'' @ [CHR 0x27] @
                     '' is not available for your tier (free)''))
   \<and> (case route_after_classification
             [''tenant_id'' \<mapsto> VStr ''acme'', ''user_query'' \<mapsto> VStr ''show sales totals'',
              ''intent'' \<mapsto> VStr ''sql'', ''intent_confidence'' \<mapsto> VFloat 0.9] of
         Inl e \<Rightarrow> False
       | Inr (s, node) \<Rightarrow> node = ''sql_agent'' \<and> blocked_reason s = None)"
proof -
  have "validate_request TenantConfigManager_new ''acme'' ''show sales totals'' ''sql''
     = (False, Some (''Agent '' @ [CHR 0x27] @ ''sql'' @ [CHR 0x27] @
                     '' is not available for your tier (free)''))"
    by (simp add: validate_request_def get_config_def TenantConfigManager_new_def
          TenantConfig_new_def is_agent_allowed_def lower_def lower_char_def Let_def)
  moreover have "case route_after_classification
             [''tenant_id'' \<mapsto> VStr ''acme'', ''user_query'' \<mapsto> VStr ''show sales totals'',
              ''intent'' \<mapsto> VStr ''sql'', ''intent_confidence'' \<mapsto> VFloat 0.9] of
         Inl e \<Rightarrow> False
       | Inr (s, node) \<Rightarrow> node = ''sql_agent'' \<and> blocked_reason s = None"
    by (simp add: route_after_classification_def ensure_intent_def ensure_errors_def
          ensure_metadata_def get_def get_default_def research_override_def lower_def
          lower_char_def research_keywords_def py_less_def route_by_intent_def
          blocked_reason_def Let_def)
  ultimately show ?thesis by blast
qed

text \<open>
  The same run read off as a route: the policy's verdict for the request is a denial, and the
  router's answer for it is the SQL handler, with no denial reason in the metadata.
\<close>

theorem route_after_classification_ignores_tenant_policy_witness:
  "fst (validate_request TenantConfigManager_new ''acme'' ''show sales totals'' ''sql'') = False
   \<and> (\<exists>s. route_after_classification
             [''tenant_id'' \<mapsto> VStr ''acme'', ''user_query'' \<mapsto> VStr ''show sales totals'',
              ''intent'' \<mapsto> VStr ''sql'', ''intent_confidence'' \<mapsto> VFloat 0.9]
           = Inr (s, ''sql_agent'') \<and> blocked_reason s = None)"
  using route_after_classification_ignores_tenant_policy
  by (auto split: sum.splits)

lemma research_override_hit:
  assumes "list_ex (\<lambda>keyword. contains (lower q) keyword) research_keywords"
      and "max_confidence conf 0.75 = Inr c"
      and "get_default st ''metadata'' (VDict []) = VDict md0"
  shows "research_override st q i conf =
           Inr (st(''intent'' \<mapsto> VStr (Intent_value RESEARCH), ''intent_confidence'' \<mapsto> c,
                   ''metadata'' \<mapsto> VDict (dict_set md0 ''routing_override''
                                           (VStr ''keyword_based_research''))),
                VStr (Intent_value RESEARCH), c)"
  using assms by (simp add: research_override_def)

text \<open>
  C8 (recency keywords force research). If the lower-cased query contains one of the fixed
  keywords (in particular if the query itself does, lemmas \<open>contains_lower\<close> and
  \<open>lower_research_keywords\<close>), then, whatever the intent label and whatever the numeric
  confidence, the routing decision is the research handler, the intent is \<open>research\<close>, the
  confidence is at least 0.75 and the metadata records \<open>keyword_based_research\<close>.
\<close>

theorem recency_keyword_routes_to_research:
  assumes q: "state ''user_query'' = Some (VStr q)"
      and kw: "list_ex (\<lambda>keyword. contains (lower q) keyword) research_keywords"
      and num: "numeric_confidence state"
  shows "\<exists>s' c r md.
           route_after_classification state = Inr (s', ''research_agent'')
           \<and> s' ''intent'' = Some (VStr ''research'')
           \<and> s' ''intent_confidence'' = Some c \<and> num_of c = Some r \<and> 0.75 \<le> r
           \<and> s' ''metadata'' = Some (VDict md)
           \<and> dict_get md ''routing_override'' = Some (VStr ''keyword_based_research'')"
proof -
  define st where "st = ensure_intent (ensure_errors (ensure_metadata state))"
  have stq: "get_default st ''user_query'' (VStr '''') = VStr q"
    using q by (simp add: st_def ensure_intent_at ensure_errors_at ensure_metadata_at get_default_def)
  have "subscript_is_dict st ''metadata''"
    by (simp add: st_def subscript_is_dict_def ensure_intent_at ensure_errors_at ensure_metadata_at
          split: option.splits)
  then obtain md0 where md0: "get_default st ''metadata'' (VDict []) = VDict md0"
    by (cases "st ''metadata''"; cases "the (st ''metadata'')")
       (auto simp: subscript_is_dict_def get_default_def)
  have "num_of (get_default st ''intent_confidence'' (VFloat 0)) \<noteq> None"
    using num
    by (auto simp: numeric_confidence_def st_def ensure_intent_at ensure_errors_at
          ensure_metadata_at get_default_def split: option.splits)
  then obtain r0 where r0: "num_of (get_default st ''intent_confidence'' (VFloat 0)) = Some r0"
    by auto
  define c where "c = (if 0.75 > r0 then VFloat 0.75 else get_default st ''intent_confidence'' (VFloat 0))"
  have mc: "max_confidence (get_default st ''intent_confidence'' (VFloat 0)) 0.75 = Inr c"
    by (simp add: max_confidence_def r0 c_def)
  define r where "r = (if 0.75 > r0 then 0.75 else r0)"
  have r: "num_of c = Some r" "0.75 \<le> r"
    using r0 by (simp_all add: c_def r_def)
  have ro: "research_override st q (get_default st ''intent'' (VStr (Intent_value UNKNOWN)))
               (get_default st ''intent_confidence'' (VFloat 0)) =
            Inr (st(''intent'' \<mapsto> VStr (Intent_value RESEARCH), ''intent_confidence'' \<mapsto> c,
                    ''metadata'' \<mapsto> VDict (dict_set md0 ''routing_override''
                                            (VStr ''keyword_based_research''))),
                 VStr (Intent_value RESEARCH), c)"
    by (rule research_override_hit [OF kw mc md0])
  have lt: "py_less c 0.4 = Inr False"
    using r by (simp add: py_less_def)
  have "route_after_classification state =
          Inr (st(''intent'' \<mapsto> VStr (Intent_value RESEARCH), ''intent_confidence'' \<mapsto> c,
                  ''metadata'' \<mapsto> VDict (dict_set md0 ''routing_override''
                                          (VStr ''keyword_based_research''))),
               ''research_agent'')"
    unfolding route_after_classification_def Let_def st_def[symmetric] stq
    using ro lt by (simp add: route_by_intent_def)
  then show ?thesis
    using r by (simp add: dict_get_dict_set)
qed

theorem recency_keyword_routes_to_research_witness:
  "[''user_query'' \<mapsto> VStr ''What is the weather today?'', ''intent'' \<mapsto> VStr ''chat'',
    ''intent_confidence'' \<mapsto> VFloat 0.95] ''user_query''
      = Some (VStr ''What is the weather today?'')
   \<and> list_ex (\<lambda>keyword. contains (lower ''What is the weather today?'') keyword)
         research_keywords
   \<and> numeric_confidence
         [''user_query'' \<mapsto> VStr ''What is the weather today?'', ''intent'' \<mapsto> VStr ''chat'',
          ''intent_confidence'' \<mapsto> VFloat 0.95]
   \<and> (\<exists>s' c r md.
         route_after_classification
           [''user_query'' \<mapsto> VStr ''What is the weather today?'', ''intent'' \<mapsto> VStr ''chat'',
            ''intent_confidence'' \<mapsto> VFloat 0.95] = Inr (s', ''research_agent'')
         \<and> s' ''intent'' = Some (VStr ''research'')
         \<and> s' ''intent_confidence'' = Some c \<and> num_of c = Some r \<and> 0.75 \<le> r
         \<and> s' ''metadata'' = Some (VDict md)
         \<and> dict_get md ''routing_override'' = Some (VStr ''keyword_based_research''))"
proof -
  have kw: "list_ex (\<lambda>keyword. contains (lower ''What is the weather today?'') keyword)
              research_keywords"
    by (simp add: research_keywords_def lower_def lower_char_def)
  have num: "numeric_confidence
         [''user_query'' \<mapsto> VStr ''What is the weather today?'', ''intent'' \<mapsto> VStr ''chat'',
          ''intent_confidence'' \<mapsto> VFloat 0.95]"
    by (simp add: numeric_confidence_def)
  show ?thesis
    using kw num
      recency_keyword_routes_to_research
        [of "[''user_query'' \<mapsto> VStr ''What is the weather today?'', ''intent'' \<mapsto> VStr ''chat'',
              ''intent_confidence'' \<mapsto> VFloat 0.95]" "''What is the weather today?''", OF _ kw num]
    by simp
qed

section \<open>Normalized states\<close>

lemma setdefault_at:
  "setdefault d k v k' = (if k' = k then (if d k = None then Some v else d k) else d k')"
  by (simp add: setdefault_def)

lemma reset_unless_list_at:
  "reset_unless_list d k k' =
     (if k' = k then (if subscript_is_list d k then d k else Some (VList [])) else d k')"
  by (simp add: reset_unless_list_def)

lemma reset_unless_dict_at:
  "reset_unless_dict d k k' =
     (if k' = k then (if subscript_is_dict d k then d k else Some (VDict [])) else d k')"
  by (simp add: reset_unless_dict_def)

lemma set_is_guest_at:
  "set_is_guest d k' =
     (if k' = ''is_guest''
      then Some (get_default d ''is_guest'' (VBool (d ''user_id'' = Some (VStr ''guest''))))
      else d k')"
  by (simp add: set_is_guest_def)

lemmas normalize_at =
  setdefault_at reset_unless_list_at reset_unless_dict_at set_is_guest_at
  subscript_is_list_def subscript_is_dict_def

text \<open>A field with no container check keeps its value, or gets its default.\<close>

lemma normalize_state_intent:
  "normalize_state s ''intent'' = Some (case s ''intent'' of None \<Rightarrow> VStr ''unknown'' | Some v \<Rightarrow> v)"
  unfolding normalize_state_def Let_def by (simp add: normalize_at split: option.splits)

lemma normalize_state_approved:
  "normalize_state s ''approved'' = Some (case s ''approved'' of None \<Rightarrow> VBool False | Some v \<Rightarrow> v)"
  unfolding normalize_state_def Let_def by (simp add: normalize_at split: option.splits)

lemma normalize_state_messages:
  "normalize_state s ''messages'' =
     Some (case s ''messages'' of Some (VList ms) \<Rightarrow> VList ms | _ \<Rightarrow> VList [])"
  unfolding normalize_state_def Let_def by (simp add: normalize_at split: option.splits pyval.splits)

lemma normal_form_upd:
  assumes "normal_form s"
      and "k \<in> set checked_list_keys \<Longrightarrow> is_list v"
      and "k \<in> set dict_keys \<Longrightarrow> is_dict v"
  shows "normal_form (s(k \<mapsto> v))"
  using assms
  by (auto simp: normal_form_def list_all_iff subscript_is_list_def subscript_is_dict_def)

lemma normal_form_present: "normal_form s \<Longrightarrow> k \<in> set state_keys \<Longrightarrow> s k \<noteq> None"
  by (auto simp: normal_form_def list_all_iff)

lemma normal_form_list:
  "normal_form s \<Longrightarrow> k \<in> set checked_list_keys \<Longrightarrow> \<exists>xs. s k = Some (VList xs)"
  by (cases "s k"; cases "the (s k)")
     (auto simp: normal_form_def list_all_iff subscript_is_list_def)

lemma normal_form_dict:
  "normal_form s \<Longrightarrow> k \<in> set dict_keys \<Longrightarrow> \<exists>d. s k = Some (VDict d)"
  by (cases "s k"; cases "the (s k)")
     (auto simp: normal_form_def list_all_iff subscript_is_dict_def)

lemma ensure_metadata_id: "normal_form s \<Longrightarrow> ensure_metadata s = s"
  by (rule ext) (auto simp: ensure_metadata_at normal_form_def dict_keys_def)

lemma ensure_errors_id: "normal_form s \<Longrightarrow> ensure_errors s = s"
  by (rule ext) (auto simp: ensure_errors_at normal_form_def checked_list_keys_def)

lemma ensure_intent_id: "s ''intent'' = Some (VStr i) \<Longrightarrow> ensure_intent s = s"
  by (rule ext) (auto simp: ensure_intent_at)

section \<open>A failing attempt of the SQL handler\<close>

lemma str_items_VStr: "str_items (map VStr ts) = Some ts"
  by (induction ts) auto

lemma join_errors_strs: "join_errors (VList (map VStr ss)) = Inr (join '', '' ss)"
  by (simp add: join_errors_def str_items_VStr)

lemma SQLAgent_try_fails:
  assumes gen: "\<And>st. generate_sql env st = (calls, st, Inl e)" and art: "generates s"
  shows "SQLAgent_try env s = (s, calls, Some e)"
  using art by (auto simp: SQLAgent_try_def generates_def gen)

lemma SQLAgent_except_under:
  assumes nf: "normal_form s"
      and es: "s ''errors'' = Some (VList (map VStr ss))"
      and lt: "r < self_max_retries env"
  shows "SQLAgent_except env (VInt (int r)) s e = (failed_state s (ss @ [exc_str e]) (Suc r), None)"
proof -
  have ee: "ensure_errors s = s" using nf by (rule ensure_errors_id)
  have la: "list_append s ''errors'' (VStr (exc_str e)) =
              Inr (s(''errors'' \<mapsto> VList (map VStr (ss @ [exc_str e]))))"
    by (simp add: list_append_def es)
  have l: "py_less_nat (VInt (int r)) (self_max_retries env) = Inr True"
    using lt by (simp add: py_less_nat_def)
  have su: "py_succ (VInt (int r)) = Inr (VInt (int (Suc r)))"
    by simp
  show ?thesis
    unfolding SQLAgent_except_def Let_def ee la l su failed_state_def
    by simp
qed

lemma SQLAgent_except_exhausted:
  assumes nf: "normal_form s"
      and es: "s ''errors'' = Some (VList (map VStr ss))"
      and lt: "\<not> r < self_max_retries env"
  shows "SQLAgent_except env (VInt (int r)) s e =
     (s(''errors'' \<mapsto> VList (map VStr (ss @ [exc_str e])),
        ''execution_status'' \<mapsto> VStr ''failed'',
        ''final_answer'' \<mapsto>
           VStr (''Failed to generate or execute SQL after '' @
                 str_of_nat (self_max_retries env) @ '' attempts. Errors: '' @
                 join '', '' (ss @ [exc_str e]))), None)"
proof -
  have ee: "ensure_errors s = s" using nf by (rule ensure_errors_id)
  have la: "list_append s ''errors'' (VStr (exc_str e)) =
              Inr (s(''errors'' \<mapsto> VList (map VStr (ss @ [exc_str e]))))"
    by (simp add: list_append_def es)
  have l: "py_less_nat (VInt (int r)) (self_max_retries env) = Inr False"
    using lt by (simp add: py_less_nat_def)
  have "get_default (s(''errors'' \<mapsto> VList (map VStr (ss @ [exc_str e])),
               ''execution_status'' \<mapsto> VStr ''failed'')) ''errors'' (VList [])
        = VList (map VStr (ss @ [exc_str e]))"
    by (simp add: get_default_def)
  then have j: "join_errors (get_default (s(''errors'' \<mapsto> VList (map VStr (ss @ [exc_str e])),
               ''execution_status'' \<mapsto> VStr ''failed'')) ''errors'' (VList []))
            = Inr (join '', '' (ss @ [exc_str e]))"
    by (simp only: join_errors_strs)
  show ?thesis
    unfolding SQLAgent_except_def Let_def ee la l
    using j by simp
qed

lemma SQLAgent_execute_fails:
  assumes gen: "\<And>st. generate_sql env st = (calls, st, Inl e)"
      and nf: "normal_form s"
      and intent: "s ''intent'' = Some (VStr i)"
      and art: "generates s"
      and rc: "s ''retry_count'' = Some (VInt (int r))"
      and es: "s ''errors'' = Some (VList (map VStr ss))"
  shows "SQLAgent_execute env s =
           (if r < self_max_retries env
            then (failed_state s (ss @ [exc_str e]) (Suc r), calls, None)
            else (s(''errors'' \<mapsto> VList (map VStr (ss @ [exc_str e])),
                    ''execution_status'' \<mapsto> VStr ''failed'',
                    ''final_answer'' \<mapsto>
                       VStr (''Failed to generate or execute SQL after '' @
                             str_of_nat (self_max_retries env) @ '' attempts. Errors: '' @
                             join '', '' (ss @ [exc_str e]))),
                  calls, None))"
proof -
  have pre: "ensure_intent (ensure_errors (ensure_metadata (normalize_state s))) = s"
    using nf intent
    by (simp add: normalize_state_fixed ensure_metadata_id ensure_errors_id ensure_intent_id)
  have tr: "SQLAgent_try env s = (s, calls, Some e)"
    using gen art by (rule SQLAgent_try_fails)
  have g: "get_default s ''retry_count'' (VInt 0) = VInt (int r)"
    by (simp add: get_default_def rc)
  show ?thesis
  proof (cases "r < self_max_retries env")
    case True
    show ?thesis
      unfolding SQLAgent_execute_def Let_def pre g tr
      using True by (simp add: SQLAgent_except_under [OF nf es True])
  next
    case False
    show ?thesis
      unfolding SQLAgent_execute_def Let_def pre g tr
      using False by (simp add: SQLAgent_except_exhausted [OF nf es False])
  qed
qed

section \<open>A deterministically failing run\<close>

lemma normalize_state_retry_count:
  "normalize_state s ''retry_count'' = Some (case s ''retry_count'' of None \<Rightarrow> VInt 0 | Some v \<Rightarrow> v)"
  unfolding normalize_state_def Let_def by (simp add: normalize_at split: option.splits)

lemma normalize_state_max_retries:
  "normalize_state s ''max_retries'' = Some (case s ''max_retries'' of None \<Rightarrow> VInt 3 | Some v \<Rightarrow> v)"
  unfolding normalize_state_def Let_def by (simp add: normalize_at split: option.splits)

lemma normalize_state_approval_required:
  "normalize_state s ''approval_required'' =
     Some (case s ''approval_required'' of None \<Rightarrow> VBool False | Some v \<Rightarrow> v)"
  unfolding normalize_state_def Let_def by (simp add: normalize_at split: option.splits)

lemma normalize_state_generated_sql:
  "normalize_state s ''generated_sql'' =
     Some (case s ''generated_sql'' of None \<Rightarrow> VNone | Some v \<Rightarrow> v)"
  unfolding normalize_state_def Let_def by (simp add: normalize_at split: option.splits)

lemma normalize_state_should_continue:
  "normalize_state s ''should_continue'' =
     Some (case s ''should_continue'' of None \<Rightarrow> VBool False | Some v \<Rightarrow> v)"
  unfolding normalize_state_def Let_def by (simp add: normalize_at split: option.splits)

lemma normalize_state_final_answer:
  "normalize_state s ''final_answer'' =
     Some (case s ''final_answer'' of None \<Rightarrow> VNone | Some v \<Rightarrow> v)"
  unfolding normalize_state_def Let_def by (simp add: normalize_at split: option.splits)

lemma normalize_state_errors:
  "normalize_state s ''errors'' =
     Some (case s ''errors'' of Some (VList es) \<Rightarrow> VList es | _ \<Rightarrow> VList [])"
  unfolding normalize_state_def Let_def by (simp add: normalize_at split: option.splits pyval.splits)

lemma normal_form_failed_state: "normal_form s \<Longrightarrow> normal_form (failed_state s ss r)"
  unfolding failed_state_def
  by (intro normal_form_upd) (simp_all add: checked_list_keys_def dict_keys_def)

lemma failed_state_twice: "failed_state (failed_state s a b) c d = failed_state s c d"
  by (simp add: failed_state_def)

lemma failed_state_other:
  "k \<notin> {''errors'', ''retry_count'', ''execution_status'', ''should_continue''} \<Longrightarrow>
   failed_state s ss r k = s k"
  by (simp add: failed_state_def)

lemma generates_failed_state: "generates (failed_state s ss r) = generates s"
  by (simp add: generates_def get_def get_default_def failed_state_def)

lemma gate_closed_failed_state: "gate_closed (failed_state s ss r) = gate_closed s"
  by (simp add: gate_closed_def get_default_def failed_state_def)

lemma sql_node_normal: "normal_form s \<Longrightarrow> sql_node env s = SQLAgent_execute env s"
  by (simp add: sql_node_def normalize_state_fixed)

lemma route_after_agent_failed_state:
  assumes "gate_closed s" and "s ''max_retries'' = Some (VInt (int m))"
  shows "route_after_agent (failed_state s ss r) = Inr (if r < m then ''retry_handler'' else ''end'')"
  using assms
  by (simp add: route_after_agent_def gate_closed_def get_default_def failed_state_def py_less2_def)

lemma retry_handler_node_failed_state:
  assumes "normal_form s" and "s ''max_retries'' = Some (VInt (int m))" and "r < m"
  shows "retry_handler_node (failed_state s ss r) = Inr (failed_state s ss r)"
proof -
  have n: "normalize_state (failed_state s ss r) = failed_state s ss r"
    using assms(1) by (simp add: normalize_state_fixed normal_form_failed_state)
  show ?thesis
    unfolding retry_handler_node_def Let_def n
    using assms(2,3) by (simp add: get_default_def failed_state_def py_less2_def)
qed

lemma route_after_retry_failed_state:
  assumes "s ''intent'' = Some (VStr ''sql'')"
  shows "route_after_retry (failed_state s ss r) = ''sql_agent''"
  using assms by (simp add: route_after_retry_def get_default_def get_def failed_state_def)

lemma failing_attempt_node:
  assumes gen: "\<And>st. generate_sql env st = (calls, st, Inl e)"
      and nf: "normal_form s"
      and intent: "s ''intent'' = Some (VStr ''sql'')"
      and art: "generates s"
      and rc: "s ''retry_count'' = Some (VInt (int r))"
      and es: "s ''errors'' = Some (VList (map VStr ss))"
      and lt: "r < self_max_retries env"
  shows "sql_node env s = (failed_state s (ss @ [exc_str e]) (Suc r), calls, None)"
  using SQLAgent_execute_fails [OF gen nf intent art rc es] lt
  by (simp add: sql_node_normal [OF nf])

lemma failing_run:
  assumes gen: "\<And>st. generate_sql env st = (calls, st, Inl e)"
      and ag: "agents ''sql_agent'' = sql_node env"
      and mM: "m \<le> self_max_retries env"
  shows "normal_form s \<Longrightarrow> s ''intent'' = Some (VStr ''sql'') \<Longrightarrow> generates s \<Longrightarrow>
         gate_closed s \<Longrightarrow> s ''max_retries'' = Some (VInt (int m)) \<Longrightarrow>
         s ''retry_count'' = Some (VInt (int r)) \<Longrightarrow> s ''errors'' = Some (VList (map VStr ss)) \<Longrightarrow>
         r < self_max_retries env \<Longrightarrow> m - Suc r = d \<Longrightarrow>
         run_from_agent (Suc d + extra) agents ''sql_agent'' s =
           Some (Finished (failed_state s (ss @ replicate (Suc d) (exc_str e)) (r + Suc d)),
                 concat (replicate (Suc d) calls))"
proof (induction d arbitrary: s r ss)
  case 0
  have node: "sql_node env s = (failed_state s (ss @ [exc_str e]) (Suc r), calls, None)"
    using failing_attempt_node [OF gen "0.prems"(1,2,3,6,7,8)] .
  have "\<not> Suc r < m" using "0.prems"(9) by simp
  then have route: "route_after_agent (failed_state s (ss @ [exc_str e]) (Suc r)) = Inr ''end''"
    using route_after_agent_failed_state [OF "0.prems"(4,5)] by simp
  show ?case
    by (simp add: ag node route)
next
  case (Suc d)
  let ?s1 = "failed_state s (ss @ [exc_str e]) (Suc r)"
  have node: "sql_node env s = (?s1, calls, None)"
    using failing_attempt_node [OF gen Suc.prems(1,2,3,6,7,8)] .
  have lt: "Suc r < m" using Suc.prems(9) by simp
  then have route: "route_after_agent ?s1 = Inr ''retry_handler''"
    using route_after_agent_failed_state [OF Suc.prems(4,5)] by simp
  have retry: "retry_handler_node ?s1 = Inr ?s1"
    using retry_handler_node_failed_state [OF Suc.prems(1,5) lt] .
  have nxt: "route_after_retry ?s1 = ''sql_agent''"
    using Suc.prems(2) by (rule route_after_retry_failed_state)
  have ih: "run_from_agent (Suc d + extra) agents ''sql_agent'' ?s1 =
              Some (Finished (failed_state ?s1 ((ss @ [exc_str e]) @ replicate (Suc d) (exc_str e))
                                (Suc r + Suc d)),
                    concat (replicate (Suc d) calls))"
  proof (rule Suc.IH)
    show "normal_form ?s1" using Suc.prems(1) by (rule normal_form_failed_state)
    show "?s1 ''intent'' = Some (VStr ''sql'')" using Suc.prems(2) by (simp add: failed_state_def)
    show "generates ?s1" using Suc.prems(3) by (simp add: generates_failed_state)
    show "gate_closed ?s1" using Suc.prems(4) by (simp add: gate_closed_failed_state)
    show "?s1 ''max_retries'' = Some (VInt (int m))" using Suc.prems(5) by (simp add: failed_state_def)
    show "?s1 ''retry_count'' = Some (VInt (int (Suc r)))" by (simp add: failed_state_def)
    show "?s1 ''errors'' = Some (VList (map VStr (ss @ [exc_str e])))" by (simp add: failed_state_def)
    show "Suc r < self_max_retries env" using lt mM by simp
    show "m - Suc (Suc r) = d" using Suc.prems(9) by simp
  qed
  have run: "run_from_agent (Suc (Suc d) + extra) agents ''sql_agent'' s =
               after_effects calls (run_from_agent (Suc d + extra) agents ''sql_agent'' ?s1)"
    by (simp add: ag node route retry nxt del: run_from_agent.simps(2))
       (simp add: ag node route retry nxt)
  show ?case
    unfolding run ih
    by (simp add: after_effects_def failed_state_twice)
qed

lemma generate_sql_primary_raises:
  assumes "sql_generation_prompt env st = Inr m"
      and "primary_invoke (llm env) m = Inl e"
      and "\<not> (enable_fallback (llm_router env)
              \<and> is_quota_exhausted_429 (google_exceptions_loaded (llm env)) e)"
  shows "generate_sql env st = ([LLMCall Primary], st, Inl e)"
  using assms by (simp add: generate_sql_def LLMRouter_invoke_def state_of_def)

lemma boom_not_quota: "\<not> is_quota_exhausted_429 g (PyExc OtherException ''boom'')"
  by (simp add: is_quota_exhausted_429_def lower_def lower_char_def)

text \<open>
  C3 (retry counter). The handler's \<open>except\<close> block increments \<open>retry_count\<close> while it is
  below the agent's own bound and writes the failure answer only once the bound is reached,
  but the router stops re-dispatching as soon as \<open>retry_count\<close> has reached \<open>max_retries\<close>.
  With the defaults (both bounds 3) a handler whose generation always raises \<open>boom\<close> is
  invoked three times (two router-driven retries, not three) and the run ends with status
  \<open>failed\<close> and no final answer; with \<open>max_retries = 0\<close> the run ends after the first attempt,
  again with no final answer.
\<close>

theorem failing_sql_run_ends_without_failure_answer:
  "(\<exists>s'. run_from_agent 10
            (\<lambda>node. sql_node
               \<lparr>llm_router = \<lparr>primary_model = ''gemini-2.5-flash'',
                              fallback_repo_id = ''HuggingFaceH4/zephyr-7b-beta'',
                              enable_fallback = True\<rparr>,
                llm = \<lparr>google_exceptions_loaded = True,
                       primary_invoke = (\<lambda>m::unit. Inl (PyExc OtherException ''boom'')),
                       fallback_invoke = (\<lambda>m. Inl (PyExc OtherException ''boom''))\<rparr>,
                sql_generation_prompt = (\<lambda>s. Inr ()),
                sqlparse = (\<lambda>sql. Inr []),
                py_str = (\<lambda>v. ''''),
                self_max_retries = 3\<rparr>)
            ''sql_agent''
            (normalize_state [''user_query'' \<mapsto> VStr ''total sales per region'',
                              ''intent'' \<mapsto> VStr ''sql''])
          = Some (Finished s', [LLMCall Primary, LLMCall Primary, LLMCall Primary])
        \<and> s' ''max_retries'' = Some (VInt 3)
        \<and> s' ''retry_count'' = Some (VInt 3)
        \<and> s' ''execution_status'' = Some (VStr ''failed'')
        \<and> s' ''errors'' = Some (VList [VStr ''boom'', VStr ''boom'', VStr ''boom''])
        \<and> s' ''final_answer'' = Some VNone)
   \<and> (\<exists>s'. run_from_agent 10
            (\<lambda>node. sql_node
               \<lparr>llm_router = \<lparr>primary_model = ''gemini-2.5-flash'',
                              fallback_repo_id = ''HuggingFaceH4/zephyr-7b-beta'',
                              enable_fallback = True\<rparr>,
                llm = \<lparr>google_exceptions_loaded = True,
                       primary_invoke = (\<lambda>m::unit. Inl (PyExc OtherException ''boom'')),
                       fallback_invoke = (\<lambda>m. Inl (PyExc OtherException ''boom''))\<rparr>,
                sql_generation_prompt = (\<lambda>s. Inr ()),
                sqlparse = (\<lambda>sql. Inr []),
                py_str = (\<lambda>v. ''''),
                self_max_retries = 3\<rparr>)
            ''sql_agent''
            (normalize_state [''user_query'' \<mapsto> VStr ''total sales per region'',
                              ''intent'' \<mapsto> VStr ''sql'', ''max_retries'' \<mapsto> VInt 0])
          = Some (Finished s', [LLMCall Primary])
        \<and> s' ''max_retries'' = Some (VInt 0)
        \<and> s' ''execution_status'' = Some (VStr ''failed'')
        \<and> s' ''errors'' = Some (VList [VStr ''boom''])
        \<and> s' ''final_answer'' = Some VNone)"
proof -
  define env :: "unit sql_env" where "env =
               \<lparr>llm_router = \<lparr>primary_model = ''gemini-2.5-flash'',
                              fallback_repo_id = ''HuggingFaceH4/zephyr-7b-beta'',
                              enable_fallback = True\<rparr>,
                llm = \<lparr>google_exceptions_loaded = True,
                       primary_invoke = (\<lambda>m::unit. Inl (PyExc OtherException ''boom'')),
                       fallback_invoke = (\<lambda>m. Inl (PyExc OtherException ''boom''))\<rparr>,
                sql_generation_prompt = (\<lambda>s. Inr ()),
                sqlparse = (\<lambda>sql. Inr []),
                py_str = (\<lambda>v. ''''),
                self_max_retries = 3\<rparr>"
  define s0 where "s0 = normalize_state [''user_query'' \<mapsto> VStr ''total sales per region'',
                              ''intent'' \<mapsto> VStr ''sql'']"
  define s1 where "s1 = normalize_state [''user_query'' \<mapsto> VStr ''total sales per region'',
                              ''intent'' \<mapsto> VStr ''sql'', ''max_retries'' \<mapsto> VInt 0]"
  have gen: "\<And>st. generate_sql env st = ([LLMCall Primary], st, Inl (PyExc OtherException ''boom''))"
    by (rule generate_sql_primary_raises [where m = "()"]) (simp_all add: env_def boom_not_quota)
  have M: "self_max_retries env = 3" by (simp add: env_def)
  have ag: "(\<lambda>node. sql_node env) ''sql_agent'' = sql_node env" by simp
  have nf0: "normal_form s0" and nf1: "normal_form s1"
    by (simp_all add: s0_def s1_def normalize_state_normal_form)
  have f0: "s0 ''intent'' = Some (VStr ''sql'')" "generates s0" "gate_closed s0"
      "s0 ''max_retries'' = Some (VInt (int 3))" "s0 ''retry_count'' = Some (VInt (int 0))"
      "s0 ''errors'' = Some (VList (map VStr []))" "s0 ''final_answer'' = Some VNone"
    by (simp_all add: s0_def generates_def gate_closed_def get_def get_default_def
          normalize_state_intent normalize_state_approved normalize_state_approval_required
          normalize_state_generated_sql normalize_state_max_retries normalize_state_retry_count
          normalize_state_errors normalize_state_final_answer)
  have f1: "s1 ''intent'' = Some (VStr ''sql'')" "generates s1" "gate_closed s1"
      "s1 ''max_retries'' = Some (VInt (int 0))" "s1 ''retry_count'' = Some (VInt (int 0))"
      "s1 ''errors'' = Some (VList (map VStr []))" "s1 ''final_answer'' = Some VNone"
    by (simp_all add: s1_def generates_def gate_closed_def get_def get_default_def
          normalize_state_intent normalize_state_approved normalize_state_approval_required
          normalize_state_generated_sql normalize_state_max_retries normalize_state_retry_count
          normalize_state_errors normalize_state_final_answer)
  have r0: "run_from_agent (Suc 2 + 7) (\<lambda>node. sql_node env) ''sql_agent'' s0 =
          Some (Finished (failed_state s0 ([] @ replicate (Suc 2) (exc_str (PyExc OtherException ''boom'')))
                            (0 + Suc 2)),
                concat (replicate (Suc 2) [LLMCall Primary]))"
    by (rule failing_run [OF gen ag _ nf0 f0(1-6)]) (simp_all add: M)
  have r1: "run_from_agent (Suc 0 + 9) (\<lambda>node. sql_node env) ''sql_agent'' s1 =
          Some (Finished (failed_state s1 ([] @ replicate (Suc 0) (exc_str (PyExc OtherException ''boom'')))
                            (0 + Suc 0)),
                concat (replicate (Suc 0) [LLMCall Primary]))"
    by (rule failing_run [OF gen ag _ nf1 f1(1-6)]) (simp_all add: M)
  have e0: "run_from_agent 10 (\<lambda>node. sql_node env) ''sql_agent'' s0 =
          Some (Finished (failed_state s0 [''boom'', ''boom'', ''boom''] 3),
                [LLMCall Primary, LLMCall Primary, LLMCall Primary])"
    using r0 by (simp add: eval_nat_numeral)
  have e1: "run_from_agent 10 (\<lambda>node. sql_node env) ''sql_agent'' s1 =
          Some (Finished (failed_state s1 [''boom''] 1), [LLMCall Primary])"
    using r1 by (simp add: eval_nat_numeral)
  have "\<exists>s'. run_from_agent 10 (\<lambda>node. sql_node env) ''sql_agent'' s0
          = Some (Finished s', [LLMCall Primary, LLMCall Primary, LLMCall Primary])
        \<and> s' ''max_retries'' = Some (VInt 3)
        \<and> s' ''retry_count'' = Some (VInt 3)
        \<and> s' ''execution_status'' = Some (VStr ''failed'')
        \<and> s' ''errors'' = Some (VList [VStr ''boom'', VStr ''boom'', VStr ''boom''])
        \<and> s' ''final_answer'' = Some VNone"
    using e0 f0(4,7) by (simp add: failed_state_def)
  moreover have "\<exists>s'. run_from_agent 10 (\<lambda>node. sql_node env) ''sql_agent'' s1
          = Some (Finished s', [LLMCall Primary])
        \<and> s' ''max_retries'' = Some (VInt 0)
        \<and> s' ''execution_status'' = Some (VStr ''failed'')
        \<and> s' ''errors'' = Some (VList [VStr ''boom''])
        \<and> s' ''final_answer'' = Some VNone"
    using e1 f1(4,7) by (simp add: failed_state_def)
  ultimately show ?thesis
    unfolding env_def s0_def s1_def by blast
qed

section \<open>The approval round trip of the SQL handler\<close>

lemma normal_form_router_upd:
  "normal_form s \<Longrightarrow> normal_form (s(''model_used'' \<mapsto> a, ''fallback_reason'' \<mapsto> b))"
  by (intro normal_form_upd) (simp_all add: checked_list_keys_def dict_keys_def)

lemma normal_form_metadata_upd:
  "normal_form s \<Longrightarrow> is_dict md \<Longrightarrow> normal_form (s(''metadata'' \<mapsto> md))"
  by (intro normal_form_upd) (simp_all add: checked_list_keys_def dict_keys_def)

lemma setitem_dict: "setitem md k v = Inr r \<Longrightarrow> is_dict r"
  by (cases md) auto

lemma router_touched_refl: "router_touched s s"
  by (simp add: router_touched_def)

lemma router_touched_upd:
  "router_touched s (s(''model_used'' \<mapsto> a, ''fallback_reason'' \<mapsto> b))"
  by (simp add: router_touched_def router_keys_def normal_form_router_upd)

lemma router_touched_upd_md:
  "is_dict md \<Longrightarrow>
   router_touched s (s(''model_used'' \<mapsto> a, ''fallback_reason'' \<mapsto> b, ''metadata'' \<mapsto> md))"
  by (simp add: router_touched_def router_keys_def normal_form_router_upd normal_form_metadata_upd)

lemma LLMRouter_invoke_state:
  "\<exists>s'. fst (snd (LLMRouter_invoke r b m (Some s))) = Some s' \<and> router_touched s s'"
proof (cases "primary_invoke b m")
  case (Inr resp)
  then have "fst (snd (LLMRouter_invoke r b m (Some s))) =
               Some (s(''model_used'' \<mapsto> VStr (primary_model r), ''fallback_reason'' \<mapsto> VNone))"
    by (simp add: LLMRouter_invoke_def)
  then show ?thesis using router_touched_upd by simp
next
  case (Inl e)
  note prim = this
  show ?thesis
  proof (cases "enable_fallback r \<and> is_quota_exhausted_429 (google_exceptions_loaded b) e")
    case False
    with prim have "fst (snd (LLMRouter_invoke r b m (Some s))) = Some s"
      by (simp add: LLMRouter_invoke_def)
    then show ?thesis using router_touched_refl by simp
  next
    case True
    note quota = this
    show ?thesis
    proof (cases "fallback_invoke b m")
      case (Inl e')
      with prim quota have "fst (snd (LLMRouter_invoke r b m (Some s))) = Some s"
        by (simp add: LLMRouter_invoke_def)
      then show ?thesis using router_touched_refl by simp
    next
      case (Inr resp)
      note fb = this
      define s1 where "s1 = s(''model_used'' \<mapsto> VStr (''huggingface:'' @ fallback_repo_id r),
                              ''fallback_reason'' \<mapsto>
                                 VStr ''ResourceExhausted (429) - Gemini quota limit reached'')"
      define md where "md = (if truthy (get s1 ''metadata'') then get s1 ''metadata'' else VDict [])"
      have st: "fst (snd (LLMRouter_invoke r b m (Some s))) =
                  (case setitem md ''fallback_used'' (VBool True) of
                        Inl e' \<Rightarrow> Some s1 | Inr md' \<Rightarrow> Some (s1(''metadata'' \<mapsto> md')))"
        using prim fb quota
        by (simp add: LLMRouter_invoke_def Let_def s1_def md_def split: sum.splits)
      show ?thesis
      proof (cases "setitem md ''fallback_used'' (VBool True)")
        case (Inl e')
        with st have "fst (snd (LLMRouter_invoke r b m (Some s))) = Some s1" by simp
        then show ?thesis using router_touched_upd unfolding s1_def by simp
      next
        case (Inr md')
        then have d: "is_dict md'" by (rule setitem_dict)
        from st Inr have "fst (snd (LLMRouter_invoke r b m (Some s))) = Some (s1(''metadata'' \<mapsto> md'))"
          by simp
        then show ?thesis using router_touched_upd_md [OF d] unfolding s1_def by simp
      qed
    qed
  qed
qed

lemma generate_sql_state:
  assumes "generate_sql env s = (calls, s', res)"
  shows "list_all is_llm_call calls \<and> router_touched s s'"
proof (cases "sql_generation_prompt env s")
  case (Inl e)
  with assms show ?thesis by (auto simp: generate_sql_def router_touched_refl)
next
  case (Inr m)
  obtain cs st r where inv: "LLMRouter_invoke (llm_router env) (llm env) m (Some s) = (cs, st, r)"
    by (cases "LLMRouter_invoke (llm_router env) (llm env) m (Some s)") auto
  from LLMRouter_invoke_state [of "llm_router env" "llm env" m s] inv
  obtain s1 where s1: "st = Some s1" "router_touched s s1"
    by auto
  have "generate_sql env s =
          (map LLMCall cs, s1,
           case r of Inl e \<Rightarrow> Inl e
           | Inr resp \<Rightarrow>
              (case (case content resp of None \<Rightarrow> VStr (resp_str resp) | Some c \<Rightarrow> c) of
                  VStr sql \<Rightarrow>
                     Inr (strip (remove_fence [CHR 0x60, CHR 0x60, CHR 0x60]
                            (remove_fence ([CHR 0x60, CHR 0x60, CHR 0x60] @ ''sql'') sql)))
                | _ \<Rightarrow> Inl (PyExc TypeError ''expected string or bytes-like object'')))"
    by (simp add: generate_sql_def Inr inv s1(1) state_of_def split: sum.splits pyval.splits)
  with assms have "calls = map LLMCall cs" "s' = s1" by simp_all
  then show ?thesis
    using s1(2) by (simp add: list_all_iff is_llm_call_def image_iff)
qed

lemma handler_entry:
  assumes "normal_form s" and "s ''intent'' = Some (VStr i)"
  shows "ensure_intent (ensure_errors (ensure_metadata (normalize_state s))) = s"
  using assms
  by (simp add: normalize_state_fixed ensure_metadata_id ensure_errors_id ensure_intent_id)

lemma normal_form_flagged_state: "normal_form s \<Longrightarrow> normal_form (flagged_state s sql v)"
  unfolding flagged_state_def
  by (intro normal_form_upd) (simp_all add: checked_list_keys_def dict_keys_def)

lemma SQLAgent_execute_flagged:
  assumes gen: "generate_sql env s = (calls, s1, Inr sql)"
      and req: "v_requires_approval (SQLValidator_validate (sqlparse env) sql)"
      and nf: "normal_form s"
      and intent: "s ''intent'' = Some (VStr i)"
      and art: "generates s"
  shows "SQLAgent_execute env s =
           (flagged_state s1 sql (SQLValidator_validate (sqlparse env) sql), calls, None)"
proof -
  have tr: "SQLAgent_try env s =
              (flagged_state s1 sql (SQLValidator_validate (sqlparse env) sql), calls, None)"
    using art req by (auto simp: SQLAgent_try_def generates_def gen Let_def flagged_state_def)
  show ?thesis
    unfolding SQLAgent_execute_def Let_def handler_entry [OF nf intent] tr
    by simp
qed

lemma run_first_pass_flagged:
  assumes gen: "generate_sql env s = (calls, s1, Inr sql)"
      and req: "v_requires_approval (SQLValidator_validate (sqlparse env) sql)"
      and nf: "normal_form s"
      and intent: "s ''intent'' = Some (VStr ''sql'')"
      and art: "generates s"
      and fresh: "\<not> truthy (get_default s ''should_continue'' (VBool False))"
      and ag: "agents ''sql_agent'' = sql_node env"
  shows "run_from_agent (Suc fuel) agents ''sql_agent'' s =
           Some (Finished
                  (if truthy (get_default s ''approved'' (VBool False))
                   then flagged_state s1 sql (SQLValidator_validate (sqlparse env) sql)
                   else gated_state (flagged_state s1 sql (SQLValidator_validate (sqlparse env) sql))),
                 calls)"
proof -
  let ?v = "SQLValidator_validate (sqlparse env) sql"
  let ?s2 = "flagged_state s1 sql ?v"
  from generate_sql_state [OF gen] have rt: "router_touched s s1" by simp
  then have nf1: "normal_form s1" using nf by (simp add: router_touched_def)
  have k1: "s1 ''approved'' = s ''approved''" "s1 ''should_continue'' = s ''should_continue''"
    using rt by (simp_all add: router_touched_def router_keys_def)
  have node: "sql_node env s = (?s2, calls, None)"
    using SQLAgent_execute_flagged [OF gen req nf intent art] by (simp add: sql_node_normal [OF nf])
  have nf2: "normal_form ?s2" using nf1 by (rule normal_form_flagged_state)
  show ?thesis
  proof (cases "truthy (get_default s ''approved'' (VBool False))")
    case True
    have route: "route_after_agent ?s2 = Inr ''end''"
      using True fresh k1
      by (simp add: route_after_agent_def flagged_state_def get_default_def)
    show ?thesis using True by (simp add: ag node route)
  next
    case False
    have route: "route_after_agent ?s2 = Inr ''approval_gate''"
      using False k1 by (simp add: route_after_agent_def flagged_state_def get_default_def)
    have gate: "approval_gate_node ?s2 = gated_state ?s2"
      unfolding approval_gate_node_def Let_def normalize_state_fixed [OF nf2]
      using False k1 by (simp add: gated_state_def flagged_state_def get_default_def)
    have nxt: "route_after_approval (gated_state ?s2) = ''end''"
      using False k1
      by (simp add: route_after_approval_def gated_state_def flagged_state_def get_default_def)
    show ?thesis using False by (simp add: ag node route gate nxt)
  qed
qed

lemma run_query_approved:
  assumes "s ''messages'' = Some (VList ms)"
  shows "run_query env s (VStr sql) True 0.95 =
           (executed_state env s sql ms, [ExecuteSQL (VStr sql)], None)"
  using assms
  by (simp add: run_query_def Let_def list_append_def approved_message_def approved_answer_def
        executed_state_def)

lemma run_approved_artifact:
  assumes nf: "normal_form t"
      and intent: "t ''intent'' = Some (VStr ''sql'')"
      and approved: "truthy (get t ''approved'')"
      and art: "t ''generated_sql'' = Some (VStr sql)" and ne: "sql \<noteq> []"
      and fresh: "\<not> truthy (get_default t ''should_continue'' (VBool False))"
      and msgs: "t ''messages'' = Some (VList ms)"
      and ag: "agents ''sql_agent'' = sql_node env"
  shows "run_from_agent (Suc fuel) agents ''sql_agent'' t =
           Some (Finished (executed_state env t sql ms), [ExecuteSQL (VStr sql)])"
proof -
  have tr: "SQLAgent_try env t = (executed_state env t sql ms, [ExecuteSQL (VStr sql)], None)"
    using approved art ne run_query_approved [where s = t and ms = ms, OF msgs]
    by (simp add: SQLAgent_try_def get_def get_default_def)
  have node: "sql_node env t = (executed_state env t sql ms, [ExecuteSQL (VStr sql)], None)"
    unfolding sql_node_normal [OF nf] SQLAgent_execute_def Let_def handler_entry [OF nf intent] tr
    by simp
  have route: "route_after_agent (executed_state env t sql ms) = Inr ''end''"
    using approved fresh
    by (auto simp: route_after_agent_def executed_state_def get_def get_default_def
          split: option.splits)
  show ?thesis by (simp add: ag node route)
qed

section \<open>A flagged artifact after a failed attempt\<close>

lemma SQLAgent_execute_fails_once:
  assumes gen: "generate_sql env s = (calls, s, Inl e)"
      and nf: "normal_form s"
      and intent: "s ''intent'' = Some (VStr i)"
      and art: "generates s"
      and rc: "s ''retry_count'' = Some (VInt (int r))"
      and es: "s ''errors'' = Some (VList (map VStr ss))"
      and lt: "r < self_max_retries env"
  shows "SQLAgent_execute env s = (failed_state s (ss @ [exc_str e]) (Suc r), calls, None)"
proof -
  have tr: "SQLAgent_try env s = (s, calls, Some e)"
    using art by (auto simp: SQLAgent_try_def generates_def gen)
  have g: "get_default s ''retry_count'' (VInt 0) = VInt (int r)"
    by (simp add: get_default_def rc)
  show ?thesis
    unfolding SQLAgent_execute_def Let_def handler_entry [OF nf intent] g tr
    by (simp add: SQLAgent_except_under [OF nf es lt])
qed

lemma retry_handler_node_continuing:
  assumes nf: "normal_form s"
      and rc: "s ''retry_count'' = Some (VInt r)" and mr: "s ''max_retries'' = Some (VInt m)"
      and lt: "r < m"
      and sc: "s ''should_continue'' = Some (VBool True)"
  shows "retry_handler_node s = Inr s"
proof -
  have "s(''should_continue'' \<mapsto> VBool True) = s" using sc by (rule fun_upd_idem)
  then show ?thesis
    unfolding retry_handler_node_def Let_def normalize_state_fixed [OF nf]
    using rc mr lt by (simp add: get_default_def py_less2_def)
qed

lemma route_after_agent_approved_continuing:
  assumes "s ''approved'' = Some (VBool True)"
      and "s ''should_continue'' = Some (VBool True)"
      and "s ''retry_count'' = Some (VInt r)" and "s ''max_retries'' = Some (VInt m)"
      and "r < m"
  shows "route_after_agent s = Inr ''retry_handler''"
  using assms by (simp add: route_after_agent_def get_default_def py_less2_def)

lemma route_after_retry_continuing:
  assumes "s ''should_continue'' = Some (VBool True)" and "s ''intent'' = Some (VStr ''sql'')"
  shows "route_after_retry s = ''sql_agent''"
  using assms by (simp add: route_after_retry_def get_default_def get_def)

lemma sql_node_executes_artifact:
  assumes nf: "normal_form t"
      and intent: "t ''intent'' = Some (VStr i)"
      and approved: "t ''approved'' = Some (VBool True)"
      and art: "t ''generated_sql'' = Some (VStr sql)" and ne: "sql \<noteq> []"
      and msgs: "t ''messages'' = Some (VList ms)"
  shows "sql_node env t = (executed_state env t sql ms, [ExecuteSQL (VStr sql)], None)"
proof -
  have tr: "SQLAgent_try env t = (executed_state env t sql ms, [ExecuteSQL (VStr sql)], None)"
    using approved art ne run_query_approved [where s = t and ms = ms, OF msgs]
    by (simp add: SQLAgent_try_def get_def get_default_def)
  show ?thesis
    unfolding sql_node_normal [OF nf] SQLAgent_execute_def Let_def handler_entry [OF nf intent] tr
    by simp
qed

text \<open>
  C4 (approval round trip). The handler returns a flagged artifact without clearing the
  continue signal that an earlier failed attempt has set, and the edge after the handler
  opens the approval gate only when \<open>approved\<close> is not set. So in a run entered with
  \<open>approved = True\<close> (as the user interface enters every run) whose first attempt raises and
  whose retry generates \<open>DROP TABLE users\<close>, the flagged artifact does not end the run: the
  edge leads to the retry handler and back to the SQL handler, which finds \<open>approved\<close> and
  the artifact in the state and executes it, in the same run and without anyone having
  seen it. The backend here raises \<open>boom\<close> for the prompt of the first attempt and answers
  the prompt of the retry, which differs from the first by its list of previous attempts;
  the edge after the execution leads to the retry handler again.
\<close>

theorem flagged_artifact_executed_in_same_run:
  "\<exists>s1 s2 s3.
     sql_node
         \<lparr>llm_router = \<lparr>primary_model = ''gemini-2.5-flash'',
                         fallback_repo_id = ''HuggingFaceH4/zephyr-7b-beta'',
                         enable_fallback = True\<rparr>,
          llm = \<lparr>google_exceptions_loaded = True,
                 primary_invoke =
                   (\<lambda>previous_attempts::bool.
                      if previous_attempts
                      then Inr \<lparr>content = Some (VStr ''DROP TABLE users''),
                               resp_str = ''DROP TABLE users''\<rparr>
                      else Inl (PyExc OtherException ''boom'')),
                 fallback_invoke = (\<lambda>m. Inl (PyExc OtherException ''unavailable''))\<rparr>,
          sql_generation_prompt =
            (\<lambda>st. Inr (case get_default st ''retry_count'' (VInt 0) of
                           VInt n \<Rightarrow> 0 < n | _ \<Rightarrow> False)),
          sqlparse =
            (\<lambda>sql. Inr [[\<lparr>ttype = Some Keyword_DDL, tvalue = ''DROP''\<rparr>,
                          \<lparr>ttype = Some OtherType, tvalue = '' ''\<rparr>,
                          \<lparr>ttype = Some Keyword, tvalue = ''TABLE''\<rparr>,
                          \<lparr>ttype = Some OtherType, tvalue = '' ''\<rparr>,
                          \<lparr>ttype = None, tvalue = ''users''\<rparr>]]),
          py_str = (\<lambda>v. ''?''),
          self_max_retries = 3\<rparr>
         (normalize_state [''user_query'' \<mapsto> VStr ''remove the users table'',
                            ''intent'' \<mapsto> VStr ''sql'', ''approved'' \<mapsto> VBool True]) = (s1, [LLMCall Primary], None)
   \<and> s1 ''execution_status'' = Some (VStr ''failed'')
   \<and> route_after_agent s1 = Inr ''retry_handler''
   \<and> retry_handler_node s1 = Inr s1
   \<and> route_after_retry s1 = ''sql_agent''
   \<and> sql_node
         \<lparr>llm_router = \<lparr>primary_model = ''gemini-2.5-flash'',
                         fallback_repo_id = ''HuggingFaceH4/zephyr-7b-beta'',
                         enable_fallback = True\<rparr>,
          llm = \<lparr>google_exceptions_loaded = True,
                 primary_invoke =
                   (\<lambda>previous_attempts::bool.
                      if previous_attempts
                      then Inr \<lparr>content = Some (VStr ''DROP TABLE users''),
                               resp_str = ''DROP TABLE users''\<rparr>
                      else Inl (PyExc OtherException ''boom'')),
                 fallback_invoke = (\<lambda>m. Inl (PyExc OtherException ''unavailable''))\<rparr>,
          sql_generation_prompt =
            (\<lambda>st. Inr (case get_default st ''retry_count'' (VInt 0) of
                           VInt n \<Rightarrow> 0 < n | _ \<Rightarrow> False)),
          sqlparse =
            (\<lambda>sql. Inr [[\<lparr>ttype = Some Keyword_DDL, tvalue = ''DROP''\<rparr>,
                          \<lparr>ttype = Some OtherType, tvalue = '' ''\<rparr>,
                          \<lparr>ttype = Some Keyword, tvalue = ''TABLE''\<rparr>,
                          \<lparr>ttype = Some OtherType, tvalue = '' ''\<rparr>,
                          \<lparr>ttype = None, tvalue = ''users''\<rparr>]]),
          py_str = (\<lambda>v. ''?''),
          self_max_retries = 3\<rparr>
         s1 = (s2, [LLMCall Primary], None)
   \<and> s2 ''generated_sql'' = Some (VStr ''DROP TABLE users'')
   \<and> s2 ''approval_required'' = Some (VBool True)
   \<and> s2 ''execution_status'' = Some (VStr ''requires_approval'')
   \<and> route_after_agent s2 = Inr ''retry_handler''
   \<and> retry_handler_node s2 = Inr s2
   \<and> route_after_retry s2 = ''sql_agent''
   \<and> sql_node
         \<lparr>llm_router = \<lparr>primary_model = ''gemini-2.5-flash'',
                         fallback_repo_id = ''HuggingFaceH4/zephyr-7b-beta'',
                         enable_fallback = True\<rparr>,
          llm = \<lparr>google_exceptions_loaded = True,
                 primary_invoke =
                   (\<lambda>previous_attempts::bool.
                      if previous_attempts
                      then Inr \<lparr>content = Some (VStr ''DROP TABLE users''),
                               resp_str = ''DROP TABLE users''\<rparr>
                      else Inl (PyExc OtherException ''boom'')),
                 fallback_invoke = (\<lambda>m. Inl (PyExc OtherException ''unavailable''))\<rparr>,
          sql_generation_prompt =
            (\<lambda>st. Inr (case get_default st ''retry_count'' (VInt 0) of
                           VInt n \<Rightarrow> 0 < n | _ \<Rightarrow> False)),
          sqlparse =
            (\<lambda>sql. Inr [[\<lparr>ttype = Some Keyword_DDL, tvalue = ''DROP''\<rparr>,
                          \<lparr>ttype = Some OtherType, tvalue = '' ''\<rparr>,
                          \<lparr>ttype = Some Keyword, tvalue = ''TABLE''\<rparr>,
                          \<lparr>ttype = Some OtherType, tvalue = '' ''\<rparr>,
                          \<lparr>ttype = None, tvalue = ''users''\<rparr>]]),
          py_str = (\<lambda>v. ''?''),
          self_max_retries = 3\<rparr>
         s2 = (s3, [ExecuteSQL (VStr ''DROP TABLE users'')], None)
   \<and> s3 ''execution_status'' = Some (VStr ''completed'')
   \<and> route_after_agent s3 = Inr ''retry_handler''"
proof -
  define env :: "bool sql_env" where "env =
         \<lparr>llm_router = \<lparr>primary_model = ''gemini-2.5-flash'',
                         fallback_repo_id = ''HuggingFaceH4/zephyr-7b-beta'',
                         enable_fallback = True\<rparr>,
          llm = \<lparr>google_exceptions_loaded = True,
                 primary_invoke =
                   (\<lambda>previous_attempts::bool.
                      if previous_attempts
                      then Inr \<lparr>content = Some (VStr ''DROP TABLE users''),
                               resp_str = ''DROP TABLE users''\<rparr>
                      else Inl (PyExc OtherException ''boom'')),
                 fallback_invoke = (\<lambda>m. Inl (PyExc OtherException ''unavailable''))\<rparr>,
          sql_generation_prompt =
            (\<lambda>st. Inr (case get_default st ''retry_count'' (VInt 0) of
                           VInt n \<Rightarrow> 0 < n | _ \<Rightarrow> False)),
          sqlparse =
            (\<lambda>sql. Inr [[\<lparr>ttype = Some Keyword_DDL, tvalue = ''DROP''\<rparr>,
                          \<lparr>ttype = Some OtherType, tvalue = '' ''\<rparr>,
                          \<lparr>ttype = Some Keyword, tvalue = ''TABLE''\<rparr>,
                          \<lparr>ttype = Some OtherType, tvalue = '' ''\<rparr>,
                          \<lparr>ttype = None, tvalue = ''users''\<rparr>]]),
          py_str = (\<lambda>v. ''?''),
          self_max_retries = 3\<rparr>"
  define s0 where "s0 =
         (normalize_state [''user_query'' \<mapsto> VStr ''remove the users table'',
                            ''intent'' \<mapsto> VStr ''sql'', ''approved'' \<mapsto> VBool True])"
  define s1 where "s1 = failed_state s0 [''boom''] 1"
  define g where "g = s1(''model_used'' \<mapsto> VStr ''gemini-2.5-flash'', ''fallback_reason'' \<mapsto> VNone)"
  define v where "v = SQLValidator_validate (sqlparse env) ''DROP TABLE users''"
  define s2 where "s2 = flagged_state g ''DROP TABLE users'' v"
  define s3 where "s3 = executed_state env s2 ''DROP TABLE users'' []"
  have nf0: "normal_form s0" by (simp add: s0_def normalize_state_normal_form)
  have f0: "s0 ''intent'' = Some (VStr ''sql'')" "s0 ''approved'' = Some (VBool True)"
    "s0 ''generated_sql'' = Some VNone" "s0 ''retry_count'' = Some (VInt 0)"
    "s0 ''max_retries'' = Some (VInt 3)" "s0 ''errors'' = Some (VList [])"
    "s0 ''approval_required'' = Some (VBool False)" "s0 ''messages'' = Some (VList [])"
    by (simp_all add: s0_def normalize_state_intent normalize_state_approved
          normalize_state_generated_sql normalize_state_retry_count normalize_state_max_retries
          normalize_state_errors normalize_state_approval_required normalize_state_messages)
  have art0: "generates s0" by (simp add: generates_def get_def get_default_def f0)
  have gc0: "gate_closed s0" by (simp add: gate_closed_def get_default_def f0)
  have gen0: "generate_sql env s0 = ([LLMCall Primary], s0, Inl (PyExc OtherException ''boom''))"
    by (rule generate_sql_primary_raises [where m = False])
       (simp_all add: env_def get_default_def f0 boom_not_quota)
  have ex0: "SQLAgent_execute env s0 = (s1, [LLMCall Primary], None)"
    using SQLAgent_execute_fails_once [where r = 0 and ss = "[]", OF gen0 nf0 f0(1) art0]
    by (simp add: f0 env_def s1_def)
  have node0: "sql_node env s0 = (s1, [LLMCall Primary], None)"
    using ex0 by (simp add: sql_node_normal [OF nf0])
  have nf1: "normal_form s1" unfolding s1_def using nf0 by (rule normal_form_failed_state)
  have f1: "s1 ''intent'' = Some (VStr ''sql'')" "s1 ''approved'' = Some (VBool True)"
    "s1 ''generated_sql'' = Some VNone" "s1 ''retry_count'' = Some (VInt 1)"
    "s1 ''max_retries'' = Some (VInt 3)" "s1 ''should_continue'' = Some (VBool True)"
    "s1 ''execution_status'' = Some (VStr ''failed'')" "s1 ''messages'' = Some (VList [])"
    by (simp_all add: s1_def failed_state_def f0)
  have r1: "route_after_agent s1 = Inr ''retry_handler''"
    by (rule route_after_agent_approved_continuing [OF f1(2) f1(6) f1(4) f1(5)]) simp
  have h1: "retry_handler_node s1 = Inr s1"
    by (rule retry_handler_node_continuing [OF nf1 f1(4) f1(5) _ f1(6)]) simp
  have e1: "route_after_retry s1 = ''sql_agent''"
    by (rule route_after_retry_continuing [OF f1(6) f1(1)])
  have art1: "generates s1" by (simp add: generates_def get_def get_default_def f1)
  have su: "strip (remove_fence [CHR 0x60, CHR 0x60, CHR 0x60]
              (remove_fence ([CHR 0x60, CHR 0x60, CHR 0x60] @ ''sql'') ''DROP TABLE users''))
            = ''DROP TABLE users''"
    by (simp add: strip_def is_space_def)
  have gen1: "generate_sql env s1 = ([LLMCall Primary], g, Inr ''DROP TABLE users'')"
    using su
    by (simp add: generate_sql_def LLMRouter_invoke_def state_of_def env_def get_default_def
          f1 g_def)
  have up: "strip (upper ''DROP TABLE users'') = ''DROP TABLE USERS''"
    by (simp add: upper_def upper_char_def strip_def is_space_def)
  have pp: "pattern_pass DANGEROUS_PATTERNS ''DROP TABLE USERS'' ([], ''low'') =
              ([''Potentially dangerous: DROP TABLE operations''], ''high'')"
    by (simp add: DANGEROUS_PATTERNS_def lits_def re_search_def is_space_def lower_char_def
          word_before_def word_after_def is_word_char_def)
  have req: "v_requires_approval (SQLValidator_validate (sqlparse env) ''DROP TABLE users'')"
    unfolding SQLValidator_validate_def up Let_def pp
    by (simp add: env_def dangerous_keywords_def upper_def upper_char_def count_char_def)
  have ex1: "SQLAgent_execute env s1 = (s2, [LLMCall Primary], None)"
    using SQLAgent_execute_flagged [OF gen1 req nf1 f1(1) art1] by (simp add: s2_def v_def)
  have node1: "sql_node env s1 = (s2, [LLMCall Primary], None)"
    using ex1 by (simp add: sql_node_normal [OF nf1])
  have nfg: "normal_form g" unfolding g_def using nf1 by (rule normal_form_router_upd)
  have nf2: "normal_form s2" unfolding s2_def using nfg by (rule normal_form_flagged_state)
  have f2: "s2 ''intent'' = Some (VStr ''sql'')" "s2 ''approved'' = Some (VBool True)"
    "s2 ''generated_sql'' = Some (VStr ''DROP TABLE users'')" "s2 ''retry_count'' = Some (VInt 1)"
    "s2 ''max_retries'' = Some (VInt 3)" "s2 ''should_continue'' = Some (VBool True)"
    "s2 ''execution_status'' = Some (VStr ''requires_approval'')"
    "s2 ''messages'' = Some (VList [])" "s2 ''approval_required'' = Some (VBool True)"
    by (simp_all add: s2_def flagged_state_def g_def f1)
  have r2: "route_after_agent s2 = Inr ''retry_handler''"
    by (rule route_after_agent_approved_continuing [OF f2(2) f2(6) f2(4) f2(5)]) simp
  have h2: "retry_handler_node s2 = Inr s2"
    by (rule retry_handler_node_continuing [OF nf2 f2(4) f2(5) _ f2(6)]) simp
  have e2: "route_after_retry s2 = ''sql_agent''"
    by (rule route_after_retry_continuing [OF f2(6) f2(1)])
  have node2: "sql_node env s2 = (s3, [ExecuteSQL (VStr ''DROP TABLE users'')], None)"
    unfolding s3_def
    by (rule sql_node_executes_artifact [OF nf2 f2(1) f2(2) f2(3) _ f2(8)]) simp
  have f3: "s3 ''approved'' = Some (VBool True)" "s3 ''retry_count'' = Some (VInt 1)"
    "s3 ''max_retries'' = Some (VInt 3)" "s3 ''should_continue'' = Some (VBool True)"
    "s3 ''execution_status'' = Some (VStr ''completed'')"
    by (simp_all add: s3_def executed_state_def f2)
  have r3: "route_after_agent s3 = Inr ''retry_handler''"
    by (rule route_after_agent_approved_continuing [OF f3(1) f3(4) f3(2) f3(3)]) simp
  from node0 f1(7) r1 h1 e1 node1 f2(3) f2(9) f2(7) r2 h2 e2 node2 f3(5) r3
  show ?thesis
    unfolding env_def [symmetric] s0_def [symmetric] by blast
qed

theorem flagged_artifact_executed_in_same_run_witness:
  "\<exists>s t. s ''approval_required'' = Some (VBool True)
        \<and> s ''execution_status'' = Some (VStr ''requires_approval'')
        \<and> route_after_agent s = Inr ''retry_handler''
        \<and> sql_node
             \<lparr>llm_router = \<lparr>primary_model = ''gemini-2.5-flash'',
                         fallback_repo_id = ''HuggingFaceH4/zephyr-7b-beta'',
                         enable_fallback = True\<rparr>,
          llm = \<lparr>google_exceptions_loaded = True,
                 primary_invoke =
                   (\<lambda>previous_attempts::bool.
                      if previous_attempts
                      then Inr \<lparr>content = Some (VStr ''DROP TABLE users''),
                               resp_str = ''DROP TABLE users''\<rparr>
                      else Inl (PyExc OtherException ''boom'')),
                 fallback_invoke = (\<lambda>m. Inl (PyExc OtherException ''unavailable''))\<rparr>,
          sql_generation_prompt =
            (\<lambda>st. Inr (case get_default st ''retry_count'' (VInt 0) of
                           VInt n \<Rightarrow> 0 < n | _ \<Rightarrow> False)),
          sqlparse =
            (\<lambda>sql. Inr [[\<lparr>ttype = Some Keyword_DDL, tvalue = ''DROP''\<rparr>,
                          \<lparr>ttype = Some OtherType, tvalue = '' ''\<rparr>,
                          \<lparr>ttype = Some Keyword, tvalue = ''TABLE''\<rparr>,
                          \<lparr>ttype = Some OtherType, tvalue = '' ''\<rparr>,
                          \<lparr>ttype = None, tvalue = ''users''\<rparr>]]),
          py_str = (\<lambda>v. ''?''),
          self_max_retries = 3\<rparr>
             s = (t, [ExecuteSQL (VStr ''DROP TABLE users'')], None)"
  using flagged_artifact_executed_in_same_run by blast
section \<open>The multi-statement check of the SQL validator\<close>

text \<open>What the check does establish: two or more semicolons are flagged, whatever the parser.\<close>

lemma SQLValidator_validate_two_semicolons:
  assumes "count_char sql CHR '';'' > 1"
  shows "v_risk_level (SQLValidator_validate parser sql) = ''high''
         \<and> ''Multiple statements detected'' \<in> set (v_issues (SQLValidator_validate parser sql))
         \<and> v_requires_approval (SQLValidator_validate parser sql)"
  using assms by (simp add: SQLValidator_validate_def Let_def split: prod.splits)

text \<open>
  C7 (multi-statement input is high risk). The check is \<open>sql.count(';') > 1\<close>, so two
  statements separated by one semicolon pass it; no other rule covers them. For
  \<open>SELECT 1; SELECT 2\<close> (which \<open>sqlparse\<close> splits into two statements whose \<open>SELECT\<close> tokens
  have type \<open>Keyword.DML\<close>) the validator answers safe, low risk, no issue, no approval.
\<close>

theorem SQLValidator_validate_misses_second_statement:
  "SQLValidator_validate
     (\<lambda>sql. Inr [[\<lparr>ttype = Some Keyword_DML, tvalue = ''SELECT''\<rparr>,
                   \<lparr>ttype = Some OtherType, tvalue = '' ''\<rparr>,
                   \<lparr>ttype = Some OtherType, tvalue = ''1''\<rparr>,
                   \<lparr>ttype = Some OtherType, tvalue = '';''\<rparr>],
                  [\<lparr>ttype = Some OtherType, tvalue = '' ''\<rparr>,
                   \<lparr>ttype = Some Keyword_DML, tvalue = ''SELECT''\<rparr>,
                   \<lparr>ttype = Some OtherType, tvalue = '' ''\<rparr>,
                   \<lparr>ttype = Some OtherType, tvalue = ''2''\<rparr>]])
     ''SELECT 1; SELECT 2''
   = \<lparr>v_is_safe = True, v_risk_level = ''low'', v_issues = [], v_requires_approval = False\<rparr>"
proof -
  have su: "strip (upper ''SELECT 1; SELECT 2'') = ''SELECT 1; SELECT 2''"
    by (simp add: upper_def upper_char_def strip_def is_space_def)
  have pp: "pattern_pass DANGEROUS_PATTERNS ''SELECT 1; SELECT 2'' ([], ''low'') = ([], ''low'')"
    by (simp add: DANGEROUS_PATTERNS_def lits_def re_search_def is_space_def lower_char_def
          word_before_def word_after_def is_word_char_def)
  have sp: "list_ex (\<lambda>pattern. re_search pattern ''SELECT 1; SELECT 2'') SAFE_PATTERNS"
    by (simp add: SAFE_PATTERNS_def lits_def re_search_def is_space_def lower_char_def
          word_before_def word_after_def is_word_char_def)
  show ?thesis
    unfolding SQLValidator_validate_def su Let_def pp
    using sp by (simp add: count_char_def ast_has_select_def upper_def upper_char_def)
qed

section \<open>Properties of the classifier\<close>

lemma normalize_state_user_query:
  "normalize_state s ''user_query'' = Some (case s ''user_query'' of None \<Rightarrow> VStr [] | Some v \<Rightarrow> v)"
  unfolding normalize_state_def Let_def by (simp add: normalize_at split: option.splits)

lemma normalize_state_uploaded_docs:
  "normalize_state s ''uploaded_docs'' =
     Some (case s ''uploaded_docs'' of Some (VList xs) \<Rightarrow> VList xs | _ \<Rightarrow> VList [])"
  unfolding normalize_state_def Let_def by (simp add: normalize_at split: option.splits pyval.splits)

lemma normalize_state_workspace_documents:
  "normalize_state s ''workspace_documents'' =
     Some (case s ''workspace_documents'' of Some (VList xs) \<Rightarrow> VList xs | _ \<Rightarrow> VList [])"
  unfolding normalize_state_def Let_def by (simp add: normalize_at split: option.splits pyval.splits)

lemma normalize_state_conversation_turn:
  "normalize_state s ''conversation_turn'' =
     Some (case s ''conversation_turn'' of None \<Rightarrow> VInt 0 | Some v \<Rightarrow> v)"
  unfolding normalize_state_def Let_def by (simp add: normalize_at split: option.splits)

text \<open>Every exit of \<open>classify\<close> that does not raise leaves a label of the closed set.\<close>

lemma set_unknown_label: "set_unknown s r = (s', None) \<Longrightarrow> valid_label s'"
  by (auto simp: set_unknown_def Let_def valid_label_def valid_intents_def all_intents_def
        split: sum.splits)

lemma set_unknown_confidence:
  "set_unknown s r = (s', None) \<Longrightarrow> s' ''intent_confidence'' = Some (VFloat 0)"
  by (auto simp: set_unknown_def Let_def split: sum.splits)

lemma record_failure_label: "record_failure s e r = (s', None) \<Longrightarrow> valid_label s'"
  by (auto simp: record_failure_def split: sum.splits dest: set_unknown_label)

lemma classify_parsed_label: "classify_parsed env s p = (s', None) \<Longrightarrow> valid_label s'"
  by (cases p)
     (auto simp: classify_parsed_def Let_def valid_label_def valid_intents_def all_intents_def
        split: sum.splits pyval.splits if_splits)

lemma classify_label:
  assumes "classify env s = (s', None)"
  shows "valid_label s'"
  using assms
  by (auto simp: classify_def Let_def
        split: sum.splits prod.splits if_splits option.splits pyval.splits
        dest: set_unknown_label record_failure_label classify_parsed_label)

lemma classify_parses_response:
  assumes nf: "normal_form s"
      and intent: "s ''intent'' = Some (VStr i)"
      and docs: "s ''uploaded_docs'' = Some (VList [])" "s ''workspace_documents'' = Some (VList [])"
      and query: "s ''user_query'' = Some (VStr q)" "q \<noteq> []"
      and prompt: "\<And>h c. format_messages env (VStr q) h c = Inr m"
      and resp: "primary_invoke (ir_llm env) m = Inr \<lparr>content = Some (VStr body), resp_str = body\<rparr>"
      and parse: "json_parse env body = Inr parsed"
  shows "classify env s =
           classify_parsed env
             (s(''model_used'' \<mapsto> VStr (primary_model (ir_llm_router env)),
                ''fallback_reason'' \<mapsto> VNone))
             parsed"
proof -
  have pre: "ensure_intent (ensure_errors (ensure_metadata s)) = s"
    using nf intent by (simp add: ensure_metadata_id ensure_errors_id ensure_intent_id)
  have ctx: "context_info_of (get_default s ''uploaded_docs'' (VList []))
               (get_default s ''workspace_documents'' (VList [])) =
             Inr (''No documents uploaded'' @ '' | '' @
                  ''Research tool: DuckDuckGo search available'')"
    using docs by (simp add: context_info_of_def get_default_def)
  have inv: "LLMRouter_invoke (ir_llm_router env) (ir_llm env) m (Some s) =
               ([Primary],
                Some (s(''model_used'' \<mapsto> VStr (primary_model (ir_llm_router env)),
                        ''fallback_reason'' \<mapsto> VNone)),
                Inr \<lparr>content = Some (VStr body), resp_str = body\<rparr>)"
    using resp by (simp add: LLMRouter_invoke_def)
  have q: "get_default s ''user_query'' (VStr '''') = VStr q"
    using query by (simp add: get_default_def)
  show ?thesis
    unfolding classify_def Let_def pre ctx q
    using query(2) by (simp add: prompt inv state_of_def parse)
qed

lemma classify_parsed_unhashable:
  assumes "dict_get d ''intent'' = Some (VList (x # xs))"
  shows "classify_parsed env st (VDict d) =
           (st, Some (PyExc TypeError (''unhashable type: '' @ [CHR 0x27] @ ''list'' @ [CHR 0x27])))"
  using assms by (simp add: classify_parsed_def dict_get_default_def Let_def)

lemma classify_parsed_stores:
  assumes "dict_get d ''intent'' = Some (VStr i)" "i \<noteq> []" "i \<in> set valid_intents"
      and "py_float (float_of_str env) (dict_get_default d ''confidence'' (VFloat 0.5)) = Some r"
      and "st ''metadata'' = Some (VDict md)"
  shows "\<exists>st'. classify_parsed env st (VDict d) = (st', None)
              \<and> st' ''intent'' = Some (VStr i) \<and> st' ''intent_confidence'' = Some (VFloat r)"
  using assms by (simp add: classify_parsed_def dict_get_default_def get_default_def Let_def)

section \<open>The classify-intent node\<close>

lemma classifier_touched_refl: "classifier_touched s s"
  by (simp add: classifier_touched_def)

lemma classifier_touched_trans:
  "classifier_touched s t \<Longrightarrow> classifier_touched t u \<Longrightarrow> classifier_touched s u"
  by (simp add: classifier_touched_def)

lemma router_touched_classifier: "router_touched s t \<Longrightarrow> classifier_touched s t"
  by (auto simp: router_touched_def classifier_touched_def router_keys_def classifier_keys_def)

lemma classifier_touched_upd:
  assumes "k \<in> classifier_keys"
      and "k \<in> set checked_list_keys \<Longrightarrow> is_list v"
      and "k \<in> set dict_keys \<Longrightarrow> is_dict v"
  shows "classifier_touched s (s(k \<mapsto> v))"
  unfolding classifier_touched_def
proof (intro conjI allI impI)
  fix k' assume "k' \<notin> classifier_keys"
  with assms(1) have "k' \<noteq> k" by blast
  then show "(s(k \<mapsto> v)) k' = s k'" by simp
next
  assume "normal_form s"
  then show "normal_form (s(k \<mapsto> v))" using assms(2,3) by (rule normal_form_upd)
qed

lemma classifier_touched_intent:
  "classifier_touched s (s(''intent'' \<mapsto> a, ''intent_confidence'' \<mapsto> b))"
  by (intro classifier_touched_trans [OF classifier_touched_upd classifier_touched_upd])
     (simp_all add: classifier_keys_def checked_list_keys_def dict_keys_def)

lemma classifier_touched_metadata:
  "is_dict md \<Longrightarrow> classifier_touched s (s(''metadata'' \<mapsto> md))"
  by (intro classifier_touched_upd)
     (simp_all add: classifier_keys_def checked_list_keys_def dict_keys_def)

lemma classifier_touched_errors:
  "classifier_touched s (s(''errors'' \<mapsto> VList xs))"
  by (intro classifier_touched_upd)
     (simp_all add: classifier_keys_def checked_list_keys_def dict_keys_def)

lemma ensure_metadata_touched: "classifier_touched s (ensure_metadata s)"
  by (simp add: ensure_metadata_def classifier_touched_refl classifier_touched_metadata)

lemma ensure_errors_touched: "classifier_touched s (ensure_errors s)"
  by (simp add: ensure_errors_def classifier_touched_refl classifier_touched_errors)

lemma ensure_intent_touched: "classifier_touched s (ensure_intent s)"
  by (simp add: ensure_intent_def classifier_touched_refl classifier_touched_intent)

lemma ensure_all_touched:
  "classifier_touched s (ensure_intent (ensure_errors (ensure_metadata s)))"
  by (rule classifier_touched_trans [OF ensure_metadata_touched
        classifier_touched_trans [OF ensure_errors_touched ensure_intent_touched]])

lemma set_unknown_touched: "classifier_touched s (fst (set_unknown s r))"
proof -
  let ?t = "s(''intent'' \<mapsto> VStr (Intent_value UNKNOWN), ''intent_confidence'' \<mapsto> VFloat 0)"
  have a: "classifier_touched s ?t" by (rule classifier_touched_intent)
  show ?thesis
  proof (cases "setitem (get_default ?t ''metadata'' (VDict [])) ''intent_reasoning'' (VStr r)")
    case (Inl e)
    then have "fst (set_unknown s r) = ?t" by (simp add: set_unknown_def Let_def)
    with a show ?thesis by simp
  next
    case (Inr md)
    then have "fst (set_unknown s r) = ?t(''metadata'' \<mapsto> md)"
      by (simp add: set_unknown_def Let_def)
    moreover have "classifier_touched ?t (?t(''metadata'' \<mapsto> md))"
      using setitem_dict [OF Inr] by (rule classifier_touched_metadata)
    ultimately show ?thesis using classifier_touched_trans [OF a] by simp
  qed
qed

lemma list_append_errors_touched:
  "list_append s ''errors'' x = Inr t \<Longrightarrow> classifier_touched s t"
  by (auto simp: list_append_def classifier_touched_errors split: option.splits pyval.splits)

lemma record_failure_touched: "classifier_touched s (fst (record_failure s e r))"
proof (cases "list_append s ''errors'' (VStr e)")
  case (Inl x)
  then show ?thesis by (simp add: record_failure_def classifier_touched_refl)
next
  case (Inr t)
  then have "fst (record_failure s e r) = fst (set_unknown t r)"
    by (simp add: record_failure_def)
  then show ?thesis
    using classifier_touched_trans [OF list_append_errors_touched [OF Inr] set_unknown_touched [of t r]]
    by simp
qed

lemma classifier_touched_intent_md:
  "is_dict md \<Longrightarrow>
   classifier_touched s (s(''intent'' \<mapsto> a, ''intent_confidence'' \<mapsto> b, ''metadata'' \<mapsto> md))"
  by (rule classifier_touched_trans [OF classifier_touched_intent classifier_touched_metadata])

lemma touched_setitem:
  assumes "classifier_touched s t"
      and "\<And>md. is_dict md \<Longrightarrow> classifier_touched s (t' md)"
  shows "classifier_touched s
           (fst (case setitem x k v of Inl e \<Rightarrow> (t, Some e) | Inr md \<Rightarrow> (t' md, None)))"
proof (cases "setitem x k v")
  case (Inl e)
  with assms(1) show ?thesis by simp
next
  case (Inr md)
  with assms(2) [OF setitem_dict [OF Inr]] show ?thesis by simp
qed

lemma classify_parsed_touched: "classifier_touched s (fst (classify_parsed env s p))"
proof (cases p)
  case (VDict d)
  show ?thesis
    unfolding VDict classify_parsed_def Let_def
    by (auto simp: classifier_touched_refl split: pyval.splits
          intro!: touched_setitem classifier_touched_intent classifier_touched_intent_md)
qed (simp_all add: classify_parsed_def classifier_touched_refl)

lemma LLMRouter_invoke_touched:
  assumes "LLMRouter_invoke r b m (Some s) = (calls, st, x)"
  shows "classifier_touched s (state_of st s)"
proof -
  from LLMRouter_invoke_state [of r b m s] assms
  obtain s' where "st = Some s'" "router_touched s s'" by auto
  then show ?thesis by (simp add: state_of_def router_touched_classifier)
qed

lemma classify_tail_touched:
  "classifier_touched s
     (fst (case LLMRouter_invoke r b m (Some s) of
             (calls, st, Inl e) \<Rightarrow> record_failure (state_of st s) (f e) (g e)
           | (calls, st, Inr response) \<Rightarrow>
               (case content response of
                  Some (VStr body) \<Rightarrow>
                    (case json_parse env body of
                       Inl e \<Rightarrow> set_unknown (state_of st s) (h e)
                     | Inr parsed \<Rightarrow> classify_parsed env (state_of st s) parsed)
                | _ \<Rightarrow> set_unknown (state_of st s) d)))"
proof -
  obtain calls st x where inv: "LLMRouter_invoke r b m (Some s) = (calls, st, x)"
    by (cases "LLMRouter_invoke r b m (Some s)") auto
  note a = LLMRouter_invoke_touched [OF inv]
  have "classifier_touched (state_of st s)
          (fst (case x of
                  Inl e \<Rightarrow> record_failure (state_of st s) (f e) (g e)
                | Inr response \<Rightarrow>
                    (case content response of
                       Some (VStr body) \<Rightarrow>
                         (case json_parse env body of
                            Inl e \<Rightarrow> set_unknown (state_of st s) (h e)
                          | Inr parsed \<Rightarrow> classify_parsed env (state_of st s) parsed)
                     | _ \<Rightarrow> set_unknown (state_of st s) d)))"
    by (simp add: record_failure_touched set_unknown_touched classify_parsed_touched
          split: sum.splits option.splits pyval.splits)
  with a show ?thesis unfolding inv by (simp add: classifier_touched_trans)
qed

lemma classify_touched: "classifier_touched s (fst (classify env s))"
proof -
  define s1 where "s1 = ensure_intent (ensure_errors (ensure_metadata s))"
  have a: "classifier_touched s s1" unfolding s1_def by (rule ensure_all_touched)
  have "classifier_touched s1 (fst (classify env s))"
    unfolding classify_def Let_def s1_def [symmetric]
    by (simp add: classifier_touched_refl record_failure_touched set_unknown_touched
          classify_tail_touched split: sum.splits)
  with a show ?thesis by (rule classifier_touched_trans)
qed

lemma should_append_of_typed:
  assumes "list_all is_dict ms"
  shows "should_append_of (VList ms) (VStr q) = Inr (\<not> ends_with_user_message ms q)"
proof (cases "ms = []")
  case True
  then show ?thesis by (simp add: should_append_of_def ends_with_user_message_def)
next
  case False
  then have "last ms \<in> set ms" by simp
  with assms have "is_dict (last ms)" by (simp add: list_all_iff)
  then obtain d where d: "last ms = VDict d" by (cases "last ms") auto
  have "\<And>k x. (dict_get_default d k VNone = VStr x) = (dict_get d k = Some (VStr x))"
    by (simp add: dict_get_default_def split: option.splits)
  with False d show ?thesis
    by (simp add: should_append_of_def ends_with_user_message_def)
qed

lemma touched_keeps:
  assumes "classifier_touched s t" "k \<notin> classifier_keys"
  shows "t k = s k"
  using assms by (simp add: classifier_touched_def)

lemma touched_normal: "classifier_touched s t \<Longrightarrow> normal_form s \<Longrightarrow> normal_form t"
  by (simp add: classifier_touched_def)

lemma classify_guarded:
  assumes nf: "normal_form s"
  shows "\<exists>s'. (case classify env s of
                 (state, None) \<Rightarrow> Inr state
               | (state, Some e) \<Rightarrow>
                   (case list_append state ''errors'' (VStr (f e)) of
                      Inl e' \<Rightarrow> Inl e'
                    | Inr state \<Rightarrow>
                        Inr (state(''intent'' \<mapsto> VStr (Intent_value UNKNOWN),
                                   ''intent_confidence'' \<mapsto> VFloat 0)))) = Inr s'
              \<and> classifier_touched s s'"
proof -
  obtain t r where c: "classify env s = (t, r)" by (cases "classify env s") auto
  have a: "classifier_touched s t" using classify_touched [of s env] c by simp
  show ?thesis
  proof (cases r)
    case None
    with c a show ?thesis by simp
  next
    case (Some e)
    from a nf have "normal_form t" by (rule touched_normal)
    then obtain es where es: "t ''errors'' = Some (VList es)"
      using normal_form_list [of t "''errors''"] by (auto simp: checked_list_keys_def)
    let ?u = "t(''errors'' \<mapsto> VList (es @ [VStr (f e)]))"
    have la: "list_append t ''errors'' (VStr (f e)) = Inr ?u"
      using es by (simp add: list_append_def)
    have "classifier_touched t ?u" by (rule classifier_touched_errors)
    with a have "classifier_touched s ?u" by (rule classifier_touched_trans)
    then have "classifier_touched s (?u(''intent'' \<mapsto> VStr (Intent_value UNKNOWN),
                                        ''intent_confidence'' \<mapsto> VFloat 0))"
      using classifier_touched_intent classifier_touched_trans by blast
    with c Some la show ?thesis by simp
  qed
qed

lemma classify_intent_node_step:
  assumes q: "normalize_state s0 ''user_query'' = Some (VStr q)"
      and ms: "normalize_state s0 ''messages'' = Some (VList ms)"
      and typed: "list_all is_dict ms"
      and c: "normalize_state s0 ''conversation_turn'' = Some (VInt c)"
  shows "\<exists>s'. classify_intent_node env s0 = Inr s' \<and> normal_form s'
           \<and> s' ''user_query'' = Some (VStr q)
           \<and> (if ends_with_user_message ms q
               then s' ''messages'' = Some (VList ms) \<and> s' ''conversation_turn'' = Some (VInt c)
               else s' ''messages'' =
                      Some (VList (ms @ [user_message (ir_py_str env) (VStr q)
                                           (get (normalize_state s0) ''session_id'')
                                           (VInt (c + 1))]))
                    \<and> s' ''conversation_turn'' = Some (VInt (c + 1)))"
proof -
  define n where "n = normalize_state s0"
  define st where "st = ensure_intent (ensure_errors (ensure_metadata n))"
  define msg where "msg = user_message (ir_py_str env) (VStr q) (get n ''session_id'') (VInt (c + 1))"
  define st2 where "st2 = (if ends_with_user_message ms q then st
                           else st(''conversation_turn'' \<mapsto> VInt (c + 1),
                                   ''messages'' \<mapsto> VList (ms @ [msg])))"
  have nf: "normal_form n" unfolding n_def by (rule normalize_state_normal_form)
  have t: "classifier_touched n st" unfolding st_def by (rule ensure_all_touched)
  have nf_st: "normal_form st" using t nf by (rule touched_normal)
  have keep: "st ''user_query'' = n ''user_query''" "st ''messages'' = n ''messages''"
    "st ''conversation_turn'' = n ''conversation_turn''" "st ''session_id'' = n ''session_id''"
    by (rule touched_keeps [OF t], simp add: classifier_keys_def)+
  have st_q: "st ''user_query'' = Some (VStr q)" using keep q by (simp add: n_def)
  have st_ms: "st ''messages'' = Some (VList ms)" using keep ms by (simp add: n_def)
  have st_c: "st ''conversation_turn'' = Some (VInt c)" using keep c by (simp add: n_def)
  have g1: "get st ''user_query'' = VStr q" using st_q by (simp add: get_def get_default_def)
  have g2: "get_default st ''messages'' (VList []) = VList ms"
    using st_ms by (simp add: get_default_def)
  have g3: "get st ''session_id'' = get n ''session_id''"
    using keep(4) by (simp add: get_def get_default_def)
  have sa: "should_append_of (VList ms) (VStr q) = Inr (\<not> ends_with_user_message ms q)"
    using typed by (rule should_append_of_typed)
  have app: "\<not> ends_with_user_message ms q \<Longrightarrow>
             append_user_message (ir_py_str env) st (VStr q) = Inr st2"
    using st_c st_ms
    by (simp add: append_user_message_def get_def get_default_def Let_def list_append_def
          keep(4) st2_def msg_def)
  have nf2: "normal_form st2"
    unfolding st2_def using nf_st
    by (auto intro!: normal_form_upd simp: checked_list_keys_def dict_keys_def)
  from classify_guarded [OF nf2, where env = env
         and f = "\<lambda>e. ''Intent classification error: '' @ exc_str e"]
  obtain s' where
    res: "(case classify env st2 of
             (state, None) \<Rightarrow> Inr state
           | (state, Some e) \<Rightarrow>
               (case list_append state ''errors''
                       (VStr (''Intent classification error: '' @ exc_str e)) of
                  Inl e' \<Rightarrow> Inl e'
                | Inr state \<Rightarrow>
                    Inr (state(''intent'' \<mapsto> VStr (Intent_value UNKNOWN),
                               ''intent_confidence'' \<mapsto> VFloat 0)))) = Inr s'"
    and t2: "classifier_touched st2 s'"
    by auto
  have node: "classify_intent_node env s0 = Inr s'"
  proof (cases "ends_with_user_message ms q")
    case True
    then have eq: "st2 = st" by (simp add: st2_def)
    show ?thesis
      unfolding classify_intent_node_def Let_def n_def [symmetric] st_def [symmetric] g1 g2 sa
      using res by (simp only: True eq sum.case simp_thms if_False if_True)
  next
    case False
    show ?thesis
      unfolding classify_intent_node_def Let_def n_def [symmetric] st_def [symmetric] g1 g2 sa
      using res by (simp only: False app [OF False] sum.case simp_thms if_False if_True)
  qed
  have keep2: "s' ''user_query'' = st2 ''user_query''" "s' ''messages'' = st2 ''messages''"
    "s' ''conversation_turn'' = st2 ''conversation_turn''"
    by (rule touched_keeps [OF t2], simp add: classifier_keys_def)+
  have "normal_form s'" using t2 nf2 by (rule touched_normal)
  moreover have "s' ''user_query'' = Some (VStr q)" using keep2 st_q by (simp add: st2_def)
  moreover have "if ends_with_user_message ms q
               then s' ''messages'' = Some (VList ms) \<and> s' ''conversation_turn'' = Some (VInt c)
               else s' ''messages'' = Some (VList (ms @ [msg]))
                    \<and> s' ''conversation_turn'' = Some (VInt (c + 1))"
    using keep2 st_ms st_c by (simp add: st2_def)
  ultimately show ?thesis using node unfolding msg_def n_def by blast
qed

lemma normalize_state_session_id:
  "normalize_state s ''session_id'' = Some (case s ''session_id'' of None \<Rightarrow> VStr [] | Some v \<Rightarrow> v)"
  unfolding normalize_state_def Let_def by (simp add: normalize_at split: option.splits)

lemma ends_with_user_message_snoc:
  "ends_with_user_message (ms @ [user_message str (VStr q) sid turn]) q"
  by (simp add: ends_with_user_message_def user_message_def)

text \<open>
  C10 (the classify-intent node appends the user's query idempotently). For a typed input
  (after normalization the query is a string \<open>q\<close>, the messages are dictionaries \<open>ms\<close> and the
  turn is an integer \<open>c\<close>) the node returns, whatever the classifier and its backends do. If
  the last message is a user message with content \<open>q\<close>, the messages and the turn are
  unchanged; otherwise exactly one user message is appended and the turn is \<open>c + 1\<close>. A
  second run of the node on the result, with any classifier, changes neither.
\<close>

theorem classify_intent_node_appends_once:
  assumes "normalize_state s0 ''user_query'' = Some (VStr q)"
      and "normalize_state s0 ''messages'' = Some (VList ms)"
      and "list_all is_dict ms"
      and "normalize_state s0 ''conversation_turn'' = Some (VInt c)"
  shows "\<exists>s'. classify_intent_node env s0 = Inr s'
           \<and> (if ends_with_user_message ms q
               then s' ''messages'' = Some (VList ms) \<and> s' ''conversation_turn'' = Some (VInt c)
               else s' ''messages'' =
                      Some (VList (ms @ [user_message (ir_py_str env) (VStr q)
                                           (get (normalize_state s0) ''session_id'')
                                           (VInt (c + 1))]))
                    \<and> s' ''conversation_turn'' = Some (VInt (c + 1)))
           \<and> (\<exists>s''. classify_intent_node env_b s' = Inr s''
                  \<and> s'' ''messages'' = s' ''messages''
                  \<and> s'' ''conversation_turn'' = s' ''conversation_turn'')"
proof -
  define msg where "msg = user_message (ir_py_str env) (VStr q)
                            (get (normalize_state s0) ''session_id'') (VInt (c + 1))"
  define ms' where "ms' = (if ends_with_user_message ms q then ms else ms @ [msg])"
  define c' where "c' = (if ends_with_user_message ms q then c else c + 1)"
  from classify_intent_node_step [OF assms, of env]
  obtain s' where first: "classify_intent_node env s0 = Inr s'" and nf: "normal_form s'"
    and query: "s' ''user_query'' = Some (VStr q)"
    and msgs: "s' ''messages'' = Some (VList ms')"
    and turn: "s' ''conversation_turn'' = Some (VInt c')"
    unfolding msg_def ms'_def c'_def by (auto split: if_splits)
  have fixed: "normalize_state s' = s'" using nf by (rule normalize_state_fixed)
  have typed: "list_all is_dict ms'"
    using assms(3) by (simp add: ms'_def msg_def user_message_def)
  have ends: "ends_with_user_message ms' q"
    unfolding ms'_def msg_def by (simp add: ends_with_user_message_snoc)
  have "\<exists>s''. classify_intent_node env_b s' = Inr s'' \<and> normal_form s''
           \<and> s'' ''user_query'' = Some (VStr q)
           \<and> (if ends_with_user_message ms' q
               then s'' ''messages'' = Some (VList ms') \<and> s'' ''conversation_turn'' = Some (VInt c')
               else s'' ''messages'' =
                      Some (VList (ms' @ [user_message (ir_py_str env_b) (VStr q)
                                           (get (normalize_state s') ''session_id'')
                                           (VInt (c' + 1))]))
                    \<and> s'' ''conversation_turn'' = Some (VInt (c' + 1)))"
    by (rule classify_intent_node_step) (simp_all add: fixed query msgs turn typed)
  with ends msgs turn have second:
    "\<exists>s''. classify_intent_node env_b s' = Inr s''
        \<and> s'' ''messages'' = s' ''messages''
        \<and> s'' ''conversation_turn'' = s' ''conversation_turn''"
    by auto
  from first msgs turn second show ?thesis
    unfolding ms'_def c'_def msg_def by auto
qed

theorem classify_intent_node_appends_once_witness:
  "\<exists>s'. classify_intent_node
         \<lparr>ir_llm_router = \<lparr>primary_model = ''gemini-2.5-flash'',
                           fallback_repo_id = ''HuggingFaceH4/zephyr-7b-beta'',
                           enable_fallback = True\<rparr>,
          ir_llm = \<lparr>google_exceptions_loaded = True,
                    primary_invoke = (\<lambda>m::unit. Inl (PyExc OtherException ''unavailable'')),
                    fallback_invoke = (\<lambda>m. Inl (PyExc OtherException ''unavailable''))\<rparr>,
          format_messages = (\<lambda>query history context_info. Inr ()),
          json_parse = (\<lambda>body. Inl (PyExc ValueError ''no JSON'')),
          float_of_str = (\<lambda>s. None),
          ir_py_str = (\<lambda>v. case v of VInt i \<Rightarrow> str_of_int i | _ \<Rightarrow> ''?'')\<rparr>
         [''session_id'' \<mapsto> VStr ''s1'', ''user_query'' \<mapsto> VStr ''hello'',
          ''messages'' \<mapsto> VList [VDict [(''role'', VStr ''assistant''),
                                          (''content'', VStr ''welcome'')]],
          ''conversation_turn'' \<mapsto> VInt 1] = Inr s'
     \<and> s' ''messages'' =
         Some (VList [VDict [(''role'', VStr ''assistant''), (''content'', VStr ''welcome'')],
                      VDict [(''role'', VStr ''user''), (''content'', VStr ''hello''),
                             (''metadata'', VDict [(''turn'', VInt 2),
                                                   (''message_id'', VStr ''s1-2'')])]])
     \<and> s' ''conversation_turn'' = Some (VInt 2)
     \<and> (\<exists>s''. classify_intent_node
         \<lparr>ir_llm_router = \<lparr>primary_model = ''gemini-2.5-flash'',
                           fallback_repo_id = ''HuggingFaceH4/zephyr-7b-beta'',
                           enable_fallback = True\<rparr>,
          ir_llm = \<lparr>google_exceptions_loaded = True,
                    primary_invoke = (\<lambda>m::unit. Inl (PyExc OtherException ''unavailable'')),
                    fallback_invoke = (\<lambda>m. Inl (PyExc OtherException ''unavailable''))\<rparr>,
          format_messages = (\<lambda>query history context_info. Inr ()),
          json_parse = (\<lambda>body. Inl (PyExc ValueError ''no JSON'')),
          float_of_str = (\<lambda>s. None),
          ir_py_str = (\<lambda>v. case v of VInt i \<Rightarrow> str_of_int i | _ \<Rightarrow> ''?'')\<rparr>
         s' = Inr s''
            \<and> s'' ''messages'' = s' ''messages''
            \<and> s'' ''conversation_turn'' = Some (VInt 2))"
proof -
  define env :: "unit intent_env" where "env =
         \<lparr>ir_llm_router = \<lparr>primary_model = ''gemini-2.5-flash'',
                           fallback_repo_id = ''HuggingFaceH4/zephyr-7b-beta'',
                           enable_fallback = True\<rparr>,
          ir_llm = \<lparr>google_exceptions_loaded = True,
                    primary_invoke = (\<lambda>m::unit. Inl (PyExc OtherException ''unavailable'')),
                    fallback_invoke = (\<lambda>m. Inl (PyExc OtherException ''unavailable''))\<rparr>,
          format_messages = (\<lambda>query history context_info. Inr ()),
          json_parse = (\<lambda>body. Inl (PyExc ValueError ''no JSON'')),
          float_of_str = (\<lambda>s. None),
          ir_py_str = (\<lambda>v. case v of VInt i \<Rightarrow> str_of_int i | _ \<Rightarrow> ''?'')\<rparr>"
  define s0 :: state where "s0 =
         [''session_id'' \<mapsto> VStr ''s1'', ''user_query'' \<mapsto> VStr ''hello'',
          ''messages'' \<mapsto> VList [VDict [(''role'', VStr ''assistant''),
                                          (''content'', VStr ''welcome'')]],
          ''conversation_turn'' \<mapsto> VInt 1]"
  have a: "normalize_state s0 ''user_query'' = Some (VStr ''hello'')"
    by (simp add: normalize_state_user_query s0_def)
  have b: "normalize_state s0 ''messages'' =
             Some (VList [VDict [(''role'', VStr ''assistant''), (''content'', VStr ''welcome'')]])"
    by (simp add: normalize_state_messages s0_def)
  have c: "list_all is_dict [VDict [(''role'', VStr ''assistant''), (''content'', VStr ''welcome'')]]"
    by simp
  have d: "normalize_state s0 ''conversation_turn'' = Some (VInt 1)"
    by (simp add: normalize_state_conversation_turn s0_def)
  have e: "\<not> ends_with_user_message
               [VDict [(''role'', VStr ''assistant''), (''content'', VStr ''welcome'')]] ''hello''"
    by (simp add: ends_with_user_message_def)
  have f: "user_message (ir_py_str env) (VStr ''hello'') (get (normalize_state s0) ''session_id'')
             (VInt (1 + 1)) =
           VDict [(''role'', VStr ''user''), (''content'', VStr ''hello''),
                  (''metadata'', VDict [(''turn'', VInt 2), (''message_id'', VStr ''s1-2'')])]"
    by (simp add: user_message_def get_def get_default_def normalize_state_session_id s0_def
          env_def fmt_def str_of_int_def str_of_nat.simps)
  from classify_intent_node_appends_once [OF a b c d, of env env]
  show ?thesis
    unfolding env_def [symmetric] s0_def [symmetric]
    using e f by auto
qed

section \<open>The classifier with the prompt of the source\<close>

lemma system_template_fields:
  "replacement_fields In_text system_template =
     [Inr ''context_info'', Inr (dq @ ''intent'' @ dq)]"
  by (simp add: system_template_def)

lemma IntentRouter_format_messages_raises:
  "IntentRouter_format_messages substitute query history context_info =
     Inl (PyExc KeyError (sq @ dq @ ''intent'' @ dq @ sq))"
  by (simp add: IntentRouter_format_messages_def system_template_fields is_digit_def Let_def)

lemma set_unknown_returns:
  assumes "s ''metadata'' = Some (VDict md)"
  shows "\<exists>s'. set_unknown s r = (s', None) \<and> s' ''intent'' = Some (VStr ''unknown'')
              \<and> s' ''intent_confidence'' = Some (VFloat 0)"
  using assms by (simp add: set_unknown_def Let_def get_default_def)

lemma record_failure_returns:
  assumes "s ''metadata'' = Some (VDict md)" and "s ''errors'' = Some (VList es)"
  shows "\<exists>s'. record_failure s x r = (s', None) \<and> s' ''intent'' = Some (VStr ''unknown'')
              \<and> s' ''intent_confidence'' = Some (VFloat 0)"
proof -
  have "list_append s ''errors'' (VStr x) = Inr (s(''errors'' \<mapsto> VList (es @ [VStr x])))"
    using assms(2) by (simp add: list_append_def)
  moreover have "(s(''errors'' \<mapsto> VList (es @ [VStr x]))) ''metadata'' = Some (VDict md)"
    using assms(1) by simp
  ultimately show ?thesis
    using set_unknown_returns [where s = "s(''errors'' \<mapsto> VList (es @ [VStr x]))" and md = md]
    by (simp add: record_failure_def)
qed

lemma ensured_state:
  "\<exists>md es. ensure_intent (ensure_errors (ensure_metadata s)) ''metadata'' = Some (VDict md)
         \<and> ensure_intent (ensure_errors (ensure_metadata s)) ''errors'' = Some (VList es)"
proof -
  have "\<exists>md. ensure_metadata s ''metadata'' = Some (VDict md)"
    by (cases "s ''metadata''"; cases "the (s ''metadata'')")
       (auto simp: ensure_metadata_at subscript_is_dict_def)
  then obtain md where md: "ensure_metadata s ''metadata'' = Some (VDict md)" by blast
  have "\<exists>es. ensure_errors (ensure_metadata s) ''errors'' = Some (VList es)"
    by (cases "ensure_metadata s ''errors''"; cases "the (ensure_metadata s ''errors'')")
       (auto simp: ensure_errors_at subscript_is_list_def)
  then obtain es where es: "ensure_errors (ensure_metadata s) ''errors'' = Some (VList es)" by blast
  have "ensure_intent (ensure_errors (ensure_metadata s)) ''metadata'' = Some (VDict md)"
    using md by (simp add: ensure_intent_at ensure_errors_at)
  moreover have "ensure_intent (ensure_errors (ensure_metadata s)) ''errors'' = Some (VList es)"
    using es by (simp add: ensure_intent_at)
  ultimately show ?thesis by blast
qed

lemma classify_with_failing_prompt:
  assumes docs: "is_list (get_default s ''uploaded_docs'' (VList []))"
                "is_list (get_default s ''workspace_documents'' (VList []))"
      and prompt: "\<And>q h c. format_messages env q h c = Inl e"
  shows "\<exists>s'. classify env s = (s', None) \<and> s' ''intent'' = Some (VStr ''unknown'')
              \<and> s' ''intent_confidence'' = Some (VFloat 0)"
proof -
  define s1 where "s1 = ensure_intent (ensure_errors (ensure_metadata s))"
  from ensured_state [of s] obtain md es
    where md: "s1 ''metadata'' = Some (VDict md)" and es: "s1 ''errors'' = Some (VList es)"
    unfolding s1_def by blast
  have t: "classifier_touched s s1" unfolding s1_def by (rule ensure_all_touched)
  have keep: "s1 ''uploaded_docs'' = s ''uploaded_docs''"
    "s1 ''workspace_documents'' = s ''workspace_documents''"
    by (rule touched_keeps [OF t], simp add: classifier_keys_def)+
  obtain a b where ab: "get_default s1 ''uploaded_docs'' (VList []) = VList a"
    "get_default s1 ''workspace_documents'' (VList []) = VList b"
    using docs keep
    by (cases "get_default s ''uploaded_docs'' (VList [])";
        cases "get_default s ''workspace_documents'' (VList [])")
       (auto simp: get_default_def)
  have "\<exists>ci. context_info_of (VList a) (VList b) = Inr ci"
    by (simp add: context_info_of_def)
  then obtain ci where ci: "context_info_of (VList a) (VList b) = Inr ci" by blast
  show ?thesis
  proof (cases "truthy (get_default s1 ''user_query'' (VStr []))")
    case False
    then have "classify env s = set_unknown s1 ''Empty query''"
      unfolding classify_def Let_def s1_def [symmetric] ab ci by simp
    with set_unknown_returns [where s = s1 and md = md and r = "''Empty query''", OF md]
    show ?thesis by simp
  next
    case True
    then have "classify env s =
                 record_failure s1 (''Prompt formatting error: '' @ exc_str e)
                   (''Prompt formatting failed: '' @ exc_str e)"
      unfolding classify_def Let_def s1_def [symmetric] ab ci by (simp add: prompt)
    with record_failure_returns [where s = s1 and md = md and es = es, OF md es]
    show ?thesis by simp
  qed
qed

text \<open>
  C2 (the classifier always returns a label of the closed set and a confidence in [0, 1],
  and never raises). The system template ends with a JSON example in single braces, so
  \<open>str.format\<close> reads \<open>{"intent": ...}\<close> as a replacement field named \<open>"intent"\<close>, for which
  \<open>classify\<close> passes no argument: \<open>format_messages\<close> raises \<open>KeyError\<close> on every call. The
  handler of that exception records the error and degrades to \<open>unknown\<close> with confidence 0,
  so for every state whose \<open>uploaded_docs\<close> and \<open>workspace_documents\<close> are lists (their
  declared type; \<open>len()\<close> is applied to them outside any \<open>try\<close>) and for every router, backend
  and parser, \<open>classify\<close> returns, with the label \<open>unknown\<close> and the confidence 0. The model
  is never asked, so the statements after the call (which hash the label and do not clamp
  the confidence) are not reached.
\<close>

theorem classify_never_raises:
  assumes "is_list (get_default s ''uploaded_docs'' (VList []))"
      and "is_list (get_default s ''workspace_documents'' (VList []))"
  shows "\<exists>s'. classify (env\<lparr>format_messages := IntentRouter_format_messages substitute\<rparr>) s
                = (s', None)
           \<and> valid_label s'
           \<and> (\<exists>r. s' ''intent_confidence'' = Some (VFloat r) \<and> 0 \<le> r \<and> r \<le> 1)
           \<and> s' ''intent'' = Some (VStr (Intent_value UNKNOWN))
           \<and> s' ''intent_confidence'' = Some (VFloat 0)"
proof -
  have "\<And>q h c. format_messages (env\<lparr>format_messages := IntentRouter_format_messages substitute\<rparr>)
                   q h c = Inl (PyExc KeyError (sq @ dq @ ''intent'' @ dq @ sq))"
    by (simp add: IntentRouter_format_messages_raises)
  from classify_with_failing_prompt [OF assms this]
  obtain s' where
    "classify (env\<lparr>format_messages := IntentRouter_format_messages substitute\<rparr>) s = (s', None)"
    "s' ''intent'' = Some (VStr ''unknown'')" "s' ''intent_confidence'' = Some (VFloat 0)"
    by blast
  then show ?thesis
    by (auto simp: valid_label_def valid_intents_def all_intents_def)
qed

theorem classify_never_raises_witness:
  "\<exists>s'. classify
          \<lparr>ir_llm_router = \<lparr>primary_model = ''gemini-2.5-flash'',
                             fallback_repo_id = ''HuggingFaceH4/zephyr-7b-beta'',
                             enable_fallback = True\<rparr>,
            ir_llm = \<lparr>google_exceptions_loaded = True,
                      primary_invoke =
                        (\<lambda>m::unit. Inr \<lparr>content = Some (VStr ''[1, 2'' ), resp_str = ''[1, 2''\<rparr>),
                      fallback_invoke = (\<lambda>m. Inl (PyExc OtherException ''unavailable''))\<rparr>,
            format_messages = IntentRouter_format_messages (\<lambda>query history context_info. Inr ()),
            json_parse = (\<lambda>body. Inl (PyExc ValueError ''Invalid json output'')),
            float_of_str = (\<lambda>s. None),
            ir_py_str = (\<lambda>v. ''?'')\<rparr>
          (normalize_state [''user_query'' \<mapsto> VStr ''show me the sales report''])
        = (s', None)
      \<and> s' ''intent'' = Some (VStr ''unknown'')
      \<and> s' ''intent_confidence'' = Some (VFloat 0)"
proof -
  let ?s = "normalize_state [''user_query'' \<mapsto> VStr ''show me the sales report'']"
  have a: "is_list (get_default ?s ''uploaded_docs'' (VList []))"
    "is_list (get_default ?s ''workspace_documents'' (VList []))"
    by (simp_all add: get_default_def normalize_state_uploaded_docs
          normalize_state_workspace_documents)
  from classify_never_raises
    [OF a, where substitute = "\<lambda>query history context_info. Inr ()" and env =
       "\<lparr>ir_llm_router = \<lparr>primary_model = ''gemini-2.5-flash'',
                             fallback_repo_id = ''HuggingFaceH4/zephyr-7b-beta'',
                             enable_fallback = True\<rparr>,
         ir_llm = \<lparr>google_exceptions_loaded = True,
                   primary_invoke =
                     (\<lambda>m::unit. Inr \<lparr>content = Some (VStr ''[1, 2'' ), resp_str = ''[1, 2''\<rparr>),
                   fallback_invoke = (\<lambda>m. Inl (PyExc OtherException ''unavailable''))\<rparr>,
         format_messages = (\<lambda>query history context_info. Inr ()),
         json_parse = (\<lambda>body. Inl (PyExc ValueError ''Invalid json output'')),
         float_of_str = (\<lambda>s. None),
         ir_py_str = (\<lambda>v. ''?'')\<rparr>"]
  show ?thesis by auto
qed

section \<open>The context-load node and repeated uploads\<close>

lemma normalize_state_user_id:
  "normalize_state s ''user_id'' = Some (case s ''user_id'' of None \<Rightarrow> VStr ''guest'' | Some v \<Rightarrow> v)"
  unfolding normalize_state_def Let_def by (simp add: normalize_at split: option.splits)

lemma normalize_state_workspace_id:
  "normalize_state s ''workspace_id'' =
     Some (case s ''workspace_id'' of None \<Rightarrow> VStr ''default'' | Some v \<Rightarrow> v)"
  unfolding normalize_state_def Let_def by (simp add: normalize_at split: option.splits)

lemma append_all_list:
  "state k = Some (VList xs) \<Longrightarrow> append_all state k ys = Inr (state(k \<mapsto> VList (xs @ ys)))"
proof (induction ys arbitrary: state xs)
  case Nil
  then show ?case by (simp add: fun_upd_idem)
next
  case (Cons y ys)
  define s1 where "s1 = state(k \<mapsto> VList (xs @ [y]))"
  have a: "list_append state k y = Inr s1"
    using Cons.prems by (simp add: list_append_def s1_def)
  have "append_all s1 k ys = Inr (s1(k \<mapsto> VList ((xs @ [y]) @ ys)))"
    by (rule Cons.IH) (simp add: s1_def)
  then have b: "append_all s1 k ys = Inr (state(k \<mapsto> VList (xs @ y # ys)))"
    by (simp add: s1_def)
  show ?case by (simp only: append_all.simps a sum.case b)
qed

lemma upsert_document_registers:
  "\<exists>r \<in> set (user_documents (upsert_document now db u w i f x)).
     d_user_id r = u \<and> d_workspace_id r = w \<and> d_file_path r = f"
proof (cases "list_ex (same_key u w i) (user_documents db)")
  case True
  then obtain r where r: "r \<in> set (user_documents db)" "same_key u w i r"
    by (auto simp: list_ex_iff)
  let ?r = "r\<lparr>d_file_path := f, d_vector_index_path := x\<rparr>"
  have "?r \<in> set (user_documents (upsert_document now db u w i f x))"
    using True r by (force simp: upsert_document_def)
  moreover have "d_user_id ?r = u \<and> d_workspace_id ?r = w \<and> d_file_path ?r = f"
    using r(2) by (simp add: same_key_def)
  ultimately show ?thesis by blast
next
  case False
  then show ?thesis by (simp add: upsert_document_def)
qed

lemma upsert_document_existing:
  assumes "f \<noteq> []"
  shows "normalized_path env f \<in>
           set (existing_paths env
                  (fst (list_workspace_documents (upsert_document now db u w i f x) u w)))"
proof -
  from upsert_document_registers [of now db u w i f x]
  obtain r where "r \<in> set (user_documents (upsert_document now db u w i f x))"
    "d_user_id r = u" "d_workspace_id r = w" "d_file_path r = f" by blast
  with assms show ?thesis
    by (force simp: existing_paths_def list_workspace_documents_def Let_def)
qed

lemma load_persistent_context_node_typed:
  assumes u: "normalize_state s ''user_id'' = Some (VStr u)"
      and w: "normalize_state s ''workspace_id'' = Some (VStr w)"
      and sid: "normalize_state s ''session_id'' = Some (VStr sid)"
      and up: "normalize_state s ''uploaded_docs'' = Some (VList ps)"
  shows "\<exists>st. load_persistent_context_node env db s =
                register_uploads env db u (if w = [] then ''default'' else w) st
              \<and> st ''uploaded_docs'' = Some (VList ps)"
proof -
  define n where "n = normalize_state s"
  define ws where "ws = (if w = [] then ''default'' else w)"
  define sid' where "sid' = (if sid = [] then uuid4 env else sid)"
  define st0 where "st0 = n(''workspace_id'' \<mapsto> VStr ws, ''session_id'' \<mapsto> VStr sid')"
  define history where "history = load_chat_messages db u ws sid' 50"
  define st1 where "st1 = st0(''chat_history'' \<mapsto> VList (map chat_dict history))"
  obtain ms where ms: "n ''messages'' = Some (VList ms)"
    using normal_form_list [OF normalize_state_normal_form, of "''messages''" s]
    unfolding n_def by (auto simp: checked_list_keys_def)
  define st2 where "st2 = st1(''messages'' \<mapsto> VList (ms @ map persisted_message history))"
  define st where "st = st2(''memory_loaded_count'' \<mapsto>
                           VInt (int (length (ms @ map persisted_message history))))"
  have nu: "n ''user_id'' = Some (VStr u)" and nw: "n ''workspace_id'' = Some (VStr w)"
    and ns: "n ''session_id'' = Some (VStr sid)" and np: "n ''uploaded_docs'' = Some (VList ps)"
    using u w sid up by (simp_all add: n_def)
  have a: "(if truthy (get n ''workspace_id'') then get n ''workspace_id'' else VStr ''default'')
             = VStr ws"
    using nw by (simp add: get_def get_default_def ws_def)
  have b: "(if \<not> truthy (get (n(''workspace_id'' \<mapsto> VStr ws)) ''session_id'')
            then n(''workspace_id'' \<mapsto> VStr ws, ''session_id'' \<mapsto> VStr (uuid4 env))
            else n(''workspace_id'' \<mapsto> VStr ws)) = st0"
    using ns by (auto simp: get_def get_default_def st0_def sid'_def fun_upd_idem)
  have c: "get st0 ''user_id'' = VStr u" "get st0 ''session_id'' = VStr sid'"
    using nu by (simp_all add: get_def get_default_def st0_def)
  define st1b where
    "st1b = (if \<not> truthy (get st1 ''messages'') then st1(''messages'' \<mapsto> VList []) else st1)"
  have d: "st1b ''messages'' = Some (VList ms)"
    using ms by (auto simp: get_def get_default_def st1b_def st1_def st0_def)
  have e: "st1b(''messages'' \<mapsto> VList (ms @ map persisted_message history)) = st2"
    by (simp add: st2_def st1b_def)
  have f: "append_all st1b ''messages'' (map persisted_message history) = Inr st2"
    using append_all_list [where state = st1b and k = "''messages''", OF d] e by simp
  have g: "py_len (get st2 ''messages'') = Inr (length (ms @ map persisted_message history))"
    by (simp add: get_def get_default_def st2_def)
  have node: "load_persistent_context_node env db s = register_uploads env db u ws st"
    unfolding load_persistent_context_node_def Let_def n_def [symmetric] a b
    by (simp only: c prod.case pyval.case history_def [symmetric] st1_def [symmetric]
          st1b_def [symmetric] f g sum.case st_def [symmetric])
  have "st ''uploaded_docs'' = Some (VList ps)"
    using np by (simp add: st_def st2_def st1_def st0_def)
  with node show ?thesis unfolding ws_def by blast
qed

lemma register_uploads_known:
  assumes "st ''uploaded_docs'' = Some (VList [VStr p])"
      and "normalized_path env p \<in>
             set (existing_paths env (fst (list_workspace_documents db u w)))"
  shows "\<exists>t. register_uploads env db u w st = Some (db, Inr t)
             \<and> t ''uploaded_docs'' = Some (VList [])"
proof -
  obtain docs index_path where l: "list_workspace_documents db u w = (docs, index_path)"
    by (cases "list_workspace_documents db u w") auto
  have up: "get_default (set_workspace_view st (docs, index_path)) ''uploaded_docs'' (VList [])
              = VList [VStr p]"
    using assms(1) by (simp add: set_workspace_view_def get_default_def)
  have reg: "register_paths env u w (existing_paths env docs)
               (base_index_path_of env index_path u w) [VStr p] db [] = (db, Inr [])"
    using assms(2) l by (simp add: Let_def)
  show ?thesis
    unfolding register_uploads_def l Let_def prod.case up
    by (simp add: reg del: register_paths.simps)
qed

lemma register_uploads_new:
  assumes "st ''uploaded_docs'' = Some (VList [VStr p])"
      and "normalized_path env p \<notin>
             set (existing_paths env (fst (list_workspace_documents db u w)))"
  shows "\<exists>t. register_uploads env db u w st =
               Some (upsert_document (utc_now env) db u w
                       (sha256_hex32 env (u @ ''|'' @ w @ ''|'' @ normalized_path env p))
                       (normalized_path env p)
                       (base_index_path_of env (snd (list_workspace_documents db u w)) u w),
                     Inr t)
             \<and> t ''uploaded_docs'' = Some (VList [VStr p])"
proof -
  obtain docs index_path where l: "list_workspace_documents db u w = (docs, index_path)"
    by (cases "list_workspace_documents db u w") auto
  have up: "get_default (set_workspace_view st (docs, index_path)) ''uploaded_docs'' (VList [])
              = VList [VStr p]"
    using assms(1) by (simp add: set_workspace_view_def get_default_def)
  have reg: "register_paths env u w (existing_paths env docs)
               (base_index_path_of env index_path u w) [VStr p] db [] =
             (upsert_document (utc_now env) db u w
                (sha256_hex32 env (u @ ''|'' @ w @ ''|'' @ normalized_path env p))
                (normalized_path env p) (base_index_path_of env index_path u w),
              Inr [VStr p])"
    using assms(2) l by (simp add: Let_def)
  show ?thesis
    unfolding register_uploads_def l Let_def prod.case up
    by (simp add: reg del: register_paths.simps)
qed

lemma list_workspace_documents_table:
  "user_documents db' = user_documents db \<Longrightarrow>
   list_workspace_documents db' u w = list_workspace_documents db u w"
  by (simp add: list_workspace_documents_def)

text \<open>
  C9 (a document path supplied twice is registered once). Two runs of the context-load node
  for the same user and workspace, each with one supplied path, the two paths having the same
  normalized absolute path (for the same working directory; \<open>normpath\<close> after \<open>abspath\<close> gives
  a non-empty path and is idempotent on it). The first run returns, on any database. The
  second run, on any database with the documents table the first run left, returns the
  database unchanged, so it registers no record, and it hands on an empty list of new
  documents. The other fields of the two states, the sessions and the chat table are
  arbitrary.
\<close>

theorem load_persistent_context_node_registers_once:
  assumes "normalized_path env (normalized_path env p) = normalized_path env p"
      and "normalized_path env p \<noteq> []"
      and "abspath env_b = abspath env" and "normpath env_b = normpath env"
      and "normalized_path env p_b = normalized_path env p"
      and "normalize_state s ''user_id'' = Some (VStr u)"
      and "normalize_state s ''workspace_id'' = Some (VStr w)"
      and "normalize_state s ''session_id'' = Some (VStr sid)"
      and "normalize_state s ''uploaded_docs'' = Some (VList [VStr p])"
      and "normalize_state s_b ''user_id'' = Some (VStr u)"
      and "normalize_state s_b ''workspace_id'' = Some (VStr w)"
      and "normalize_state s_b ''session_id'' = Some (VStr sid_b)"
      and "normalize_state s_b ''uploaded_docs'' = Some (VList [VStr p_b])"
  shows "\<exists>db1 t1. load_persistent_context_node env db s = Some (db1, Inr t1)
           \<and> (\<forall>db_b. user_documents db_b = user_documents db1 \<longrightarrow>
                  (\<exists>t_b. load_persistent_context_node env_b db_b s_b = Some (db_b, Inr t_b)
                         \<and> t_b ''uploaded_docs'' = Some (VList [])))"
proof -
  define ws where "ws = (if w = [] then ''default'' else w)"
  define np where "np = normalized_path env p"
  have same_b: "normalized_path env_b p_b = np"
    using assms(3,4,5) by (simp add: normalized_path_def np_def)
  have norm_b: "\<And>docs. existing_paths env_b docs = existing_paths env docs"
    using assms(3,4) by (simp add: existing_paths_def normalized_path_def)
  from load_persistent_context_node_typed [where s = s and env = env and db = db,
         OF assms(6,7,8,9)]
  obtain st where st: "load_persistent_context_node env db s = register_uploads env db u ws st"
    "st ''uploaded_docs'' = Some (VList [VStr p])"
    unfolding ws_def by blast
  have "\<exists>db1 t1. register_uploads env db u ws st = Some (db1, Inr t1)
          \<and> np \<in> set (existing_paths env (fst (list_workspace_documents db1 u ws)))"
  proof (cases "np \<in> set (existing_paths env (fst (list_workspace_documents db u ws)))")
    case True
    with register_uploads_known [where st = st and p = p and env = env and db = db
           and u = u and w = ws, OF st(2)] show ?thesis
      unfolding np_def by blast
  next
    case False
    from register_uploads_new [where st = st and p = p and env = env and db = db
           and u = u and w = ws, OF st(2)] False
    obtain t where "register_uploads env db u ws st =
               Some (upsert_document (utc_now env) db u ws
                       (sha256_hex32 env (u @ ''|'' @ ws @ ''|'' @ np)) np
                       (base_index_path_of env (snd (list_workspace_documents db u ws)) u ws),
                     Inr t)"
      unfolding np_def by blast
    moreover have "normalized_path env np \<in>
           set (existing_paths env
                  (fst (list_workspace_documents
                     (upsert_document (utc_now env) db u ws
                       (sha256_hex32 env (u @ ''|'' @ ws @ ''|'' @ np)) np
                       (base_index_path_of env (snd (list_workspace_documents db u ws)) u ws))
                     u ws)))"
      using assms(2) unfolding np_def by (rule upsert_document_existing)
    ultimately show ?thesis using assms(1) unfolding np_def by auto
  qed
  then obtain db1 t1 where first: "register_uploads env db u ws st = Some (db1, Inr t1)"
    and reg: "np \<in> set (existing_paths env (fst (list_workspace_documents db1 u ws)))"
    by blast
  have second: "\<exists>t_b. load_persistent_context_node env_b db_b s_b = Some (db_b, Inr t_b)
                   \<and> t_b ''uploaded_docs'' = Some (VList [])"
    if tab: "user_documents db_b = user_documents db1" for db_b
  proof -
    from load_persistent_context_node_typed [where s = s_b and env = env_b and db = db_b,
           OF assms(10,11,12,13)]
    obtain st_b where st_b:
      "load_persistent_context_node env_b db_b s_b = register_uploads env_b db_b u ws st_b"
      "st_b ''uploaded_docs'' = Some (VList [VStr p_b])"
      unfolding ws_def by blast
    have "normalized_path env_b p_b \<in>
            set (existing_paths env_b (fst (list_workspace_documents db_b u ws)))"
      using reg by (simp add: same_b norm_b list_workspace_documents_table [OF tab])
    from register_uploads_known [where st = st_b and p = p_b and env = env_b and db = db_b
           and u = u and w = ws, OF st_b(2) this] st_b(1) show ?thesis by simp
  qed
  from st(1) first second show ?thesis by auto
qed

theorem load_persistent_context_node_registers_once_witness:
  "\<exists>db1 t1 t2.
     load_persistent_context_node
         \<lparr>abspath = (\<lambda>p. if hd p = CHR ''/'' then p else ''/app/'' @ p),
          normpath = (\<lambda>p. p),
          path_join = join ''/'',
          sha256_hex32 = (\<lambda>s. ''5f2b9d1c0a7e4c3b8d6f1e2a3b4c5d6e''),
          uuid4 = ''1b4e28ba-2fa1-41d2-883f-0016d3cca427'',
          utc_now = ''2024-01-01T00:00:00.000Z''\<rparr>
         \<lparr>chat_messages = [], user_documents = []\<rparr>
         [''user_id'' \<mapsto> VStr ''alice'', ''workspace_id'' \<mapsto> VStr ''ws1'',
          ''session_id'' \<mapsto> VStr ''s1'',
          ''uploaded_docs'' \<mapsto> VList [VStr ''docs/report.pdf'']] = Some (db1, Inr t1)
     \<and> load_persistent_context_node
         \<lparr>abspath = (\<lambda>p. if hd p = CHR ''/'' then p else ''/app/'' @ p),
          normpath = (\<lambda>p. p),
          path_join = join ''/'',
          sha256_hex32 = (\<lambda>s. ''5f2b9d1c0a7e4c3b8d6f1e2a3b4c5d6e''),
          uuid4 = ''1b4e28ba-2fa1-41d2-883f-0016d3cca427'',
          utc_now = ''2024-01-01T00:00:00.000Z''\<rparr>
         db1
         [''user_id'' \<mapsto> VStr ''alice'', ''workspace_id'' \<mapsto> VStr ''ws1'',
          ''session_id'' \<mapsto> VStr ''s1'',
          ''uploaded_docs'' \<mapsto> VList [VStr ''docs/report.pdf'']] = Some (db1, Inr t2)
     \<and> t2 ''uploaded_docs'' = Some (VList [])"
proof -
  define env where "env =
         \<lparr>abspath = (\<lambda>p. if hd p = CHR ''/'' then p else ''/app/'' @ p),
          normpath = (\<lambda>p. p),
          path_join = join ''/'',
          sha256_hex32 = (\<lambda>s. ''5f2b9d1c0a7e4c3b8d6f1e2a3b4c5d6e''),
          uuid4 = ''1b4e28ba-2fa1-41d2-883f-0016d3cca427'',
          utc_now = ''2024-01-01T00:00:00.000Z''\<rparr>"
  define s :: state where "s =
         [''user_id'' \<mapsto> VStr ''alice'', ''workspace_id'' \<mapsto> VStr ''ws1'',
          ''session_id'' \<mapsto> VStr ''s1'',
          ''uploaded_docs'' \<mapsto> VList [VStr ''docs/report.pdf'']]"
  have a: "normalized_path env (normalized_path env ''docs/report.pdf'') =
             normalized_path env ''docs/report.pdf''"
    "normalized_path env ''docs/report.pdf'' \<noteq> []"
    by (simp_all add: normalized_path_def env_def)
  have b: "normalize_state s ''user_id'' = Some (VStr ''alice'')"
    "normalize_state s ''workspace_id'' = Some (VStr ''ws1'')"
    "normalize_state s ''session_id'' = Some (VStr ''s1'')"
    "normalize_state s ''uploaded_docs'' = Some (VList [VStr ''docs/report.pdf''])"
    by (simp_all add: normalize_state_user_id normalize_state_workspace_id
          normalize_state_session_id normalize_state_uploaded_docs s_def)
  from load_persistent_context_node_registers_once
         [OF a refl refl refl b b, of "\<lparr>chat_messages = [], user_documents = []\<rparr>"]
  show ?thesis
    unfolding env_def [symmetric] s_def [symmetric] by blast
qed

end
